theory Spec2Isabelle
  imports Main "HOL-Library.Multiset" "HOL-Library.AList"
begin

section \<open>Calendar dates: the part of Go's time package the handlers use\<close>

text \<open>
  The handlers only ever hold date values: \<^verbatim>\<open>time.Parse("2006-01-02", s)\<close> yields midnight
  UTC of a calendar day, \<^verbatim>\<open>AddDate(0, 0, n)\<close> moves it by whole days, the \<^verbatim>\<open>DATE\<close> columns store a
  day, and \<^verbatim>\<open>Format("2006-01-02")\<close> prints the day. A \<^verbatim>\<open>time.Time\<close> is an instant counted
  from an epoch; for these values the instant is determined by its day number, counted here from
  0001-01-01 (day 0), the zero value of \<^verbatim>\<open>time.Time\<close>. The calendar is the proleptic Gregorian
  one, as in Go.
\<close>

type_synonym Time = int

definition isLeap :: "int \<Rightarrow> bool" where
  "isLeap year = (year mod 4 = 0 \<and> (year mod 100 \<noteq> 0 \<or> year mod 400 = 0))"

definition daysIn :: "int \<Rightarrow> int \<Rightarrow> int" where
  "daysIn m year =
     (if m = 2 then (if isLeap year then 29 else 28)
      else if m = 4 \<or> m = 6 \<or> m = 9 \<or> m = 11 then 30 else 31)"

definition daysBefore :: "int \<Rightarrow> int" where
  "daysBefore m = [0, 31, 59, 90, 120, 151, 181, 212, 243, 273, 304, 334] ! nat (m - 1)"

text \<open>\<^verbatim>\<open>time.Date(year, month, day, 0, 0, 0, 0, time.UTC)\<close> for a month in 1..12; a day outside
  the month is normalised by the addition, as in Go.\<close>

definition Date :: "int \<Rightarrow> int \<Rightarrow> int \<Rightarrow> Time" where
  "Date year m day =
     365 * (year - 1) + (year - 1) div 4 - (year - 1) div 100 + (year - 1) div 400
     + daysBefore m + (if isLeap year \<and> 2 < m then 1 else 0) + (day - 1)"

text \<open>\<^verbatim>\<open>t.Date()\<close>: the year, month and day of a day number (the era/day-of-era computation on
  the calendar shifted to start on 1 March of year 0, which is day -306).\<close>

definition civil :: "Time \<Rightarrow> int \<times> int \<times> int" where
  "civil t =
     (let z = t + 306;
          era = z div 146097;
          doe = z mod 146097;
          yoe = (doe - doe div 1460 + doe div 36524 - doe div 146096) div 365;
          doy = doe - (365 * yoe + yoe div 4 - yoe div 100);
          mp = (5 * doy + 2) div 153;
          day = doy - (153 * mp + 2) div 5 + 1;
          m = (if mp < 10 then mp + 3 else mp - 9);
          year = yoe + era * 400 + (if m \<le> 2 then 1 else 0)
      in (year, m, day))"

text \<open>\<^verbatim>\<open>t.AddDate(0, 0, days)\<close> is \<^verbatim>\<open>Date(year, month, day + days, ...)\<close> of the fields of \<open>t\<close>, whose
  normalisation of the day overflow is the addition of \<open>days\<close> to the day number. The handlers never
  pass years or months.\<close>

definition AddDate_days :: "Time \<Rightarrow> int \<Rightarrow> Time" where
  "AddDate_days t days = t + days"

subsection \<open>Parsing and printing with the layout 2006-01-02\<close>

definition isDigit :: "string \<Rightarrow> nat \<Rightarrow> bool" where
  "isDigit s i = (i < length s \<and> (48::nat) \<le> of_char (s ! i) \<and> (of_char (s ! i) :: nat) \<le> 57)"

definition digitVal :: "char \<Rightarrow> int" where
  "digitVal c = int (of_char c) - 48"

text \<open>\<^verbatim>\<open>time.Parse("2006-01-02", value)\<close>: four digits of year, a dash, two digits of month, a
  dash, two digits of day and nothing after them; the month in 1..12 and the day in the month.
  Every failure is the same to the caller (\<open>None\<close>).\<close>

definition Parse :: "string \<Rightarrow> Time option" where
  "Parse v =
     (if \<not> (isDigit v 0 \<and> isDigit v 1 \<and> isDigit v 2 \<and> isDigit v 3) then None
      else if \<not> (4 < length v \<and> v ! 4 = CHR ''-'') then None
      else if \<not> (isDigit v 5 \<and> isDigit v 6) then None
      else if \<not> (7 < length v \<and> v ! 7 = CHR ''-'') then None
      else if \<not> (isDigit v 8 \<and> isDigit v 9) then None
      else if 10 < length v then None
      else
        (let year = 1000 * digitVal (v ! 0) + 100 * digitVal (v ! 1)
                    + 10 * digitVal (v ! 2) + digitVal (v ! 3);
             m = 10 * digitVal (v ! 5) + digitVal (v ! 6);
             day = 10 * digitVal (v ! 8) + digitVal (v ! 9)
         in if m \<le> 0 \<or> 12 < m then None
            else if day < 1 \<or> daysIn m year < day then None
            else Some (Date year m day)))"

fun utod :: "nat \<Rightarrow> string" where
  "utod n = (if n < 10 then [''0123456789'' ! n]
             else utod (n div 10) @ [''0123456789'' ! (n mod 10)])"

text \<open>\<^verbatim>\<open>appendInt(b, x, width)\<close>: a sign for a negative number, then the decimal digits padded
  with zeros on the left to the width.\<close>

definition appendInt :: "int \<Rightarrow> nat \<Rightarrow> string" where
  "appendInt x width =
     (let ds = utod (nat \<bar>x\<bar>)
      in (if x < 0 then ''-'' else '''') @ replicate (width - length ds) CHR ''0'' @ ds)"

definition Format :: "Time \<Rightarrow> string" where
  "Format t = (case civil t of (year, m, day) \<Rightarrow>
     appendInt year 4 @ ''-'' @ appendInt m 2 @ ''-'' @ appendInt day 2)"

section \<open>Lock dates\<close>

text \<open>The loop of \<^verbatim>\<open>calculateLockDates\<close>: \<open>i\<close> counts from 0 while it is below \<open>emiTerm\<close>,
  each round appends the current date moved by \<open>termDuration\<close> days and continues from it.\<close>

function calculateLockDates_loop :: "int \<Rightarrow> int \<Rightarrow> int \<Rightarrow> Time \<Rightarrow> Time list \<Rightarrow> Time list" where
  "calculateLockDates_loop termDuration emiTerm i currentDate lockDates =
     (if i < emiTerm then
        (let lockDate = AddDate_days currentDate termDuration
         in calculateLockDates_loop termDuration emiTerm (i + 1) lockDate (lockDates @ [lockDate]))
      else lockDates)"
  by pat_completeness auto
termination
  by (relation "measure (\<lambda>(termDuration, emiTerm, i, currentDate, lockDates). nat (emiTerm - i))") auto

definition calculateLockDates :: "Time \<Rightarrow> int \<Rightarrow> int \<Rightarrow> Time list" where
  "calculateLockDates startDate termDuration emiTerm =
     calculateLockDates_loop termDuration emiTerm 0 startDate []"

section \<open>The relational store\<close>

text \<open>
  The four tables of \<^verbatim>\<open>schema.sql\<close>, each a list of rows in insertion order. The timestamp
  columns hold instants of the server clock; they are stored and never read by a handler.
\<close>

type_synonym timestamp = int

record Device =
  dev_id :: string
  dev_serial_number :: string
  dev_customer_name :: string
  dev_phone_number :: string
  dev_emi_term :: int
  dev_emi_start_date :: Time
  dev_term_duration :: int
  dev_is_active :: bool
  dev_is_locked :: bool
  dev_created_at :: timestamp

record ActivationCode =
  ac_id :: string
  ac_device_id :: string
  ac_code :: string
  ac_term_number :: int
  ac_is_used :: bool
  ac_used_at :: "timestamp option"
  ac_created_at :: timestamp

record LockDate =
  ld_id :: string
  ld_device_id :: string
  ld_lock_date :: Time
  ld_is_locked :: bool
  ld_created_at :: timestamp

record RemoteLock =
  rl_id :: string
  rl_device_id :: string
  rl_is_locked :: bool
  rl_created_at :: timestamp
  rl_updated_at :: timestamp

record store =
  devices :: "Device list"
  activation_codes :: "ActivationCode list"
  lock_dates :: "LockDate list"
  remote_locks :: "RemoteLock list"

definition empty_store :: store where
  "empty_store = \<lparr>devices = [], activation_codes = [], lock_dates = [], remote_locks = []\<rparr>"

subsection \<open>What a request takes from outside\<close>

text \<open>
  A handler calls \<^verbatim>\<open>uuid.New()\<close>, reads the clock and talks to the database; all three are
  inputs of the model. Every call of a request is named by its place in the handler (and by the
  loop counter, inside the registration loop), so that a run is a function of the store, the request
  and this record. \<open>db_error\<close> tells which statements fail for a reason the model does not hold
  (a lost connection, a value the column type rejects); the key constraints of the schema are
  checked by the statements themselves. \<open>map_order\<close> stands for the order in which Go iterates
  over a map, which the language leaves open and the runtime varies from one \<^verbatim>\<open>range\<close> to the next.
\<close>

datatype uuid_call = DeviceID | CodeValue int | CodeRowID int | LockDateRowID int | RemoteLockRowID

datatype db_call =
    SelectDevice | InsertDevice | InsertActivationCode int | InsertLockDate int | InsertRemoteLock
  | SelectActivationCode | UpdateActivationCode | UpdateDeviceActive
  | QueryActivationCodes | QueryLockDates
  | UpdateRemoteLock | UpdateDeviceLocked | SelectRemoteLock | UpdateDeviceUnlock

record env =
  uuid_New :: "uuid_call \<Rightarrow> string"
  time_Now :: timestamp
  db_error :: "db_call \<Rightarrow> bool"
  map_order :: "nat list"

text \<open>\<^verbatim>\<open>db.Exec\<close>, \<^verbatim>\<open>db.QueryRow(...).Scan\<close> and \<^verbatim>\<open>db.Query\<close>: \<open>None\<close> is a non-nil \<open>err\<close>.\<close>

definition db_Exec :: "env \<Rightarrow> db_call \<Rightarrow> (store \<Rightarrow> store option) \<Rightarrow> store \<Rightarrow> store option" where
  "db_Exec e c stmt s = (if db_error e c then None else stmt s)"

definition db_QueryRow :: "env \<Rightarrow> db_call \<Rightarrow> 'a option \<Rightarrow> 'a option" where
  "db_QueryRow e c row = (if db_error e c then None else row)"

definition db_Query :: "env \<Rightarrow> db_call \<Rightarrow> 'a list \<Rightarrow> 'a list option" where
  "db_Query e c rows = (if db_error e c then None else Some rows)"

subsection \<open>The statements\<close>

text \<open>An \<^verbatim>\<open>INSERT\<close> fails on a primary key, a \<^verbatim>\<open>UNIQUE\<close>, a \<^verbatim>\<open>CHECK\<close> or a foreign key of
  \<^verbatim>\<open>schema.sql\<close>; an \<^verbatim>\<open>UPDATE\<close> changes every row its \<^verbatim>\<open>WHERE\<close> selects, possibly none.\<close>

definition insert_device :: "Device \<Rightarrow> store \<Rightarrow> store option" where
  "insert_device d s =
     (if (\<exists>x \<in> set (devices s). dev_id x = dev_id d \<or> dev_serial_number x = dev_serial_number d)
         \<or> \<not> (dev_term_duration d = 7 \<or> dev_term_duration d = 15 \<or> dev_term_duration d = 30)
      then None
      else Some (s\<lparr>devices := devices s @ [d]\<rparr>))"

definition insert_activation_code :: "ActivationCode \<Rightarrow> store \<Rightarrow> store option" where
  "insert_activation_code a s =
     (if (\<exists>x \<in> set (activation_codes s). ac_id x = ac_id a \<or> ac_code x = ac_code a
            \<or> (ac_device_id x = ac_device_id a \<and> ac_term_number x = ac_term_number a))
         \<or> \<not> (\<exists>d \<in> set (devices s). dev_id d = ac_device_id a)
      then None
      else Some (s\<lparr>activation_codes := activation_codes s @ [a]\<rparr>))"

definition insert_lock_date :: "LockDate \<Rightarrow> store \<Rightarrow> store option" where
  "insert_lock_date l s =
     (if (\<exists>x \<in> set (lock_dates s). ld_id x = ld_id l)
         \<or> \<not> (\<exists>d \<in> set (devices s). dev_id d = ld_device_id l)
      then None
      else Some (s\<lparr>lock_dates := lock_dates s @ [l]\<rparr>))"

definition insert_remote_lock :: "RemoteLock \<Rightarrow> store \<Rightarrow> store option" where
  "insert_remote_lock r s =
     (if (\<exists>x \<in> set (remote_locks s). rl_id x = rl_id r \<or> rl_device_id x = rl_device_id r)
         \<or> \<not> (\<exists>d \<in> set (devices s). dev_id d = rl_device_id r)
      then None
      else Some (s\<lparr>remote_locks := remote_locks s @ [r]\<rparr>))"

text \<open>\<^verbatim>\<open>SELECT ... FROM devices WHERE serial_number = $1\<close>, read by \<^verbatim>\<open>QueryRow\<close>: the first row.\<close>

definition select_device :: "store \<Rightarrow> string \<Rightarrow> Device option" where
  "select_device s serialNumber = find (\<lambda>d. dev_serial_number d = serialNumber) (devices s)"

text \<open>\<^verbatim>\<open>SELECT ac.id, ac.device_id, ac.term_number FROM activation_codes ac WHERE ac.code = $1 AND
  ac.is_used = false\<close>\<close>

definition select_activation_code :: "store \<Rightarrow> string \<Rightarrow> ActivationCode option" where
  "select_activation_code s code =
     find (\<lambda>a. ac_code a = code \<and> \<not> ac_is_used a) (activation_codes s)"

text \<open>\<^verbatim>\<open>SELECT is_locked FROM remote_locks WHERE device_id = $1\<close>\<close>

definition select_remote_lock :: "store \<Rightarrow> string \<Rightarrow> bool option" where
  "select_remote_lock s deviceID =
     map_option rl_is_locked (find (\<lambda>r. rl_device_id r = deviceID) (remote_locks s))"

text \<open>\<^verbatim>\<open>UPDATE activation_codes SET is_used = true, used_at = $1 WHERE id = $2\<close>\<close>

definition update_activation_code_used :: "timestamp \<Rightarrow> string \<Rightarrow> store \<Rightarrow> store option" where
  "update_activation_code_used now activationCodeID s =
     Some (s\<lparr>activation_codes :=
       map (\<lambda>a. if ac_id a = activationCodeID then a\<lparr>ac_is_used := True, ac_used_at := Some now\<rparr> else a)
         (activation_codes s)\<rparr>)"

text \<open>\<^verbatim>\<open>UPDATE devices SET is_active = true WHERE id = $1\<close>\<close>

definition update_device_active :: "string \<Rightarrow> store \<Rightarrow> store option" where
  "update_device_active deviceID s =
     Some (s\<lparr>devices :=
       map (\<lambda>d. if dev_id d = deviceID then d\<lparr>dev_is_active := True\<rparr> else d) (devices s)\<rparr>)"

text \<open>\<^verbatim>\<open>UPDATE remote_locks SET is_locked = $1, updated_at = $2 WHERE device_id = $3\<close>\<close>

definition update_remote_lock :: "bool \<Rightarrow> timestamp \<Rightarrow> string \<Rightarrow> store \<Rightarrow> store option" where
  "update_remote_lock isLocked now deviceID s =
     Some (s\<lparr>remote_locks :=
       map (\<lambda>r. if rl_device_id r = deviceID then r\<lparr>rl_is_locked := isLocked, rl_updated_at := now\<rparr> else r)
         (remote_locks s)\<rparr>)"

text \<open>\<^verbatim>\<open>UPDATE devices SET is_locked = $1 WHERE id = $2\<close>\<close>

definition update_device_locked :: "bool \<Rightarrow> string \<Rightarrow> store \<Rightarrow> store option" where
  "update_device_locked isLocked deviceID s =
     Some (s\<lparr>devices :=
       map (\<lambda>d. if dev_id d = deviceID then d\<lparr>dev_is_locked := isLocked\<rparr> else d) (devices s)\<rparr>)"

text \<open>\<^verbatim>\<open>UPDATE devices SET is_locked = false, is_active = false WHERE id = $1\<close>\<close>

definition update_device_unlock :: "string \<Rightarrow> store \<Rightarrow> store option" where
  "update_device_unlock deviceID s =
     Some (s\<lparr>devices :=
       map (\<lambda>d. if dev_id d = deviceID then d\<lparr>dev_is_locked := False, dev_is_active := False\<rparr> else d)
         (devices s)\<rparr>)"

text \<open>The listings. \<^verbatim>\<open>ORDER BY\<close> is a sort on the column; the order of rows with equal keys is
  the store's choice (here the insertion order), which no listing shows: the lock dates are listed
  alone, and a device has at most one code for a term number.\<close>

text \<open>\<^verbatim>\<open>SELECT term_number FROM activation_codes WHERE device_id = $1 ORDER BY term_number\<close>\<close>

definition query_term_numbers :: "store \<Rightarrow> string \<Rightarrow> int list" where
  "query_term_numbers s deviceID =
     sort (map ac_term_number (filter (\<lambda>a. ac_device_id a = deviceID) (activation_codes s)))"

text \<open>\<^verbatim>\<open>SELECT term_number, code FROM activation_codes WHERE device_id = $1 ORDER BY term_number\<close>\<close>

definition query_codes :: "store \<Rightarrow> string \<Rightarrow> (int \<times> string) list" where
  "query_codes s deviceID =
     sort_key fst (map (\<lambda>a. (ac_term_number a, ac_code a))
       (filter (\<lambda>a. ac_device_id a = deviceID) (activation_codes s)))"

text \<open>\<^verbatim>\<open>SELECT lock_date FROM lock_dates WHERE device_id = $1 ORDER BY lock_date\<close>\<close>

definition query_lock_dates :: "store \<Rightarrow> string \<Rightarrow> Time list" where
  "query_lock_dates s deviceID =
     sort (map ld_lock_date (filter (\<lambda>l. ld_device_id l = deviceID) (lock_dates s)))"

section \<open>Requests, responses and the log\<close>

record RegisterDeviceRequest =
  SerialNumber :: string
  CustomerName :: string
  PhoneNumber :: string
  EMITerm :: int
  EMIStartDate :: string
  TermDuration :: int

record ActivateRequest =
  ar_ActivationCode :: string

record RemoteLockRequest =
  rlr_SerialNumber :: string
  rlr_IsLocked :: bool

record UnlockRequest =
  ur_SerialNumber :: string

record TermWithLockDate =
  tl_Term :: int
  tl_LockDate :: string

record TermWithLockDateAndCode =
  Term :: int
  LockDate :: string
  ActivationCode :: string

text \<open>
  What a handler writes to the client: \<^verbatim>\<open>http.Error(w, message, status)\<close>, or the JSON body of a
  success with its fields in the order of the source. \<open>ActivationResponse_main\<close> is the
  \<^verbatim>\<open>ActivationResponse\<close> of \<^verbatim>\<open>main.go\<close>, whose terms carry no code; \<open>ActivationResponse\<close> is the one
  of package \<^verbatim>\<open>handler\<close>. \<open>Panic\<close> is a run-time panic of the handler (an index out of range).
\<close>

datatype response =
    HttpError nat string
  | RegisterResponse bool string string "TermWithLockDateAndCode list"
  | ActivationResponse_main bool string "TermWithLockDate list"
  | ActivationResponse bool string "TermWithLockDateAndCode list"
  | RemoteLockResponse bool string bool
  | CheckLockResponse bool
  | UnlockResponse bool string
  | HealthResponse string
  | Panic

text \<open>The lines of \<^verbatim>\<open>log.Printf\<close>: the ones that report an error of the store, and the others.\<close>

datatype log_line = LogError string | LogInfo string

type_synonym result = "response \<times> log_line list \<times> store"

definition StatusBadRequest :: nat where "StatusBadRequest = 400"

definition StatusForbidden :: nat where "StatusForbidden = 403"

definition StatusNotFound :: nat where "StatusNotFound = 404"

definition StatusMethodNotAllowed :: nat where "StatusMethodNotAllowed = 405"

definition StatusConflict :: nat where "StatusConflict = 409"

definition StatusInternalServerError :: nat where "StatusInternalServerError = 500"

definition MethodGet :: string where "MethodGet = ''GET''"

definition MethodPost :: string where "MethodPost = ''POST''"

section \<open>Registration\<close>

definition generateActivationCode :: "env \<Rightarrow> uuid_call \<Rightarrow> string" where
  "generateActivationCode e c = take 8 (uuid_New e c)"

text \<open>
  The loop of \<^verbatim>\<open>registerDevice\<close>, \<open>i\<close> from 1 while \<open>i \<le> req.EMITerm\<close>. There is no transaction:
  a round that fails returns the error with the store as the rounds before left it.
\<close>

function registerDevice_loop ::
  "env \<Rightarrow> string \<Rightarrow> int \<Rightarrow> Time list \<Rightarrow> int \<Rightarrow> TermWithLockDateAndCode list \<Rightarrow> store
     \<Rightarrow> result + TermWithLockDateAndCode list \<times> store" where
  "registerDevice_loop e deviceID emiTerm lockDates i termsWithDates s =
     (if i \<le> emiTerm then
        (let code = generateActivationCode e (CodeValue i) in
         (case db_Exec e (InsertActivationCode i)
                (insert_activation_code
                   \<lparr>ac_id = uuid_New e (CodeRowID i), ac_device_id = deviceID, ac_code = code,
                    ac_term_number = i, ac_is_used = False, ac_used_at = None,
                    ac_created_at = time_Now e\<rparr>) s of
           None \<Rightarrow>
             Inl (HttpError StatusInternalServerError ''Failed to generate activation codes'',
                  [LogError ''Error inserting activation code''], s)
         | Some s1 \<Rightarrow>
             (if i - 1 < 0 \<or> int (length lockDates) \<le> i - 1 then Inl (Panic, [], s1)
              else
                (let lockDate = lockDates ! nat (i - 1) in
                 (case db_Exec e (InsertLockDate i)
                        (insert_lock_date
                           \<lparr>ld_id = uuid_New e (LockDateRowID i), ld_device_id = deviceID,
                            ld_lock_date = lockDate, ld_is_locked = False,
                            ld_created_at = time_Now e\<rparr>) s1 of
                   None \<Rightarrow>
                     Inl (HttpError StatusInternalServerError ''Failed to generate lock dates'',
                          [LogError ''Error inserting lock date''], s1)
                 | Some s2 \<Rightarrow>
                     registerDevice_loop e deviceID emiTerm lockDates (i + 1)
                       (termsWithDates @
                          [\<lparr>Term = i, LockDate = Format lockDate, ActivationCode = code\<rparr>]) s2)))))
      else Inr (termsWithDates, s))"
  by pat_completeness auto
termination
  by (relation "measure (\<lambda>(e, deviceID, emiTerm, lockDates, i, termsWithDates, s). nat (emiTerm + 1 - i))")
     auto

text \<open>\<^verbatim>\<open>registerDevice\<close>, the same in \<^verbatim>\<open>main.go\<close> and in package \<^verbatim>\<open>handler\<close>. The body is the
  decoded JSON, \<open>None\<close> when the decoder fails. A failing existence check is read as "no such
  device" (\<^verbatim>\<open>err == nil\<close> is the only test); a failing insert of the remote lock is logged and the
  answer is still the success.\<close>

definition registerDevice ::
  "env \<Rightarrow> string \<Rightarrow> RegisterDeviceRequest option \<Rightarrow> store \<Rightarrow> result" where
  "registerDevice e method body s =
     (if method \<noteq> MethodPost then (HttpError StatusMethodNotAllowed ''Method not allowed'', [], s)
      else (case body of
        None \<Rightarrow> (HttpError StatusBadRequest ''Invalid request body'', [], s)
      | Some req \<Rightarrow>
        (if TermDuration req \<noteq> 7 \<and> TermDuration req \<noteq> 15 \<and> TermDuration req \<noteq> 30
         then (HttpError StatusBadRequest ''Term duration must be 7, 15, or 30 days'', [], s)
         else (case Parse (EMIStartDate req) of
           None \<Rightarrow> (HttpError StatusBadRequest ''Invalid date format. Use YYYY-MM-DD'', [], s)
         | Some emiStartDate \<Rightarrow>
           (case db_QueryRow e SelectDevice (select_device s (SerialNumber req)) of
             Some existing \<Rightarrow>
               (HttpError StatusConflict ''Device with this serial number already exists'', [], s)
           | None \<Rightarrow>
             (let deviceID = uuid_New e DeviceID in
              (case db_Exec e InsertDevice
                     (insert_device
                        \<lparr>dev_id = deviceID, dev_serial_number = SerialNumber req,
                         dev_customer_name = CustomerName req, dev_phone_number = PhoneNumber req,
                         dev_emi_term = EMITerm req, dev_emi_start_date = emiStartDate,
                         dev_term_duration = TermDuration req, dev_is_active = False,
                         dev_is_locked = False, dev_created_at = time_Now e\<rparr>) s of
                None \<Rightarrow>
                  (HttpError StatusInternalServerError ''Failed to register device'',
                   [LogError ''Error inserting device''], s)
              | Some s1 \<Rightarrow>
                (let lockDates = calculateLockDates emiStartDate (TermDuration req) (EMITerm req) in
                 (case registerDevice_loop e deviceID (EMITerm req) lockDates 1 [] s1 of
                   Inl failed \<Rightarrow> failed
                 | Inr (termsWithDates, s2) \<Rightarrow>
                   (case db_Exec e InsertRemoteLock
                           (insert_remote_lock
                              \<lparr>rl_id = uuid_New e RemoteLockRowID, rl_device_id = deviceID,
                               rl_is_locked = False, rl_created_at = time_Now e,
                               rl_updated_at = time_Now e\<rparr>) s2 of
                      None \<Rightarrow>
                        (RegisterResponse True ''Device registered successfully'' deviceID
                           termsWithDates,
                         [LogError ''Error inserting remote lock''], s2)
                    | Some s3 \<Rightarrow>
                        (RegisterResponse True ''Device registered successfully'' deviceID
                           termsWithDates,
                         [], s3)))))))))))"

section \<open>Terms of a device\<close>

subsection \<open>main.go: terms paired with lock dates\<close>

text \<open>The loop over \<^verbatim>\<open>termRows\<close>: a term takes the lock date at \<open>termIndex\<close> while there is one.\<close>

fun termRows_loop ::
  "int list \<Rightarrow> Time list \<Rightarrow> nat \<Rightarrow> TermWithLockDate list \<Rightarrow> TermWithLockDate list" where
  "termRows_loop [] lockDates termIndex termsWithDates = termsWithDates"
| "termRows_loop (termNumber # termRows) lockDates termIndex termsWithDates =
     (if termIndex < length lockDates then
        termRows_loop termRows lockDates (termIndex + 1)
          (termsWithDates @ [\<lparr>tl_Term = termNumber, tl_LockDate = Format (lockDates ! termIndex)\<rparr>])
      else termRows_loop termRows lockDates termIndex termsWithDates)"

text \<open>A listing that fails leaves the terms empty; the handler goes on to its success.\<close>

definition deviceTerms_main :: "env \<Rightarrow> store \<Rightarrow> string \<Rightarrow> TermWithLockDate list" where
  "deviceTerms_main e s deviceID =
     (case db_Query e QueryActivationCodes (query_term_numbers s deviceID) of
        None \<Rightarrow> []
      | Some termRows \<Rightarrow>
        (case db_Query e QueryLockDates (query_lock_dates s deviceID) of
           None \<Rightarrow> []
         | Some lockDates \<Rightarrow> termRows_loop termRows lockDates 0 []))"

subsection \<open>Package handler: terms with lock dates and codes\<close>

text \<open>\<^verbatim>\<open>for termNum := range codesByTerm\<close>: the keys of the map in an order of the runtime's choice.
  Each key is put into the keys after it at a place taken from \<open>map_order\<close>, which reaches every
  order.\<close>

fun range_keys :: "nat list \<Rightarrow> 'a list \<Rightarrow> 'a list" where
  "range_keys ps [] = []"
| "range_keys ps (k # ks) =
     (let rest = range_keys (tl ps) ks;
          p = (case ps of [] \<Rightarrow> 0 | p # _ \<Rightarrow> p mod (length rest + 1))
      in take p rest @ k # drop p rest)"

text \<open>
  The sort of the term numbers, two loops that swap in place:
  \<^verbatim>\<open>for i := 0; i < len(termNumbers)-1; i++ { for j := i + 1; j < len(termNumbers); j++ {
  if termNumbers[i] > termNumbers[j] { swap } } }\<close>. The length \<open>n\<close> of the slice is read once here;
  a swap does not change it.
\<close>

function sort_inner :: "nat \<Rightarrow> int list \<Rightarrow> nat \<Rightarrow> nat \<Rightarrow> int list" where
  "sort_inner n termNumbers i j =
     (if j < n then
        (if termNumbers ! i > termNumbers ! j
         then sort_inner n (termNumbers[i := termNumbers ! j, j := termNumbers ! i]) i (j + 1)
         else sort_inner n termNumbers i (j + 1))
      else termNumbers)"
  by pat_completeness auto
termination
  by (relation "measure (\<lambda>(n, termNumbers, i, j). n - j)") auto

function sort_outer :: "nat \<Rightarrow> int list \<Rightarrow> nat \<Rightarrow> int list" where
  "sort_outer n termNumbers i =
     (if int i < int n - 1 then sort_outer n (sort_inner n termNumbers i (i + 1)) (i + 1)
      else termNumbers)"
  by pat_completeness auto
termination
  by (relation "measure (\<lambda>(n, termNumbers, i). n - i)") auto

definition sort_termNumbers :: "int list \<Rightarrow> int list" where
  "sort_termNumbers termNumbers = sort_outer (length termNumbers) termNumbers 0"

text \<open>The loop over \<^verbatim>\<open>lockRows\<close>: a lock date takes the term number at \<open>termIndex\<close> while there
  is one, and the code the map holds for it (the empty string for a key the map lacks).\<close>

fun lockRows_loop ::
  "(int \<times> string) list \<Rightarrow> int list \<Rightarrow> Time list \<Rightarrow> nat \<Rightarrow> TermWithLockDateAndCode list
     \<Rightarrow> TermWithLockDateAndCode list" where
  "lockRows_loop codesByTerm termNumbers [] termIndex termsWithDates = termsWithDates"
| "lockRows_loop codesByTerm termNumbers (lockDate # lockRows) termIndex termsWithDates =
     (if termIndex < length termNumbers then
        (let termNumber = termNumbers ! termIndex;
             code = (case map_of codesByTerm termNumber of None \<Rightarrow> [] | Some c \<Rightarrow> c)
         in lockRows_loop codesByTerm termNumbers lockRows (termIndex + 1)
              (termsWithDates @
                 [\<lparr>Term = termNumber, LockDate = Format lockDate, ActivationCode = code\<rparr>]))
      else lockRows_loop codesByTerm termNumbers lockRows termIndex termsWithDates)"

definition deviceTerms :: "env \<Rightarrow> store \<Rightarrow> string \<Rightarrow> TermWithLockDateAndCode list" where
  "deviceTerms e s deviceID =
     (case db_Query e QueryActivationCodes (query_codes s deviceID) of
        None \<Rightarrow> []
      | Some codeRows \<Rightarrow>
        (case db_Query e QueryLockDates (query_lock_dates s deviceID) of
           None \<Rightarrow> []
         | Some lockRows \<Rightarrow>
           (let codesByTerm = fold (\<lambda>(termNumber, code) m. AList.update termNumber code m) codeRows [];
                termNumbers = sort_termNumbers (range_keys (map_order e) (map fst codesByTerm))
            in lockRows_loop codesByTerm termNumbers lockRows 0 [])))"

section \<open>Activation by code\<close>

text \<open>\<^verbatim>\<open>activateDevice\<close> of \<^verbatim>\<open>main.go\<close>. A failing update of the device is logged and the answer
  is still the success.\<close>

definition activateDevice_main ::
  "env \<Rightarrow> string \<Rightarrow> ActivateRequest option \<Rightarrow> store \<Rightarrow> result" where
  "activateDevice_main e method body s =
     (if method \<noteq> MethodPost then (HttpError StatusMethodNotAllowed ''Method not allowed'', [], s)
      else (case body of
        None \<Rightarrow> (HttpError StatusBadRequest ''Invalid request body'', [], s)
      | Some req \<Rightarrow>
        (case db_QueryRow e SelectActivationCode (select_activation_code s (ar_ActivationCode req)) of
          None \<Rightarrow> (HttpError StatusBadRequest ''Invalid or already used activation code'', [], s)
        | Some row \<Rightarrow>
          (let activationCodeID = ac_id row; deviceID = ac_device_id row in
           (case db_Exec e UpdateActivationCode
                   (update_activation_code_used (time_Now e) activationCodeID) s of
              None \<Rightarrow>
                (HttpError StatusInternalServerError ''Failed to activate device'',
                 [LogError ''Error updating activation code''], s)
            | Some s1 \<Rightarrow>
              (case db_Exec e UpdateDeviceActive (update_device_active deviceID) s1 of
                 None \<Rightarrow>
                   (ActivationResponse_main True ''Device activated successfully''
                      (deviceTerms_main e s1 deviceID),
                    [LogError ''Error activating device''], s1)
               | Some s2 \<Rightarrow>
                   (ActivationResponse_main True ''Device activated successfully''
                      (deviceTerms_main e s2 deviceID),
                    [], s2)))))))"

text \<open>\<^verbatim>\<open>activateDevice\<close> of package \<^verbatim>\<open>handler\<close>: the same statements, the terms with their codes.\<close>

definition activateDevice ::
  "env \<Rightarrow> string \<Rightarrow> ActivateRequest option \<Rightarrow> store \<Rightarrow> result" where
  "activateDevice e method body s =
     (if method \<noteq> MethodPost then (HttpError StatusMethodNotAllowed ''Method not allowed'', [], s)
      else (case body of
        None \<Rightarrow> (HttpError StatusBadRequest ''Invalid request body'', [], s)
      | Some req \<Rightarrow>
        (case db_QueryRow e SelectActivationCode (select_activation_code s (ar_ActivationCode req)) of
          None \<Rightarrow> (HttpError StatusBadRequest ''Invalid or already used activation code'', [], s)
        | Some row \<Rightarrow>
          (let activationCodeID = ac_id row; deviceID = ac_device_id row in
           (case db_Exec e UpdateActivationCode
                   (update_activation_code_used (time_Now e) activationCodeID) s of
              None \<Rightarrow>
                (HttpError StatusInternalServerError ''Failed to activate device'',
                 [LogError ''Error updating activation code''], s)
            | Some s1 \<Rightarrow>
              (case db_Exec e UpdateDeviceActive (update_device_active deviceID) s1 of
                 None \<Rightarrow>
                   (ActivationResponse True ''Device activated successfully''
                      (deviceTerms e s1 deviceID),
                    [LogError ''Error activating device''], s1)
               | Some s2 \<Rightarrow>
                   (ActivationResponse True ''Device activated successfully''
                      (deviceTerms e s2 deviceID),
                    [], s2)))))))"

section \<open>Check\<close>

text \<open>\<^verbatim>\<open>checkActivation\<close> of \<^verbatim>\<open>main.go\<close>: a device that is not active is refused.\<close>

definition checkActivation_main :: "env \<Rightarrow> string \<Rightarrow> string \<Rightarrow> store \<Rightarrow> result" where
  "checkActivation_main e method serialNumber s =
     (if method \<noteq> MethodGet then (HttpError StatusMethodNotAllowed ''Method not allowed'', [], s)
      else if serialNumber = [] then
        (HttpError StatusBadRequest ''serial_number parameter is required'', [], s)
      else (case db_QueryRow e SelectDevice (select_device s serialNumber) of
        None \<Rightarrow> (HttpError StatusNotFound ''Device not found'', [], s)
      | Some row \<Rightarrow>
        (let deviceID = dev_id row; isActive = dev_is_active row in
         if \<not> isActive then (HttpError StatusForbidden ''Device is not activated'', [], s)
         else (ActivationResponse_main True ''Device is active'' (deviceTerms_main e s deviceID),
               [], s))))"

text \<open>\<^verbatim>\<open>checkActivation\<close> of package \<^verbatim>\<open>handler\<close>: a device that is not active is activated.\<close>

definition checkActivation :: "env \<Rightarrow> string \<Rightarrow> string \<Rightarrow> store \<Rightarrow> result" where
  "checkActivation e method serialNumber s =
     (if method \<noteq> MethodGet then (HttpError StatusMethodNotAllowed ''Method not allowed'', [], s)
      else if serialNumber = [] then
        (HttpError StatusBadRequest ''serial_number parameter is required'', [], s)
      else (case db_QueryRow e SelectDevice (select_device s serialNumber) of
        None \<Rightarrow> (HttpError StatusNotFound ''Device not found'', [], s)
      | Some row \<Rightarrow>
        (let deviceID = dev_id row; isActive = dev_is_active row in
         if \<not> isActive then
           (case db_Exec e UpdateDeviceActive (update_device_active deviceID) s of
              None \<Rightarrow>
                (HttpError StatusInternalServerError ''Failed to activate device'',
                 [LogError ''Error activating device''], s)
            | Some s1 \<Rightarrow>
                (ActivationResponse True ''Device activated successfully''
                   (deviceTerms e s1 deviceID),
                 [LogInfo (''Device '' @ serialNumber @ '' activated via /api/check'')], s1))
         else (ActivationResponse True ''Device activated successfully'' (deviceTerms e s deviceID),
               [], s))))"

section \<open>Remote lock and unlock\<close>

definition setRemoteLock ::
  "env \<Rightarrow> string \<Rightarrow> RemoteLockRequest option \<Rightarrow> store \<Rightarrow> result" where
  "setRemoteLock e method body s =
     (if method \<noteq> MethodPost then (HttpError StatusMethodNotAllowed ''Method not allowed'', [], s)
      else (case body of
        None \<Rightarrow> (HttpError StatusBadRequest ''Invalid request body'', [], s)
      | Some req \<Rightarrow>
        (case db_QueryRow e SelectDevice (select_device s (rlr_SerialNumber req)) of
          None \<Rightarrow> (HttpError StatusNotFound ''Device not found'', [], s)
        | Some row \<Rightarrow>
          (let deviceID = dev_id row in
           (case db_Exec e UpdateRemoteLock
                   (update_remote_lock (rlr_IsLocked req) (time_Now e) deviceID) s of
              None \<Rightarrow>
                (HttpError StatusInternalServerError ''Failed to update remote lock'',
                 [LogError ''Error updating remote lock''], s)
            | Some s1 \<Rightarrow>
              (let message = ''Remote lock set to '' @ (if rlr_IsLocked req then ''true'' else ''false'')
               in (case db_Exec e UpdateDeviceLocked
                          (update_device_locked (rlr_IsLocked req) deviceID) s1 of
                     None \<Rightarrow>
                       (RemoteLockResponse True message (rlr_IsLocked req),
                        [LogError ''Error updating device lock''], s1)
                   | Some s2 \<Rightarrow> (RemoteLockResponse True message (rlr_IsLocked req), [], s2))))))))"

definition checkRemoteLock :: "env \<Rightarrow> string \<Rightarrow> string \<Rightarrow> store \<Rightarrow> result" where
  "checkRemoteLock e method serialNumber s =
     (if method \<noteq> MethodGet then (HttpError StatusMethodNotAllowed ''Method not allowed'', [], s)
      else if serialNumber = [] then
        (HttpError StatusBadRequest ''serial_number parameter is required'', [], s)
      else (case db_QueryRow e SelectDevice (select_device s serialNumber) of
        None \<Rightarrow> (HttpError StatusNotFound ''Device not found'', [], s)
      | Some row \<Rightarrow>
        (case db_QueryRow e SelectRemoteLock (select_remote_lock s (dev_id row)) of
           None \<Rightarrow> (HttpError StatusNotFound ''Remote lock not found'', [], s)
         | Some isLocked \<Rightarrow> (CheckLockResponse isLocked, [], s))))"

definition unlockDevice ::
  "env \<Rightarrow> string \<Rightarrow> UnlockRequest option \<Rightarrow> store \<Rightarrow> result" where
  "unlockDevice e method body s =
     (if method \<noteq> MethodPost then (HttpError StatusMethodNotAllowed ''Method not allowed'', [], s)
      else (case body of
        None \<Rightarrow> (HttpError StatusBadRequest ''Invalid request body'', [], s)
      | Some req \<Rightarrow>
        (case db_QueryRow e SelectDevice (select_device s (ur_SerialNumber req)) of
          None \<Rightarrow> (HttpError StatusNotFound ''Device not found'', [], s)
        | Some row \<Rightarrow>
          (let deviceID = dev_id row in
           (case db_Exec e UpdateDeviceUnlock (update_device_unlock deviceID) s of
              None \<Rightarrow>
                (HttpError StatusInternalServerError ''Failed to unlock device'',
                 [LogError ''Error unlocking device''], s)
            | Some s1 \<Rightarrow>
              (case db_Exec e UpdateRemoteLock (update_remote_lock False (time_Now e) deviceID) s1 of
                 None \<Rightarrow>
                   (UnlockResponse True ''Device unlocked successfully'',
                    [LogError ''Error updating remote lock''], s1)
               | Some s2 \<Rightarrow> (UnlockResponse True ''Device unlocked successfully'', [], s2)))))))"

definition healthCheck :: "store \<Rightarrow> result" where
  "healthCheck s = (HealthResponse ''ok'', [], s)"

section \<open>The two servers\<close>

text \<open>
  The routes are the same in \<^verbatim>\<open>main.go\<close> (the standalone server) and in package \<^verbatim>\<open>handler\<close>
  (the serverless entry point); the router passes a request on only with the method of its route.
  The two differ in \<^verbatim>\<open>activateDevice\<close> and \<^verbatim>\<open>checkActivation\<close>.
\<close>

datatype request =
    Register "RegisterDeviceRequest option"
  | Activate "ActivateRequest option"
  | Check string
  | SetLock "RemoteLockRequest option"
  | CheckLock string
  | Unlock "UnlockRequest option"
  | Health

datatype server = MainServer | HandlerServer

fun serve :: "server \<Rightarrow> env \<Rightarrow> request \<Rightarrow> store \<Rightarrow> result" where
  "serve v e (Register body) s = registerDevice e MethodPost body s"
| "serve MainServer e (Activate body) s = activateDevice_main e MethodPost body s"
| "serve HandlerServer e (Activate body) s = activateDevice e MethodPost body s"
| "serve MainServer e (Check serialNumber) s = checkActivation_main e MethodGet serialNumber s"
| "serve HandlerServer e (Check serialNumber) s = checkActivation e MethodGet serialNumber s"
| "serve v e (SetLock body) s = setRemoteLock e MethodPost body s"
| "serve v e (CheckLock serialNumber) s = checkRemoteLock e MethodGet serialNumber s"
| "serve v e (Unlock body) s = unlockDevice e MethodPost body s"
| "serve v e Health s = healthCheck s"

text \<open>A run: the requests one after the other, each with what it takes from outside.\<close>

fun run :: "server \<Rightarrow> (env \<times> request) list \<Rightarrow> store \<Rightarrow> store" where
  "run v [] s = s"
| "run v ((e, r) # rest) s = run v rest (snd (snd (serve v e r s)))"

section \<open>Vocabulary of the properties\<close>

definition response_of :: "result \<Rightarrow> response" where
  "response_of r = fst r"

definition log_of :: "result \<Rightarrow> log_line list" where
  "log_of r = fst (snd r)"

definition store_of :: "result \<Rightarrow> store" where
  "store_of r = snd (snd r)"

text \<open>A response reports success when it is a JSON body and not an \<^verbatim>\<open>http.Error\<close>; the bodies
  with a \<^verbatim>\<open>success\<close> field carry it.\<close>

fun succeeded :: "response \<Rightarrow> bool" where
  "succeeded (HttpError status message) = False"
| "succeeded (RegisterResponse success message deviceID terms) = success"
| "succeeded (ActivationResponse_main success message terms) = success"
| "succeeded (ActivationResponse success message terms) = success"
| "succeeded (RemoteLockResponse success message isLocked) = success"
| "succeeded (CheckLockResponse isLocked) = True"
| "succeeded (UnlockResponse success message) = success"
| "succeeded (HealthResponse status) = True"
| "succeeded Panic = False"

fun is_error_line :: "log_line \<Rightarrow> bool" where
  "is_error_line (LogError message) = True"
| "is_error_line (LogInfo message) = False"

fun terms_of :: "response \<Rightarrow> TermWithLockDateAndCode list" where
  "terms_of (RegisterResponse success message deviceID terms) = terms"
| "terms_of (ActivationResponse success message terms) = terms"
| "terms_of other = []"

fun terms_main_of :: "response \<Rightarrow> TermWithLockDate list" where
  "terms_main_of (ActivationResponse_main success message terms) = terms"
| "terms_main_of other = []"

text \<open>The keys of \<^verbatim>\<open>schema.sql\<close>: primary keys, \<^verbatim>\<open>UNIQUE\<close> columns and foreign keys.\<close>

definition wf_store :: "store \<Rightarrow> bool" where
  "wf_store s =
     (distinct (map dev_id (devices s)) \<and>
      distinct (map dev_serial_number (devices s)) \<and>
      distinct (map ac_id (activation_codes s)) \<and>
      distinct (map ac_code (activation_codes s)) \<and>
      distinct (map (\<lambda>a. (ac_device_id a, ac_term_number a)) (activation_codes s)) \<and>
      distinct (map ld_id (lock_dates s)) \<and>
      distinct (map rl_id (remote_locks s)) \<and>
      distinct (map rl_device_id (remote_locks s)) \<and>
      (\<forall>a \<in> set (activation_codes s). \<exists>d \<in> set (devices s). dev_id d = ac_device_id a) \<and>
      (\<forall>l \<in> set (lock_dates s). \<exists>d \<in> set (devices s). dev_id d = ld_device_id l) \<and>
      (\<forall>r \<in> set (remote_locks s). \<exists>d \<in> set (devices s). dev_id d = rl_device_id r))"

text \<open>The rows of one device.\<close>

definition codes_of :: "store \<Rightarrow> string \<Rightarrow> ActivationCode list" where
  "codes_of s deviceID = filter (\<lambda>a. ac_device_id a = deviceID) (activation_codes s)"

definition lock_dates_of :: "store \<Rightarrow> string \<Rightarrow> LockDate list" where
  "lock_dates_of s deviceID = filter (\<lambda>l. ld_device_id l = deviceID) (lock_dates s)"

definition remote_locks_of :: "store \<Rightarrow> string \<Rightarrow> RemoteLock list" where
  "remote_locks_of s deviceID = filter (\<lambda>r. rl_device_id r = deviceID) (remote_locks s)"

definition devices_with_id :: "store \<Rightarrow> string \<Rightarrow> Device list" where
  "devices_with_id s deviceID = filter (\<lambda>d. dev_id d = deviceID) (devices s)"

text \<open>Every device has one remote lock row, and the row's flag is the device's.\<close>

definition in_sync :: "store \<Rightarrow> bool" where
  "in_sync s =
     (\<forall>d \<in> set (devices s). map rl_is_locked (remote_locks_of s (dev_id d)) = [dev_is_locked d])"

text \<open>The rows and the response entry that round \<open>k\<close> of the registration loop writes.\<close>

definition code_row :: "env \<Rightarrow> string \<Rightarrow> int \<Rightarrow> ActivationCode" where
  "code_row e deviceID k =
     \<lparr>ac_id = uuid_New e (CodeRowID k), ac_device_id = deviceID,
      ac_code = generateActivationCode e (CodeValue k), ac_term_number = k, ac_is_used = False,
      ac_used_at = None, ac_created_at = time_Now e\<rparr>"

definition lock_row :: "env \<Rightarrow> string \<Rightarrow> Time list \<Rightarrow> int \<Rightarrow> LockDate" where
  "lock_row e deviceID lockDates k =
     \<lparr>ld_id = uuid_New e (LockDateRowID k), ld_device_id = deviceID,
      ld_lock_date = lockDates ! nat (k - 1), ld_is_locked = False, ld_created_at = time_Now e\<rparr>"

definition term_entry :: "env \<Rightarrow> Time list \<Rightarrow> int \<Rightarrow> TermWithLockDateAndCode" where
  "term_entry e lockDates k =
     \<lparr>Term = k, LockDate = Format (lockDates ! nat (k - 1)),
      ActivationCode = generateActivationCode e (CodeValue k)\<rparr>"

definition device_row :: "env \<Rightarrow> RegisterDeviceRequest \<Rightarrow> Time \<Rightarrow> Device" where
  "device_row e req emiStartDate =
     \<lparr>dev_id = uuid_New e DeviceID, dev_serial_number = SerialNumber req,
      dev_customer_name = CustomerName req, dev_phone_number = PhoneNumber req,
      dev_emi_term = EMITerm req, dev_emi_start_date = emiStartDate,
      dev_term_duration = TermDuration req, dev_is_active = False,
      dev_is_locked = False, dev_created_at = time_Now e\<rparr>"

definition remote_lock_row :: "env \<Rightarrow> RemoteLock" where
  "remote_lock_row e =
     \<lparr>rl_id = uuid_New e RemoteLockRowID, rl_device_id = uuid_New e DeviceID,
      rl_is_locked = False, rl_created_at = time_Now e, rl_updated_at = time_Now e\<rparr>"

text \<open>The store after the device insert and all rounds of the registration loop.\<close>

definition registered_store :: "env \<Rightarrow> RegisterDeviceRequest \<Rightarrow> Time \<Rightarrow> store \<Rightarrow> store" where
  "registered_store e req start s =
     s\<lparr>devices := devices s @ [device_row e req start],
       activation_codes := activation_codes s @
          map (code_row e (uuid_New e DeviceID)) [1..EMITerm req],
       lock_dates := lock_dates s @
          map (lock_row e (uuid_New e DeviceID)
                 (calculateLockDates start (TermDuration req) (EMITerm req))) [1..EMITerm req]\<rparr>"

text \<open>The store after the two updates of an activation by the code of \<open>row\<close>.\<close>

definition activated_store :: "timestamp \<Rightarrow> ActivationCode \<Rightarrow> store \<Rightarrow> store" where
  "activated_store now row s =
     s\<lparr>activation_codes :=
         map (\<lambda>a. if ac_id a = ac_id row then a\<lparr>ac_is_used := True, ac_used_at := Some now\<rparr> else a)
           (activation_codes s),
       devices :=
         map (\<lambda>d. if dev_id d = ac_device_id row then d\<lparr>dev_is_active := True\<rparr> else d)
           (devices s)\<rparr>"

text \<open>The store after the two updates of \<^verbatim>\<open>setRemoteLock\<close>, and after the two of
  \<^verbatim>\<open>unlockDevice\<close>.\<close>

definition locked_store :: "bool \<Rightarrow> timestamp \<Rightarrow> string \<Rightarrow> store \<Rightarrow> store" where
  "locked_store isLocked now deviceID s =
     s\<lparr>remote_locks :=
         map (\<lambda>r. if rl_device_id r = deviceID
                  then r\<lparr>rl_is_locked := isLocked, rl_updated_at := now\<rparr> else r) (remote_locks s),
       devices :=
         map (\<lambda>d. if dev_id d = deviceID then d\<lparr>dev_is_locked := isLocked\<rparr> else d) (devices s)\<rparr>"

definition unlocked_store :: "timestamp \<Rightarrow> string \<Rightarrow> store \<Rightarrow> store" where
  "unlocked_store now deviceID s =
     s\<lparr>devices :=
         map (\<lambda>d. if dev_id d = deviceID
                  then d\<lparr>dev_is_locked := False, dev_is_active := False\<rparr> else d) (devices s),
       remote_locks :=
         map (\<lambda>r. if rl_device_id r = deviceID
                  then r\<lparr>rl_is_locked := False, rl_updated_at := now\<rparr> else r) (remote_locks s)\<rparr>"

text \<open>The environment in which statement \<open>c\<close> does not fail and all else is as in \<open>e\<close>.\<close>

definition without_error :: "env \<Rightarrow> db_call \<Rightarrow> env" where
  "without_error e c = e\<lparr>db_error := (\<lambda>x. x \<noteq> c \<and> db_error e x)\<rparr>"

text \<open>The insert of the remote lock row of a registration is taken: the store does not fail it and
  the identifier of the row is not in use.\<close>

definition remote_lock_taken :: "env \<Rightarrow> store \<Rightarrow> bool" where
  "remote_lock_taken e s =
     (\<not> db_error e InsertRemoteLock
      \<and> \<not> (\<exists>x \<in> set (remote_locks s). rl_id x = uuid_New e RemoteLockRowID))"

text \<open>The stores after the first update alone of an activation, of \<^verbatim>\<open>setRemoteLock\<close> and of
  \<^verbatim>\<open>unlockDevice\<close>.\<close>

definition code_marked_store :: "timestamp \<Rightarrow> ActivationCode \<Rightarrow> store \<Rightarrow> store" where
  "code_marked_store now row s =
     s\<lparr>activation_codes :=
         map (\<lambda>a. if ac_id a = ac_id row then a\<lparr>ac_is_used := True, ac_used_at := Some now\<rparr> else a)
           (activation_codes s)\<rparr>"

definition remote_locked_store :: "bool \<Rightarrow> timestamp \<Rightarrow> string \<Rightarrow> store \<Rightarrow> store" where
  "remote_locked_store isLocked now deviceID s =
     s\<lparr>remote_locks :=
         map (\<lambda>r. if rl_device_id r = deviceID
                  then r\<lparr>rl_is_locked := isLocked, rl_updated_at := now\<rparr> else r) (remote_locks s)\<rparr>"

definition device_unlocked_store :: "string \<Rightarrow> store \<Rightarrow> store" where
  "device_unlocked_store deviceID s =
     s\<lparr>devices :=
         map (\<lambda>d. if dev_id d = deviceID
                  then d\<lparr>dev_is_locked := False, dev_is_active := False\<rparr> else d) (devices s)\<rparr>"

text \<open>The three log lines of a failed write of a lock flag or of the remote lock row.\<close>

fun lock_error_line :: "log_line \<Rightarrow> bool" where
  "lock_error_line (LogError message) =
     (message = ''Error inserting remote lock'' \<or> message = ''Error updating device lock''
      \<or> message = ''Error updating remote lock'')"
| "lock_error_line (LogInfo message) = False"

text \<open>A request is lock-clean when it reports success and logs none of the three; a run is when
  each of its requests is.\<close>

definition lock_clean :: "result \<Rightarrow> bool" where
  "lock_clean r = (succeeded (response_of r) \<and> \<not> list_ex lock_error_line (log_of r))"

fun all_lock_clean :: "server \<Rightarrow> (env \<times> request) list \<Rightarrow> store \<Rightarrow> bool" where
  "all_lock_clean v [] s = True"
| "all_lock_clean v ((e, r) # rest) s =
     (lock_clean (serve v e r s) \<and> all_lock_clean v rest (store_of (serve v e r s)))"

text \<open>The store after an activation by the code of \<open>row\<close> that marked the code: the update of
  the device is the second statement, and its failure is not the failure of the request.\<close>

definition after_activation :: "env \<Rightarrow> ActivationCode \<Rightarrow> store \<Rightarrow> store" where
  "after_activation e row s =
     (if db_error e UpdateDeviceActive then code_marked_store (time_Now e) row s
      else activated_store (time_Now e) row s)"

text \<open>The stores after a \<^verbatim>\<open>setRemoteLock\<close> and after an \<^verbatim>\<open>unlockDevice\<close> whose first update the
  store has taken: the second update is made unless the store fails it.\<close>

definition after_set_lock :: "env \<Rightarrow> bool \<Rightarrow> string \<Rightarrow> store \<Rightarrow> store" where
  "after_set_lock e isLocked deviceID s =
     (if db_error e UpdateDeviceLocked then remote_locked_store isLocked (time_Now e) deviceID s
      else locked_store isLocked (time_Now e) deviceID s)"

definition after_unlock :: "env \<Rightarrow> string \<Rightarrow> store \<Rightarrow> store" where
  "after_unlock e deviceID s =
     (if db_error e UpdateRemoteLock then device_unlocked_store deviceID s
      else unlocked_store (time_Now e) deviceID s)"





text \<open>The activation code row with identifier \<open>i\<close> exists and is used.\<close>

definition code_used :: "store \<Rightarrow> string \<Rightarrow> bool" where
  "code_used s i =
     ((\<exists>a \<in> set (activation_codes s). ac_id a = i) \<and>
      (\<forall>a \<in> set (activation_codes s). ac_id a = i \<longrightarrow> ac_is_used a))"

text \<open>One statement that the store has taken. Every handler moves the store by a sequence of
  these and by nothing else.\<close>

inductive stmt_step :: "store \<Rightarrow> store \<Rightarrow> bool" where
  step_insert_device: "insert_device d s = Some s' \<Longrightarrow> stmt_step s s'"
| step_insert_activation_code: "insert_activation_code a s = Some s' \<Longrightarrow> stmt_step s s'"
| step_insert_lock_date: "insert_lock_date l s = Some s' \<Longrightarrow> stmt_step s s'"
| step_insert_remote_lock: "insert_remote_lock r s = Some s' \<Longrightarrow> stmt_step s s'"
| step_update_activation_code_used:
    "update_activation_code_used now activationCodeID s = Some s' \<Longrightarrow> stmt_step s s'"
| step_update_device_active: "update_device_active deviceID s = Some s' \<Longrightarrow> stmt_step s s'"
| step_update_remote_lock: "update_remote_lock isLocked now deviceID s = Some s' \<Longrightarrow> stmt_step s s'"
| step_update_device_locked: "update_device_locked isLocked deviceID s = Some s' \<Longrightarrow> stmt_step s s'"
| step_update_device_unlock: "update_device_unlock deviceID s = Some s' \<Longrightarrow> stmt_step s s'"

subsection \<open>A concrete run\<close>

text \<open>Identifiers in the shape of \<^verbatim>\<open>uuid.New().String()\<close>, a store that never fails, and the
  registration of the README: serial TV1, three terms of 15 days from 2024-01-01.\<close>

definition demo_uuid :: "uuid_call \<Rightarrow> string" where
  "demo_uuid c =
     (case c of
        DeviceID \<Rightarrow> ''d0000000''
      | CodeValue k \<Rightarrow> ''c'' @ appendInt k 7
      | CodeRowID k \<Rightarrow> ''a'' @ appendInt k 7
      | LockDateRowID k \<Rightarrow> ''b'' @ appendInt k 7
      | RemoteLockRowID \<Rightarrow> ''e0000000'') @ ''-0000-4000-8000-000000000000''"

definition demo_env :: env where
  "demo_env = \<lparr>uuid_New = demo_uuid, time_Now = 0, db_error = (\<lambda>c. False), map_order = [1, 0, 2]\<rparr>"

definition demo_request :: RegisterDeviceRequest where
  "demo_request =
     \<lparr>SerialNumber = ''TV1'', CustomerName = ''John Doe'', PhoneNumber = ''+1234567890'',
      EMITerm = 3, EMIStartDate = ''2024-01-01'', TermDuration = 15\<rparr>"

definition demo_store :: store where
  "demo_store = store_of (registerDevice demo_env MethodPost (Some demo_request) empty_store)"

text \<open>The first activation code row of the concrete run.\<close>

definition demo_code :: ActivationCode where
  "demo_code = code_row demo_env (uuid_New demo_env DeviceID) 1"

text \<open>The device row of the concrete run.\<close>

definition demo_device :: Device where
  "demo_device = device_row demo_env demo_request 738885"

text \<open>A run of three requests: register TV1, unlock it, lock it.\<close>

definition demo_trace :: "(env \<times> request) list" where
  "demo_trace =
     [(demo_env, Register (Some demo_request)),
      (demo_env, Unlock (Some \<lparr>ur_SerialNumber = ''TV1''\<rparr>)),
      (demo_env, SetLock (Some \<lparr>rlr_SerialNumber = ''TV1'', rlr_IsLocked = True\<rparr>))]"

text \<open>The statements without which a request cannot report success: the lookups, and the first
  write of each handler (for a registration the device insert and the two inserts of every round).\<close>

fun must_succeed :: "request \<Rightarrow> db_call list" where
  "must_succeed (Register None) = []"
| "must_succeed (Register (Some req)) =
     InsertDevice # concat (map (\<lambda>k. [InsertActivationCode k, InsertLockDate k]) [1..EMITerm req])"
| "must_succeed (Activate body) = [SelectActivationCode, UpdateActivationCode]"
| "must_succeed (Check serialNumber) = [SelectDevice]"
| "must_succeed (SetLock body) = [SelectDevice, UpdateRemoteLock]"
| "must_succeed (CheckLock serialNumber) = [SelectDevice, SelectRemoteLock]"
| "must_succeed (Unlock body) = [SelectDevice, UpdateDeviceUnlock]"
| "must_succeed Health = []"

text \<open>The store of the concrete run in which one statement fails.\<close>

definition failing_env :: "db_call \<Rightarrow> env" where
  "failing_env c = demo_env\<lparr>db_error := (\<lambda>x. x = c)\<rparr>"

text \<open>The registration of the concrete run with an empty serial number, and the store after it.\<close>

definition unnamed_request :: RegisterDeviceRequest where
  "unnamed_request = demo_request\<lparr>SerialNumber := []\<rparr>"

definition unnamed_store :: store where
  "unnamed_store = store_of (registerDevice demo_env MethodPost (Some unnamed_request) empty_store)"


section \<open>Properties of the lock dates\<close>

declare calculateLockDates_loop.simps [simp del]

lemma calculateLockDates_loop_eq:
  "calculateLockDates_loop d n i c acc =
     acc @ map (\<lambda>j. c + (int j + 1) * d) [0 ..< nat (n - i)]"
proof (induction d n i c acc rule: calculateLockDates_loop.induct)
  case (1 d n i c acc)
  show ?case
  proof (cases "i < n")
    case True
    then have n: "nat (n - i) = Suc (nat (n - (i + 1)))" by simp
    have u: "[0 ..< Suc (nat (n - (i + 1)))] = 0 # map Suc [0 ..< nat (n - (i + 1))]"
      by (simp add: upt_conv_Cons map_Suc_upt del: upt_Suc)
    have m: "map (\<lambda>j. c + (int j + 1) * d) [0 ..< Suc (nat (n - (i + 1)))] =
             (c + d) # map (\<lambda>j. c + d + (int j + 1) * d) [0 ..< nat (n - (i + 1))]"
      unfolding u by (simp add: o_def algebra_simps)
    from True "1.IH" [of "AddDate_days c d"] show ?thesis
      by (subst calculateLockDates_loop.simps) (simp add: AddDate_days_def Let_def n m del: upt_Suc)
  next
    case False
    then show ?thesis
      by (subst calculateLockDates_loop.simps) simp
  qed
qed

lemma calculateLockDates_eq:
  "calculateLockDates s d n = map (\<lambda>j. s + (int j + 1) * d) [0 ..< nat n]"
  by (simp add: calculateLockDates_def calculateLockDates_loop_eq)

lemma length_calculateLockDates: "length (calculateLockDates s d n) = nat n"
  by (simp add: calculateLockDates_eq)

lemma nth_calculateLockDates:
  "j < nat n \<Longrightarrow> calculateLockDates s d n ! j = s + (int j + 1) * d"
  by (simp add: calculateLockDates_eq)

text \<open>The dates of the example of the README, evaluated.\<close>

lemma Parse_example: "Parse ''2024-01-01'' = Some 738885"
  by code_simp

lemma Format_examples:
  "Format 738900 = ''2024-01-16''" "Format 738915 = ''2024-01-31''" "Format 738930 = ''2024-02-15''"
  by code_simp+

lemma calculateLockDates_example: "calculateLockDates 738885 15 3 = [738900, 738915, 738930]"
  by (simp add: calculateLockDates_eq upt_conv_Cons)

section \<open>Registration: what a run that reports success has done\<close>

declare registerDevice_loop.simps [simp del]

lemma registerDevice_loop_Inr:
  "registerDevice_loop e did n lds i acc s = Inr (terms, s') \<Longrightarrow>
   terms = acc @ map (term_entry e lds) [i..n] \<and>
   s' = s\<lparr>activation_codes := activation_codes s @ map (code_row e did) [i..n],
          lock_dates := lock_dates s @ map (lock_row e did lds) [i..n]\<rparr> \<and>
   (\<forall>k \<in> set [i..n]. \<not> db_error e (InsertActivationCode k) \<and> \<not> db_error e (InsertLockDate k))"
proof (induction e did n lds i acc s rule: registerDevice_loop.induct)
  case (1 e did n lds i acc s)
  show ?case
  proof (cases "i \<le> n")
    case False
    with "1.prems" show ?thesis
      by (simp add: registerDevice_loop.simps)
  next
    case True
    from "1.prems" True obtain s1 s2 where
      s1: "db_Exec e (InsertActivationCode i)
             (insert_activation_code
                \<lparr>ac_id = uuid_New e (CodeRowID i), ac_device_id = did,
                 ac_code = generateActivationCode e (CodeValue i),
                 ac_term_number = i, ac_is_used = False, ac_used_at = None,
                 ac_created_at = time_Now e\<rparr>) s = Some s1"
      and rng: "\<not> (i - 1 < 0 \<or> int (length lds) \<le> i - 1)"
      and s2: "db_Exec e (InsertLockDate i)
             (insert_lock_date
                \<lparr>ld_id = uuid_New e (LockDateRowID i), ld_device_id = did,
                 ld_lock_date = lds ! nat (i - 1), ld_is_locked = False,
                 ld_created_at = time_Now e\<rparr>) s1 = Some s2"
      and rec: "registerDevice_loop e did n lds (i + 1)
             (acc @ [\<lparr>Term = i, LockDate = Format (lds ! nat (i - 1)),
                      ActivationCode = generateActivationCode e (CodeValue i)\<rparr>]) s2 = Inr (terms, s')"
      by (subst (asm) registerDevice_loop.simps)
         (auto simp: Let_def split: option.splits if_splits)
    have s1': "s1 = s\<lparr>activation_codes := activation_codes s @ [code_row e did i]\<rparr>"
      using s1 by (auto simp: db_Exec_def insert_activation_code_def code_row_def split: if_splits)
    have s2': "s2 = s1\<lparr>lock_dates := lock_dates s1 @ [lock_row e did lds i]\<rparr>"
      using s2 by (auto simp: db_Exec_def insert_lock_date_def lock_row_def split: if_splits)
    have ok: "\<not> db_error e (InsertActivationCode i) \<and> \<not> db_error e (InsertLockDate i)"
      using s1 s2 by (auto simp: db_Exec_def split: if_splits)
    have IH: "terms = (acc @ [term_entry e lds i]) @ map (term_entry e lds) [i + 1..n] \<and>
       s' = s2\<lparr>activation_codes := activation_codes s2 @ map (code_row e did) [i + 1..n],
          lock_dates := lock_dates s2 @ map (lock_row e did lds) [i + 1..n]\<rparr> \<and>
       (\<forall>k \<in> set [i + 1..n]. \<not> db_error e (InsertActivationCode k) \<and> \<not> db_error e (InsertLockDate k))"
      using "1.IH" [OF True refl s1 rng refl s2 rec]
      by (simp add: term_entry_def)
    show ?thesis using IH True ok by (simp add: s1' s2' upto_rec1 [of i n])
  qed
qed

text \<open>The loop fails only with status 500 when the lock dates are as many as the terms.\<close>

lemma registerDevice_loop_Inl:
  "registerDevice_loop e did n lds i acc s = Inl r \<Longrightarrow> length lds = nat n \<Longrightarrow> 1 \<le> i \<Longrightarrow>
   (\<exists>message. response_of r = HttpError StatusInternalServerError message) \<and>
   list_ex is_error_line (log_of r)"
proof (induction e did n lds i acc s rule: registerDevice_loop.induct)
  case (1 e did n lds i acc s)
  show ?case
  proof (cases "i \<le> n")
    case False
    with "1.prems" show ?thesis
      by (simp add: registerDevice_loop.simps)
  next
    case True
    with "1.prems" have rng: "\<not> (i - 1 < 0 \<or> int (length lds) \<le> i - 1)"
      by auto
    from "1.prems"(1) True rng "1.IH" [OF True refl _ rng refl] "1.prems"(2,3) show ?thesis
      by (subst (asm) registerDevice_loop.simps)
         (auto simp: Let_def response_of_def log_of_def split: option.splits if_splits)
  qed
qed

lemma registerDevice_succeeded:
  assumes "succeeded (response_of (registerDevice e m body s))"
  shows "\<exists>req start. m = MethodPost \<and> body = Some req \<and> Parse (EMIStartDate req) = Some start \<and>
           (TermDuration req = 7 \<or> TermDuration req = 15 \<or> TermDuration req = 30) \<and>
           insert_device (device_row e req start) s
             = Some (s\<lparr>devices := devices s @ [device_row e req start]\<rparr>) \<and>
           \<not> db_error e InsertDevice \<and>
           (\<forall>k \<in> set [1..EMITerm req].
              \<not> db_error e (InsertActivationCode k) \<and> \<not> db_error e (InsertLockDate k)) \<and>
           response_of (registerDevice e m body s) =
             RegisterResponse True ''Device registered successfully'' (uuid_New e DeviceID)
               (map (term_entry e (calculateLockDates start (TermDuration req) (EMITerm req)))
                  [1..EMITerm req]) \<and>
           (if list_ex is_error_line (log_of (registerDevice e m body s))
            then store_of (registerDevice e m body s) = registered_store e req start s
            else \<not> db_error e InsertRemoteLock \<and>
                 insert_remote_lock (remote_lock_row e) (registered_store e req start s) =
                   Some (store_of (registerDevice e m body s)) \<and>
                 store_of (registerDevice e m body s) =
                 (registered_store e req start s)
                   \<lparr>remote_locks := remote_locks s @ [remote_lock_row e]\<rparr>)"
proof -
  from assms have m: "m = MethodPost"
    by (auto simp: registerDevice_def response_of_def split: if_splits)
  from assms m obtain req where body: "body = Some req"
    by (cases body) (auto simp: registerDevice_def response_of_def)
  from assms m body have dur: "TermDuration req = 7 \<or> TermDuration req = 15 \<or> TermDuration req = 30"
    by (auto simp: registerDevice_def response_of_def split: if_splits)
  from assms m body dur obtain start where start: "Parse (EMIStartDate req) = Some start"
    by (cases "Parse (EMIStartDate req)") (auto simp: registerDevice_def response_of_def)
  from dur have ndur: "\<not> (TermDuration req \<noteq> 7 \<and> TermDuration req \<noteq> 15 \<and> TermDuration req \<noteq> 30)"
    by auto
  let ?lds = "calculateLockDates start (TermDuration req) (EMITerm req)"
  let ?did = "uuid_New e DeviceID"
  from assms m body dur start have sel: "db_QueryRow e SelectDevice (select_device s (SerialNumber req)) = None"
    by (cases "db_QueryRow e SelectDevice (select_device s (SerialNumber req))")
       (auto simp: registerDevice_def response_of_def)
  from assms m body dur start sel obtain s1 where
    s1: "db_Exec e InsertDevice (insert_device (device_row e req start)) s = Some s1"
    by (cases "db_Exec e InsertDevice (insert_device (device_row e req start)) s")
       (auto simp: registerDevice_def response_of_def device_row_def Let_def)
  then have s1': "s1 = s\<lparr>devices := devices s @ [device_row e req start]\<rparr>"
    and ins: "insert_device (device_row e req start) s = Some s1" and ok1: "\<not> db_error e InsertDevice"
    by (auto simp: db_Exec_def insert_device_def split: if_splits)
  have unfold: "registerDevice e m body s =
      (case registerDevice_loop e ?did (EMITerm req) ?lds 1 [] s1 of
         Inl failed \<Rightarrow> failed
       | Inr (ts, s2) \<Rightarrow>
         (case db_Exec e InsertRemoteLock (insert_remote_lock (remote_lock_row e)) s2 of
            None \<Rightarrow> (RegisterResponse True ''Device registered successfully'' ?did ts,
                     [LogError ''Error inserting remote lock''], s2)
          | Some s3 \<Rightarrow> (RegisterResponse True ''Device registered successfully'' ?did ts,
                     [], s3)))"
    using m body start sel s1 unfolding registerDevice_def device_row_def remote_lock_row_def Let_def
    by (simp add: if_not_P [OF ndur])
  have "\<exists>terms s2. registerDevice_loop e ?did (EMITerm req) ?lds 1 [] s1 = Inr (terms, s2)"
  proof (cases "registerDevice_loop e ?did (EMITerm req) ?lds 1 [] s1")
    case (Inl r)
    from registerDevice_loop_Inl [OF Inl] have "\<not> succeeded (response_of r)"
      by (auto simp: length_calculateLockDates)
    with assms unfold Inl show ?thesis by simp
  next
    case (Inr p)
    then show ?thesis by (cases p) auto
  qed
  then obtain terms s2 where loop: "registerDevice_loop e ?did (EMITerm req) ?lds 1 [] s1 = Inr (terms, s2)"
    by blast
  from registerDevice_loop_Inr [OF loop] have
    terms: "terms = map (term_entry e ?lds) [1..EMITerm req]"
    and s2: "s2 = registered_store e req start s"
    and oks: "\<forall>k \<in> set [1..EMITerm req]. \<not> db_error e (InsertActivationCode k) \<and> \<not> db_error e (InsertLockDate k)"
    by (auto simp: s1' registered_store_def)
  show ?thesis
  proof (cases "db_Exec e InsertRemoteLock (insert_remote_lock (remote_lock_row e)) s2")
    case None
    with unfold loop m body start dur ins s1' ok1 oks terms s2 show ?thesis
      by (simp add: response_of_def log_of_def store_of_def)
  next
    case (Some s3)
    then have "s3 = s2\<lparr>remote_locks := remote_locks s2 @ [remote_lock_row e]\<rparr>"
      and "\<not> db_error e InsertRemoteLock" and "insert_remote_lock (remote_lock_row e) s2 = Some s3"
      by (auto simp: db_Exec_def insert_remote_lock_def split: if_splits)
    with Some unfold loop m body start dur ins s1' ok1 oks terms s2 show ?thesis
      by (simp add: response_of_def log_of_def store_of_def registered_store_def)
  qed
qed

lemma notin_map: "u \<notin> set (map f xs) \<Longrightarrow> \<forall>x \<in> set xs. f x \<noteq> u"
  by (metis image_eqI set_map)

lemma fresh_device_no_rows:
  assumes "wf_store s" and "did \<notin> set (map dev_id (devices s))"
  shows "codes_of s did = []" and "lock_dates_of s did = []" and "remote_locks_of s did = []"
    and "devices_with_id s did = []"
proof -
  from assms(2) have fresh: "\<forall>d \<in> set (devices s). dev_id d \<noteq> did"
    by (rule notin_map)
  from assms(1) have
    "\<forall>a \<in> set (activation_codes s). \<exists>d \<in> set (devices s). dev_id d = ac_device_id a"
    "\<forall>l \<in> set (lock_dates s). \<exists>d \<in> set (devices s). dev_id d = ld_device_id l"
    "\<forall>r \<in> set (remote_locks s). \<exists>d \<in> set (devices s). dev_id d = rl_device_id r"
    unfolding wf_store_def by blast+
  with fresh show "codes_of s did = []" and "lock_dates_of s did = []"
    and "remote_locks_of s did = []" and "devices_with_id s did = []"
    unfolding codes_of_def lock_dates_of_def remote_locks_of_def devices_with_id_def filter_empty_conv
    by blast+
qed

lemma insert_device_fresh:
  "insert_device d s = Some s' \<Longrightarrow> dev_id d \<notin> set (map dev_id (devices s))"
  by (auto simp: insert_device_def split: if_splits)

lemma filter_code_rows:
  "filter (\<lambda>a. ac_device_id a = did) (map (code_row e did) ks) = map (code_row e did) ks"
  by (induction ks) (auto simp: code_row_def)

lemma filter_lock_rows:
  "filter (\<lambda>l. ld_device_id l = did) (map (lock_row e did lds) ks) = map (lock_row e did lds) ks"
  by (induction ks) (auto simp: lock_row_def)

lemma length_upto_1: "length [1..n] = nat n"
  by simp

lemma nth_upto_1: "1 \<le> k \<Longrightarrow> k \<le> n \<Longrightarrow> [1..n] ! nat (k - 1) = k"
  by simp

section \<open>The concrete run, evaluated\<close>

lemma demo_uuid_simps:
  "demo_uuid DeviceID = ''d0000000-0000-4000-8000-000000000000''"
  "demo_uuid RemoteLockRowID = ''e0000000-0000-4000-8000-000000000000''"
  "demo_uuid (CodeValue 1) = ''c0000001-0000-4000-8000-000000000000''"
  "demo_uuid (CodeValue 2) = ''c0000002-0000-4000-8000-000000000000''"
  "demo_uuid (CodeValue 3) = ''c0000003-0000-4000-8000-000000000000''"
  "demo_uuid (CodeRowID 1) = ''a0000001-0000-4000-8000-000000000000''"
  "demo_uuid (CodeRowID 2) = ''a0000002-0000-4000-8000-000000000000''"
  "demo_uuid (CodeRowID 3) = ''a0000003-0000-4000-8000-000000000000''"
  "demo_uuid (LockDateRowID 1) = ''b0000001-0000-4000-8000-000000000000''"
  "demo_uuid (LockDateRowID 2) = ''b0000002-0000-4000-8000-000000000000''"
  "demo_uuid (LockDateRowID 3) = ''b0000003-0000-4000-8000-000000000000''"
  by code_simp+

lemmas register_simps =
  registerDevice_def registerDevice_loop.simps db_Exec_def db_QueryRow_def
  insert_device_def insert_activation_code_def insert_lock_date_def insert_remote_lock_def
  select_device_def generateActivationCode_def
  demo_env_def demo_request_def empty_store_def MethodPost_def failing_env_def
  Parse_example calculateLockDates_example Format_examples demo_uuid_simps Let_def

lemma demo_registration:
  "registerDevice demo_env MethodPost (Some demo_request) empty_store =
    (RegisterResponse True ''Device registered successfully''
       ''d0000000-0000-4000-8000-000000000000''
       [\<lparr>Term = 1, LockDate = ''2024-01-16'', ActivationCode = ''c0000001''\<rparr>,
        \<lparr>Term = 2, LockDate = ''2024-01-31'', ActivationCode = ''c0000002''\<rparr>,
        \<lparr>Term = 3, LockDate = ''2024-02-15'', ActivationCode = ''c0000003''\<rparr>],
     [],
     \<lparr>devices =
       [\<lparr>dev_id = ''d0000000-0000-4000-8000-000000000000'',
          dev_serial_number = ''TV1'', dev_customer_name = ''John Doe'',
          dev_phone_number = ''+1234567890'', dev_emi_term = 3,
          dev_emi_start_date = 738885, dev_term_duration = 15,
          dev_is_active = False, dev_is_locked = False, dev_created_at = 0\<rparr>],
      activation_codes =
       [\<lparr>ac_id = ''a0000001-0000-4000-8000-000000000000'',
          ac_device_id = ''d0000000-0000-4000-8000-000000000000'',
          ac_code = ''c0000001'', ac_term_number = 1, ac_is_used = False,
          ac_used_at = None, ac_created_at = 0\<rparr>,
        \<lparr>ac_id = ''a0000002-0000-4000-8000-000000000000'',
          ac_device_id = ''d0000000-0000-4000-8000-000000000000'',
          ac_code = ''c0000002'', ac_term_number = 2, ac_is_used = False,
          ac_used_at = None, ac_created_at = 0\<rparr>,
        \<lparr>ac_id = ''a0000003-0000-4000-8000-000000000000'',
          ac_device_id = ''d0000000-0000-4000-8000-000000000000'',
          ac_code = ''c0000003'', ac_term_number = 3, ac_is_used = False,
          ac_used_at = None, ac_created_at = 0\<rparr>],
      lock_dates =
       [\<lparr>ld_id = ''b0000001-0000-4000-8000-000000000000'',
          ld_device_id = ''d0000000-0000-4000-8000-000000000000'',
          ld_lock_date = 738900, ld_is_locked = False, ld_created_at = 0\<rparr>,
        \<lparr>ld_id = ''b0000002-0000-4000-8000-000000000000'',
          ld_device_id = ''d0000000-0000-4000-8000-000000000000'',
          ld_lock_date = 738915, ld_is_locked = False, ld_created_at = 0\<rparr>,
        \<lparr>ld_id = ''b0000003-0000-4000-8000-000000000000'',
          ld_device_id = ''d0000000-0000-4000-8000-000000000000'',
          ld_lock_date = 738930, ld_is_locked = False, ld_created_at = 0\<rparr>],
      remote_locks =
       [\<lparr>rl_id = ''e0000000-0000-4000-8000-000000000000'',
          rl_device_id = ''d0000000-0000-4000-8000-000000000000'',
          rl_is_locked = False, rl_created_at = 0, rl_updated_at = 0\<rparr>]\<rparr>)"
  by (simp add: register_simps)

lemma demo_registration_remote_lock_fails:
  "registerDevice (failing_env InsertRemoteLock) MethodPost (Some demo_request) empty_store =
    (RegisterResponse True ''Device registered successfully''
       ''d0000000-0000-4000-8000-000000000000''
       [\<lparr>Term = 1, LockDate = ''2024-01-16'', ActivationCode = ''c0000001''\<rparr>,
        \<lparr>Term = 2, LockDate = ''2024-01-31'', ActivationCode = ''c0000002''\<rparr>,
        \<lparr>Term = 3, LockDate = ''2024-02-15'', ActivationCode = ''c0000003''\<rparr>],
     [LogError ''Error inserting remote lock''],
     demo_store\<lparr>remote_locks := []\<rparr>)"
  by (simp add: demo_store_def demo_registration store_of_def) (simp add: register_simps)

lemma demo_store_eq:
  "demo_store =
    \<lparr>devices =
       [\<lparr>dev_id = ''d0000000-0000-4000-8000-000000000000'',
          dev_serial_number = ''TV1'', dev_customer_name = ''John Doe'',
          dev_phone_number = ''+1234567890'', dev_emi_term = 3,
          dev_emi_start_date = 738885, dev_term_duration = 15,
          dev_is_active = False, dev_is_locked = False, dev_created_at = 0\<rparr>],
     activation_codes =
       [\<lparr>ac_id = ''a0000001-0000-4000-8000-000000000000'',
          ac_device_id = ''d0000000-0000-4000-8000-000000000000'',
          ac_code = ''c0000001'', ac_term_number = 1, ac_is_used = False,
          ac_used_at = None, ac_created_at = 0\<rparr>,
        \<lparr>ac_id = ''a0000002-0000-4000-8000-000000000000'',
          ac_device_id = ''d0000000-0000-4000-8000-000000000000'',
          ac_code = ''c0000002'', ac_term_number = 2, ac_is_used = False,
          ac_used_at = None, ac_created_at = 0\<rparr>,
        \<lparr>ac_id = ''a0000003-0000-4000-8000-000000000000'',
          ac_device_id = ''d0000000-0000-4000-8000-000000000000'',
          ac_code = ''c0000003'', ac_term_number = 3, ac_is_used = False,
          ac_used_at = None, ac_created_at = 0\<rparr>],
     lock_dates =
       [\<lparr>ld_id = ''b0000001-0000-4000-8000-000000000000'',
          ld_device_id = ''d0000000-0000-4000-8000-000000000000'',
          ld_lock_date = 738900, ld_is_locked = False, ld_created_at = 0\<rparr>,
        \<lparr>ld_id = ''b0000002-0000-4000-8000-000000000000'',
          ld_device_id = ''d0000000-0000-4000-8000-000000000000'',
          ld_lock_date = 738915, ld_is_locked = False, ld_created_at = 0\<rparr>,
        \<lparr>ld_id = ''b0000003-0000-4000-8000-000000000000'',
          ld_device_id = ''d0000000-0000-4000-8000-000000000000'',
          ld_lock_date = 738930, ld_is_locked = False, ld_created_at = 0\<rparr>],
     remote_locks =
       [\<lparr>rl_id = ''e0000000-0000-4000-8000-000000000000'',
          rl_device_id = ''d0000000-0000-4000-8000-000000000000'',
          rl_is_locked = False, rl_created_at = 0, rl_updated_at = 0\<rparr>]\<rparr>"
  by (simp add: demo_store_def demo_registration store_of_def)

lemma demo_id: "uuid_New demo_env DeviceID = ''d0000000-0000-4000-8000-000000000000''"
  "uuid_New (failing_env c) DeviceID = ''d0000000-0000-4000-8000-000000000000''"
  by (simp_all add: demo_env_def failing_env_def demo_uuid_simps)

lemma wf_demo_store: "wf_store demo_store"
  by (simp add: demo_store_eq wf_store_def)

lemma demo_code_eq:
  "demo_code = \<lparr>ac_id = ''a0000001-0000-4000-8000-000000000000'',
          ac_device_id = ''d0000000-0000-4000-8000-000000000000'',
          ac_code = ''c0000001'', ac_term_number = 1, ac_is_used = False,
          ac_used_at = None, ac_created_at = 0\<rparr>"
  by (simp add: demo_code_def code_row_def demo_env_def demo_uuid_simps generateActivationCode_def)

lemma demo_device_eq:
  "demo_device = \<lparr>dev_id = ''d0000000-0000-4000-8000-000000000000'',
          dev_serial_number = ''TV1'', dev_customer_name = ''John Doe'',
          dev_phone_number = ''+1234567890'', dev_emi_term = 3,
          dev_emi_start_date = 738885, dev_term_duration = 15,
          dev_is_active = False, dev_is_locked = False, dev_created_at = 0\<rparr>"
  by (simp add: demo_device_def device_row_def demo_env_def demo_request_def demo_uuid_simps)

lemma demo_remote_lock_eq:
  "remote_lock_row demo_env = \<lparr>rl_id = ''e0000000-0000-4000-8000-000000000000'',
          rl_device_id = ''d0000000-0000-4000-8000-000000000000'',
          rl_is_locked = False, rl_created_at = 0, rl_updated_at = 0\<rparr>"
  by (simp add: remote_lock_row_def demo_env_def demo_uuid_simps)

lemmas lock_simps =
  setRemoteLock_def checkRemoteLock_def unlockDevice_def db_QueryRow_def db_Exec_def
  select_device_def select_remote_lock_def update_remote_lock_def update_device_locked_def
  update_device_unlock_def MethodPost_def MethodGet_def Let_def
  demo_env_def failing_env_def response_of_def store_of_def log_of_def

lemmas activate_simps =
  activateDevice_def activateDevice_main_def checkActivation_def checkActivation_main_def
  db_QueryRow_def db_Exec_def select_activation_code_def select_device_def
  update_activation_code_used_def update_device_active_def MethodPost_def MethodGet_def Let_def
  demo_env_def failing_env_def response_of_def store_of_def log_of_def

text \<open>
  C2. A registration that reports success, with start date \<open>start\<close>, term duration \<open>d\<close> and \<open>N\<close>
  terms: for every \<open>k\<close> in 1..N the lock date of term \<open>k\<close> is \<open>start\<close> plus \<open>k * d\<close> days, in the list
  that \<^verbatim>\<open>calculateLockDates\<close> computes, in entry \<open>k\<close> of the response (printed as a date) and in the
  \<open>k\<close>-th lock date row the registration adds. And the dates of the example: start 2024-01-01,
  duration 15, three terms give 2024-01-16, 2024-01-31, 2024-02-15.
\<close>

theorem lock_date_of_term:
  assumes "succeeded (response_of (registerDevice e m (Some req) s))"
    and "Parse (EMIStartDate req) = Some start"
    and "1 \<le> k" and "k \<le> EMITerm req"
  shows "calculateLockDates start (TermDuration req) (EMITerm req) ! nat (k - 1)
           = start + k * TermDuration req
       \<and> terms_of (response_of (registerDevice e m (Some req) s)) ! nat (k - 1)
           = \<lparr>Term = k, LockDate = Format (start + k * TermDuration req),
              ActivationCode = generateActivationCode e (CodeValue k)\<rparr>
       \<and> ld_lock_date (lock_dates (store_of (registerDevice e m (Some req) s))
                          ! (length (lock_dates s) + nat (k - 1)))
           = start + k * TermDuration req
       \<and> map_option (\<lambda>t. map Format (calculateLockDates t 15 3)) (Parse ''2024-01-01'')
           = Some [''2024-01-16'', ''2024-01-31'', ''2024-02-15'']"
proof -
  let ?r = "registerDevice e m (Some req) s"
  let ?lds = "calculateLockDates start (TermDuration req) (EMITerm req)"
  from assms(3,4) have k: "nat (k - 1) < nat (EMITerm req)" by simp
  have nth: "?lds ! nat (k - 1) = start + k * TermDuration req"
    using nth_calculateLockDates [OF k, of start "TermDuration req"] assms(3) by simp
  from registerDevice_succeeded [OF assms(1)] assms(2) have
    resp: "terms_of (response_of ?r) = map (term_entry e ?lds) [1..EMITerm req]"
    and st: "lock_dates (store_of ?r) =
               lock_dates s @ map (lock_row e (uuid_New e DeviceID) ?lds) [1..EMITerm req]"
    by (auto simp: registered_store_def split: if_splits)
  have t: "terms_of (response_of ?r) ! nat (k - 1) = term_entry e ?lds k"
    using k assms(3,4) by (simp add: resp del: upto.simps)
  have l: "lock_dates (store_of ?r) ! (length (lock_dates s) + nat (k - 1)) =
           lock_row e (uuid_New e DeviceID) ?lds k"
    using k assms(3,4) by (simp add: st nth_append del: upto.simps)
  have ex: "map_option (\<lambda>t. map Format (calculateLockDates t 15 3)) (Parse ''2024-01-01'')
           = Some [''2024-01-16'', ''2024-01-31'', ''2024-02-15'']"
    by (simp only: Parse_example option.map calculateLockDates_example list.map Format_examples)
  show ?thesis
    using nth ex by (simp add: t l term_entry_def lock_row_def)
qed

theorem lock_date_of_term_witness:
  "succeeded (response_of (registerDevice demo_env MethodPost (Some demo_request) empty_store))
   \<and> Parse (EMIStartDate demo_request) = Some 738885
   \<and> (1::int) \<le> 2 \<and> 2 \<le> EMITerm demo_request
   \<and> terms_of (response_of (registerDevice demo_env MethodPost (Some demo_request) empty_store))
          ! nat (2 - 1)
        = \<lparr>Term = 2, LockDate = Format (738885 + 2 * TermDuration demo_request),
           ActivationCode = generateActivationCode demo_env (CodeValue 2)\<rparr>
   \<and> Format (738885 + 2 * TermDuration demo_request) = ''2024-01-31''"
proof -
  have h1: "succeeded (response_of (registerDevice demo_env MethodPost (Some demo_request) empty_store))"
    by code_simp
  have h2: "Parse (EMIStartDate demo_request) = Some 738885"
    by code_simp
  have h3: "(1::int) \<le> 2" by simp
  have h4: "2 \<le> EMITerm demo_request" by code_simp
  have f: "Format (738885 + 2 * TermDuration demo_request) = ''2024-01-31''"
    by code_simp
  from lock_date_of_term [OF h1 h2 h3 h4] h1 h2 h3 h4 f show ?thesis
    by blast
qed

section \<open>Registration: the remote lock row\<close>

lemma registerDevice_unfolded:
  assumes "TermDuration req = 7 \<or> TermDuration req = 15 \<or> TermDuration req = 30"
    and "Parse (EMIStartDate req) = Some start"
    and "db_QueryRow e SelectDevice (select_device s (SerialNumber req)) = None"
    and "db_Exec e InsertDevice (insert_device (device_row e req start)) s = Some s1"
  shows "registerDevice e MethodPost (Some req) s =
      (case registerDevice_loop e (uuid_New e DeviceID) (EMITerm req)
              (calculateLockDates start (TermDuration req) (EMITerm req)) 1 [] s1 of
         Inl failed \<Rightarrow> failed
       | Inr (ts, s2) \<Rightarrow>
         (case db_Exec e InsertRemoteLock (insert_remote_lock (remote_lock_row e)) s2 of
            None \<Rightarrow> (RegisterResponse True ''Device registered successfully'' (uuid_New e DeviceID) ts,
                     [LogError ''Error inserting remote lock''], s2)
          | Some s3 \<Rightarrow> (RegisterResponse True ''Device registered successfully'' (uuid_New e DeviceID) ts,
                     [], s3)))"
proof -
  from assms(1) have ndur:
    "\<not> (TermDuration req \<noteq> 7 \<and> TermDuration req \<noteq> 15 \<and> TermDuration req \<noteq> 30)"
    by auto
  show ?thesis
    using assms(2,3,4) unfolding registerDevice_def device_row_def remote_lock_row_def Let_def
    by (simp add: if_not_P [OF ndur])
qed

text \<open>Whether the insert of the remote lock row is taken, after the device and the rounds.\<close>

lemma insert_remote_lock_registered:
  assumes "wf_store s" and "uuid_New e DeviceID \<notin> set (map dev_id (devices s))"
  shows "db_Exec e InsertRemoteLock (insert_remote_lock (remote_lock_row e))
           (registered_store e req start s) =
           (if remote_lock_taken e s
            then Some ((registered_store e req start s)
                         \<lparr>remote_locks := remote_locks s @ [remote_lock_row e]\<rparr>) else None)"
proof -
  from assms(2) have newid: "\<forall>x \<in> set (devices s). dev_id x \<noteq> uuid_New e DeviceID"
    by (rule notin_map)
  from assms(1) have "\<forall>r \<in> set (remote_locks s). \<exists>d \<in> set (devices s). dev_id d = rl_device_id r"
    unfolding wf_store_def by blast
  with newid have nodev: "\<forall>x \<in> set (remote_locks s). rl_device_id x \<noteq> uuid_New e DeviceID"
    by metis
  show ?thesis
    using nodev
    by (auto simp: db_Exec_def insert_remote_lock_def remote_lock_taken_def remote_lock_row_def
          device_row_def registered_store_def)
qed

text \<open>A registration that reports success has come to the insert of the remote lock row.\<close>

lemma registerDevice_success_form:
  assumes "succeeded (response_of (registerDevice e m body s))"
  shows "\<exists>req start. m = MethodPost \<and> body = Some req \<and> Parse (EMIStartDate req) = Some start \<and>
           uuid_New e DeviceID \<notin> set (map dev_id (devices s)) \<and>
           registerDevice e m body s =
             (case db_Exec e InsertRemoteLock (insert_remote_lock (remote_lock_row e))
                     (registered_store e req start s) of
                None \<Rightarrow>
                  (RegisterResponse True ''Device registered successfully'' (uuid_New e DeviceID)
                     (map (term_entry e (calculateLockDates start (TermDuration req) (EMITerm req)))
                        [1..EMITerm req]),
                   [LogError ''Error inserting remote lock''], registered_store e req start s)
              | Some s3 \<Rightarrow>
                  (RegisterResponse True ''Device registered successfully'' (uuid_New e DeviceID)
                     (map (term_entry e (calculateLockDates start (TermDuration req) (EMITerm req)))
                        [1..EMITerm req]),
                   [], s3))"
proof -
  let ?r = "registerDevice e m body s"
  let ?did = "uuid_New e DeviceID"
  from registerDevice_succeeded [OF assms] obtain req start where
    m: "m = MethodPost" and body: "body = Some req" and start: "Parse (EMIStartDate req) = Some start"
    and dur: "TermDuration req = 7 \<or> TermDuration req = 15 \<or> TermDuration req = 30"
    and ins: "insert_device (device_row e req start) s
                = Some (s\<lparr>devices := devices s @ [device_row e req start]\<rparr>)"
    and ok1: "\<not> db_error e InsertDevice"
    by blast
  let ?lds = "calculateLockDates start (TermDuration req) (EMITerm req)"
  from insert_device_fresh [OF ins] have fresh: "?did \<notin> set (map dev_id (devices s))"
    by (simp add: device_row_def)
  from assms m body dur start
  have sel: "db_QueryRow e SelectDevice (select_device s (SerialNumber req)) = None"
    by (cases "db_QueryRow e SelectDevice (select_device s (SerialNumber req))")
       (auto simp: registerDevice_def response_of_def)
  from ins ok1 have s1: "db_Exec e InsertDevice (insert_device (device_row e req start)) s
      = Some (s\<lparr>devices := devices s @ [device_row e req start]\<rparr>)"
    by (simp add: db_Exec_def)
  note unfold = registerDevice_unfolded [OF dur start sel s1]
  have "\<exists>terms s2. registerDevice_loop e ?did (EMITerm req) ?lds 1 []
           (s\<lparr>devices := devices s @ [device_row e req start]\<rparr>) = Inr (terms, s2)"
  proof (cases "registerDevice_loop e ?did (EMITerm req) ?lds 1 []
           (s\<lparr>devices := devices s @ [device_row e req start]\<rparr>)")
    case (Inl r)
    from registerDevice_loop_Inl [OF Inl] have "\<not> succeeded (response_of r)"
      by (auto simp: length_calculateLockDates)
    with assms unfold Inl m body show ?thesis by simp
  next
    case (Inr p)
    then show ?thesis by (cases p) auto
  qed
  then obtain terms s2 where loop: "registerDevice_loop e ?did (EMITerm req) ?lds 1 []
           (s\<lparr>devices := devices s @ [device_row e req start]\<rparr>) = Inr (terms, s2)"
    by blast
  from registerDevice_loop_Inr [OF loop] have
    terms: "terms = map (term_entry e ?lds) [1..EMITerm req]"
    and s2: "s2 = registered_store e req start s"
    by (auto simp: registered_store_def)
  have "?r = (case db_Exec e InsertRemoteLock (insert_remote_lock (remote_lock_row e))
                     (registered_store e req start s) of
                None \<Rightarrow>
                  (RegisterResponse True ''Device registered successfully'' ?did
                     (map (term_entry e ?lds) [1..EMITerm req]),
                   [LogError ''Error inserting remote lock''], registered_store e req start s)
              | Some s3 \<Rightarrow>
                  (RegisterResponse True ''Device registered successfully'' ?did
                     (map (term_entry e ?lds) [1..EMITerm req]),
                   [], s3))"
    unfolding m body unfold loop terms s2 by simp
  with m body start fresh show ?thesis by blast
qed

text \<open>The whole result of a registration that reports success.\<close>

lemma registerDevice_result:
  assumes "wf_store s" and "succeeded (response_of (registerDevice e m body s))"
  shows "\<exists>req start. m = MethodPost \<and> body = Some req \<and> Parse (EMIStartDate req) = Some start \<and>
           uuid_New e DeviceID \<notin> set (map dev_id (devices s)) \<and>
           registerDevice e m body s =
             (RegisterResponse True ''Device registered successfully'' (uuid_New e DeviceID)
                (map (term_entry e (calculateLockDates start (TermDuration req) (EMITerm req)))
                   [1..EMITerm req]),
              if remote_lock_taken e s then [] else [LogError ''Error inserting remote lock''],
              if remote_lock_taken e s
              then (registered_store e req start s)
                     \<lparr>remote_locks := remote_locks s @ [remote_lock_row e]\<rparr>
              else registered_store e req start s)"
proof -
  from registerDevice_success_form [OF assms(2)] obtain req start where
    m: "m = MethodPost" and body: "body = Some req" and start: "Parse (EMIStartDate req) = Some start"
    and fresh: "uuid_New e DeviceID \<notin> set (map dev_id (devices s))"
    and form: "registerDevice e m body s =
             (case db_Exec e InsertRemoteLock (insert_remote_lock (remote_lock_row e))
                     (registered_store e req start s) of
                None \<Rightarrow>
                  (RegisterResponse True ''Device registered successfully'' (uuid_New e DeviceID)
                     (map (term_entry e (calculateLockDates start (TermDuration req) (EMITerm req)))
                        [1..EMITerm req]),
                   [LogError ''Error inserting remote lock''], registered_store e req start s)
              | Some s3 \<Rightarrow>
                  (RegisterResponse True ''Device registered successfully'' (uuid_New e DeviceID)
                     (map (term_entry e (calculateLockDates start (TermDuration req) (EMITerm req)))
                        [1..EMITerm req]),
                   [], s3))"
    by blast
  have "registerDevice e m body s =
             (RegisterResponse True ''Device registered successfully'' (uuid_New e DeviceID)
                (map (term_entry e (calculateLockDates start (TermDuration req) (EMITerm req)))
                   [1..EMITerm req]),
              if remote_lock_taken e s then [] else [LogError ''Error inserting remote lock''],
              if remote_lock_taken e s
              then (registered_store e req start s)
                     \<lparr>remote_locks := remote_locks s @ [remote_lock_row e]\<rparr>
              else registered_store e req start s)"
    unfolding form by (simp add: insert_remote_lock_registered [OF assms(1) fresh])
  with m body start fresh show ?thesis by blast
qed

text \<open>
  C3, as the code has it. A registration with \<open>emi_term = N\<close> that reports success, on a store
  that respects the keys of the schema: afterwards the new device has exactly \<open>N\<close> activation codes,
  with the term numbers 1..N and none used, exactly \<open>N\<close> lock dates, and one device row that is
  neither active nor locked. It has exactly one remote lock row, not locked, when the insert of
  that row is taken, and then nothing is logged; when the store fails that insert, or the
  identifier of the row is in use, the device has no remote lock row, the error is logged, and the
  response is the same success.
\<close>

theorem registration_rows:
  assumes "wf_store s" and "succeeded (response_of (registerDevice e m (Some req) s))"
  shows "map ac_term_number (codes_of (store_of (registerDevice e m (Some req) s)) (uuid_New e DeviceID))
           = [1..EMITerm req]
       \<and> length (codes_of (store_of (registerDevice e m (Some req) s)) (uuid_New e DeviceID))
           = nat (EMITerm req)
       \<and> list_all (\<lambda>a. \<not> ac_is_used a)
           (codes_of (store_of (registerDevice e m (Some req) s)) (uuid_New e DeviceID))
       \<and> length (lock_dates_of (store_of (registerDevice e m (Some req) s)) (uuid_New e DeviceID))
           = nat (EMITerm req)
       \<and> map (\<lambda>d. (dev_serial_number d, dev_emi_term d, dev_is_active d, dev_is_locked d))
           (devices_with_id (store_of (registerDevice e m (Some req) s)) (uuid_New e DeviceID))
           = [(SerialNumber req, EMITerm req, False, False)]
       \<and> map rl_is_locked
           (remote_locks_of (store_of (registerDevice e m (Some req) s)) (uuid_New e DeviceID))
           = (if remote_lock_taken e s then [False] else [])
       \<and> log_of (registerDevice e m (Some req) s)
           = (if remote_lock_taken e s then [] else [LogError ''Error inserting remote lock''])
       \<and> (\<exists>terms. response_of (registerDevice e m (Some req) s) =
             RegisterResponse True ''Device registered successfully'' (uuid_New e DeviceID) terms
             \<and> length terms = nat (EMITerm req))"
proof -
  let ?r = "registerDevice e m (Some req) s"
  let ?did = "uuid_New e DeviceID"
  from registerDevice_result [OF assms] obtain start where
    fresh: "?did \<notin> set (map dev_id (devices s))"
    and res: "?r = (RegisterResponse True ''Device registered successfully'' ?did
                (map (term_entry e (calculateLockDates start (TermDuration req) (EMITerm req)))
                   [1..EMITerm req]),
              if remote_lock_taken e s then [] else [LogError ''Error inserting remote lock''],
              if remote_lock_taken e s
              then (registered_store e req start s)
                     \<lparr>remote_locks := remote_locks s @ [remote_lock_row e]\<rparr>
              else registered_store e req start s)"
    by auto
  from res have resp: "response_of ?r = RegisterResponse True ''Device registered successfully'' ?did
                (map (term_entry e (calculateLockDates start (TermDuration req) (EMITerm req)))
                   [1..EMITerm req])"
    and lg: "log_of ?r =
       (if remote_lock_taken e s then [] else [LogError ''Error inserting remote lock''])"
    and st: "store_of ?r = (registered_store e req start s)
               \<lparr>remote_locks := remote_locks s @
                   (if remote_lock_taken e s then [remote_lock_row e] else [])\<rparr>"
    by (simp_all add: response_of_def log_of_def store_of_def registered_store_def)
  note none = fresh_device_no_rows [OF assms(1) fresh]
  have c: "codes_of (store_of ?r) ?did = map (code_row e ?did) [1..EMITerm req]"
    using none(1) by (simp add: st registered_store_def codes_of_def filter_code_rows)
  have l: "lock_dates_of (store_of ?r) ?did =
           map (lock_row e ?did (calculateLockDates start (TermDuration req) (EMITerm req)))
             [1..EMITerm req]"
    using none(2) by (simp add: st registered_store_def lock_dates_of_def filter_lock_rows)
  have d: "devices_with_id (store_of ?r) ?did = [device_row e req start]"
    using none(4) by (simp add: st registered_store_def devices_with_id_def device_row_def)
  have r: "remote_locks_of (store_of ?r) ?did =
             (if remote_lock_taken e s then [remote_lock_row e] else [])"
    using none(3) by (simp add: st registered_store_def remote_locks_of_def remote_lock_row_def)
  have t: "map ac_term_number (map (code_row e ?did) [1..EMITerm req]) = [1..EMITerm req]"
    by (simp add: o_def code_row_def del: upto.simps)
  have u: "list_all (\<lambda>a. \<not> ac_is_used a) (map (code_row e ?did) [1..EMITerm req])"
    by (simp add: list_all_iff code_row_def del: upto.simps)
  show ?thesis
    unfolding c l d r resp lg using t u
    by (simp add: device_row_def remote_lock_row_def del: upto.simps)
qed

theorem registration_rows_witness:
  "wf_store empty_store
   \<and> succeeded (response_of (registerDevice demo_env MethodPost (Some demo_request) empty_store))
   \<and> remote_lock_taken demo_env empty_store
   \<and> map ac_term_number (codes_of demo_store (uuid_New demo_env DeviceID)) = [1, 2, 3]
   \<and> length (lock_dates_of demo_store (uuid_New demo_env DeviceID)) = 3
   \<and> map rl_is_locked (remote_locks_of demo_store (uuid_New demo_env DeviceID)) = [False]
   \<and> log_of (registerDevice demo_env MethodPost (Some demo_request) empty_store) = []"
proof -
  have h1: "wf_store empty_store" by (simp add: wf_store_def empty_store_def)
  have h2: "succeeded (response_of (registerDevice demo_env MethodPost (Some demo_request) empty_store))"
    by (simp add: demo_registration response_of_def)
  have h3: "remote_lock_taken demo_env empty_store"
    by (simp add: remote_lock_taken_def demo_env_def empty_store_def)
  have n: "EMITerm demo_request = 3" by (simp add: demo_request_def)
  have u: "[1..3::int] = [1, 2, 3]" by (simp add: upto.simps)
  from registration_rows [OF h1 h2] h1 h2 h3 show ?thesis
    unfolding demo_store_def [symmetric] n u by simp
qed

text \<open>The registration of the concrete run when the store fails the insert of the remote lock
  row: the answer is the success, the three codes are there, and the device has no remote lock
  row.\<close>

theorem registration_rows_counterexample:
  "succeeded (response_of
      (registerDevice (failing_env InsertRemoteLock) MethodPost (Some demo_request) empty_store))
   \<and> length (codes_of (store_of
        (registerDevice (failing_env InsertRemoteLock) MethodPost (Some demo_request) empty_store))
        (uuid_New (failing_env InsertRemoteLock) DeviceID)) = 3
   \<and> remote_locks_of (store_of
        (registerDevice (failing_env InsertRemoteLock) MethodPost (Some demo_request) empty_store))
        (uuid_New (failing_env InsertRemoteLock) DeviceID) = []"
  by (simp add: demo_registration_remote_lock_fails response_of_def store_of_def demo_store_eq
        demo_id codes_of_def remote_locks_of_def)

text \<open>
  C5. Registration fails with status 400 when the term duration is none of 7, 15 and 30, fails
  with status 400 when the start date does not parse, and fails with status 409 when a device
  with the serial number exists (and the request is otherwise valid and the existence check itself
  does not fail); whenever a device with the serial number exists the registration reports no
  success. In each of these cases the store afterwards is the store before.
\<close>

theorem registration_rejects:
  "(\<not> (TermDuration req = 7 \<or> TermDuration req = 15 \<or> TermDuration req = 30) \<longrightarrow>
      registerDevice e MethodPost (Some req) s =
        (HttpError StatusBadRequest ''Term duration must be 7, 15, or 30 days'', [], s))
   \<and> (Parse (EMIStartDate req) = None \<longrightarrow>
      (\<exists>message. registerDevice e MethodPost (Some req) s =
         (HttpError StatusBadRequest message, [], s)))
   \<and> ((\<exists>d \<in> set (devices s). dev_serial_number d = SerialNumber req)
        \<and> (TermDuration req = 7 \<or> TermDuration req = 15 \<or> TermDuration req = 30)
        \<and> Parse (EMIStartDate req) \<noteq> None \<and> \<not> db_error e SelectDevice \<longrightarrow>
      registerDevice e MethodPost (Some req) s =
        (HttpError StatusConflict ''Device with this serial number already exists'', [], s))
   \<and> ((\<exists>d \<in> set (devices s). dev_serial_number d = SerialNumber req) \<longrightarrow>
      \<not> succeeded (response_of (registerDevice e MethodPost (Some req) s))
      \<and> store_of (registerDevice e MethodPost (Some req) s) = s)"
proof (intro conjI impI)
  assume "\<not> (TermDuration req = 7 \<or> TermDuration req = 15 \<or> TermDuration req = 30)"
  then show "registerDevice e MethodPost (Some req) s =
        (HttpError StatusBadRequest ''Term duration must be 7, 15, or 30 days'', [], s)"
    by (simp add: registerDevice_def)
next
  assume "Parse (EMIStartDate req) = None"
  then show "\<exists>message. registerDevice e MethodPost (Some req) s =
         (HttpError StatusBadRequest message, [], s)"
    by (simp add: registerDevice_def)
next
  assume a: "(\<exists>d \<in> set (devices s). dev_serial_number d = SerialNumber req)
        \<and> (TermDuration req = 7 \<or> TermDuration req = 15 \<or> TermDuration req = 30)
        \<and> Parse (EMIStartDate req) \<noteq> None \<and> \<not> db_error e SelectDevice"
  then have "select_device s (SerialNumber req) \<noteq> None"
    by (auto simp: select_device_def find_None_iff)
  with a show "registerDevice e MethodPost (Some req) s =
        (HttpError StatusConflict ''Device with this serial number already exists'', [], s)"
    by (auto simp: registerDevice_def db_QueryRow_def)
next
  assume a: "\<exists>d \<in> set (devices s). dev_serial_number d = SerialNumber req"
  then have ins: "\<And>d. dev_serial_number d = SerialNumber req \<Longrightarrow> insert_device d s = None"
    by (auto simp: insert_device_def)
  show "\<not> succeeded (response_of (registerDevice e MethodPost (Some req) s))"
  proof
    assume "succeeded (response_of (registerDevice e MethodPost (Some req) s))"
    from registerDevice_succeeded [OF this] obtain start where
      "insert_device (device_row e req start) s \<noteq> None" by auto
    with ins [of "device_row e req start"] show False by (simp add: device_row_def)
  qed
next
  assume a: "\<exists>d \<in> set (devices s). dev_serial_number d = SerialNumber req"
  then have ins: "\<And>d. dev_serial_number d = SerialNumber req \<Longrightarrow> insert_device d s = None"
    by (auto simp: insert_device_def)
  show "store_of (registerDevice e MethodPost (Some req) s) = s"
    by (auto simp: registerDevice_def store_of_def db_Exec_def ins Let_def
          split: option.splits)
qed

theorem registration_rejects_witness:
  "\<not> (TermDuration (demo_request\<lparr>TermDuration := 10\<rparr>) = 7
       \<or> TermDuration (demo_request\<lparr>TermDuration := 10\<rparr>) = 15
       \<or> TermDuration (demo_request\<lparr>TermDuration := 10\<rparr>) = 30)
   \<and> registerDevice demo_env MethodPost (Some (demo_request\<lparr>TermDuration := 10\<rparr>)) empty_store =
        (HttpError StatusBadRequest ''Term duration must be 7, 15, or 30 days'', [], empty_store)
   \<and> Parse (EMIStartDate (demo_request\<lparr>EMIStartDate := ''2024-02-30''\<rparr>)) = None
   \<and> (\<exists>message.
         registerDevice demo_env MethodPost (Some (demo_request\<lparr>EMIStartDate := ''2024-02-30''\<rparr>))
           empty_store = (HttpError StatusBadRequest message, [], empty_store))
   \<and> (\<exists>d \<in> set (devices demo_store). dev_serial_number d = SerialNumber demo_request)
   \<and> registerDevice demo_env MethodPost (Some demo_request) demo_store =
        (HttpError StatusConflict ''Device with this serial number already exists'', [], demo_store)
   \<and> store_of (registerDevice demo_env MethodPost (Some demo_request) demo_store) = demo_store"
proof -
  have h1: "\<not> (TermDuration (demo_request\<lparr>TermDuration := 10\<rparr>) = 7
       \<or> TermDuration (demo_request\<lparr>TermDuration := 10\<rparr>) = 15
       \<or> TermDuration (demo_request\<lparr>TermDuration := 10\<rparr>) = 30)"
    by simp
  have h2: "Parse (EMIStartDate (demo_request\<lparr>EMIStartDate := ''2024-02-30''\<rparr>)) = None"
    by code_simp
  have h3: "\<exists>d \<in> set (devices demo_store). dev_serial_number d = SerialNumber demo_request"
    by code_simp
  have h4: "TermDuration demo_request = 7 \<or> TermDuration demo_request = 15
            \<or> TermDuration demo_request = 30"
    by code_simp
  have h5: "Parse (EMIStartDate demo_request) \<noteq> None"
    by code_simp
  have h6: "\<not> db_error demo_env SelectDevice"
    by (simp add: demo_env_def)
  from registration_rejects [where req = "demo_request\<lparr>TermDuration := 10\<rparr>"
                                and e = demo_env and s = empty_store]
       registration_rejects [where req = "demo_request\<lparr>EMIStartDate := ''2024-02-30''\<rparr>"
                                and e = demo_env and s = empty_store]
       registration_rejects [where req = demo_request and e = demo_env and s = demo_store]
       h1 h2 h3 h4 h5 h6
  show ?thesis by blast
qed

text \<open>
  C10, as the code has it. The installment count is not validated. A registration with
  \<open>emi_term \<le> 0\<close>, an allowed term duration, a start date that parses and a serial number no
  device has, whose device insert the store takes (it does not fail it and the identifier of the
  new device is not in use), answers with the success and an empty list of terms, and adds the
  device row and no activation code and no lock date. It adds the remote lock row of the device
  and logs nothing when the insert of that row is taken; when the store fails that insert, or the
  identifier of the row is in use, the answer is the same success, the error is logged and the
  device has no remote lock row.
\<close>

theorem registration_with_no_terms:
  assumes "EMITerm req \<le> 0"
    and "TermDuration req = 7 \<or> TermDuration req = 15 \<or> TermDuration req = 30"
    and "Parse (EMIStartDate req) = Some start"
    and "list_all (\<lambda>d. dev_serial_number d \<noteq> SerialNumber req) (devices s)"
    and "wf_store s"
    and "uuid_New e DeviceID \<notin> set (map dev_id (devices s))"
    and "\<not> db_error e InsertDevice"
  shows "registerDevice e MethodPost (Some req) s =
           (RegisterResponse True ''Device registered successfully'' (uuid_New e DeviceID) [],
            if remote_lock_taken e s then [] else [LogError ''Error inserting remote lock''],
            s\<lparr>devices := devices s @ [device_row e req start],
              remote_locks := remote_locks s @
                (if remote_lock_taken e s then [remote_lock_row e] else [])\<rparr>)"
proof -
  from assms(4) have "select_device s (SerialNumber req) = None"
    by (auto simp: select_device_def find_None_iff list_all_iff)
  then have sel: "db_QueryRow e SelectDevice (select_device s (SerialNumber req)) = None"
    by (simp add: db_QueryRow_def)
  let ?s1 = "s\<lparr>devices := devices s @ [device_row e req start]\<rparr>"
  from assms(6) have newid: "\<forall>x \<in> set (devices s). dev_id x \<noteq> uuid_New e DeviceID"
    by (rule notin_map)
  have ins: "db_Exec e InsertDevice (insert_device (device_row e req start)) s = Some ?s1"
    using assms(2,4,7) newid
    by (auto simp: db_Exec_def insert_device_def device_row_def list_all_iff)
  have loop: "registerDevice_loop e (uuid_New e DeviceID) (EMITerm req)
                (calculateLockDates start (TermDuration req) (EMITerm req)) 1 [] ?s1 = Inr ([], ?s1)"
    using assms(1) by (simp add: registerDevice_loop.simps)
  from assms(1) have reg: "registered_store e req start s = ?s1"
    by (simp add: registered_store_def)
  note rl = insert_remote_lock_registered [OF assms(5,6), of req start, unfolded reg]
  show ?thesis
    unfolding registerDevice_unfolded [OF assms(2,3) sel ins] loop
    by (simp add: rl)
qed

theorem registration_with_no_terms_witness:
  "EMITerm (demo_request\<lparr>EMITerm := - 2\<rparr>) \<le> 0
   \<and> Parse (EMIStartDate (demo_request\<lparr>EMITerm := - 2\<rparr>)) = Some 738885
   \<and> list_all (\<lambda>d. dev_serial_number d \<noteq> SerialNumber (demo_request\<lparr>EMITerm := - 2\<rparr>))
        (devices empty_store)
   \<and> wf_store empty_store
   \<and> remote_lock_taken demo_env empty_store
   \<and> registerDevice demo_env MethodPost (Some (demo_request\<lparr>EMITerm := - 2\<rparr>)) empty_store =
       (RegisterResponse True ''Device registered successfully'' (uuid_New demo_env DeviceID) [], [],
        empty_store\<lparr>devices := devices empty_store
                        @ [device_row demo_env (demo_request\<lparr>EMITerm := - 2\<rparr>) 738885],
                    remote_locks := remote_locks empty_store @ [remote_lock_row demo_env]\<rparr>)"
proof -
  let ?req = "demo_request\<lparr>EMITerm := - 2\<rparr>"
  have h1: "EMITerm ?req \<le> 0" by simp
  have h2: "TermDuration ?req = 7 \<or> TermDuration ?req = 15 \<or> TermDuration ?req = 30"
    by (simp add: demo_request_def)
  have h3: "Parse (EMIStartDate ?req) = Some 738885"
    by (simp add: demo_request_def Parse_example)
  have h4: "list_all (\<lambda>d. dev_serial_number d \<noteq> SerialNumber ?req) (devices empty_store)"
    by (simp add: empty_store_def)
  have h5: "wf_store empty_store" by (simp add: wf_store_def empty_store_def)
  have h6: "uuid_New demo_env DeviceID \<notin> set (map dev_id (devices empty_store))"
    by (simp add: empty_store_def)
  have h7: "\<not> db_error demo_env InsertDevice" by (simp add: demo_env_def)
  have h8: "remote_lock_taken demo_env empty_store"
    by (simp add: remote_lock_taken_def demo_env_def empty_store_def)
  from registration_with_no_terms [OF h1 h2 h3 h4 h5 h6 h7] h1 h3 h4 h5 h8
  show ?thesis by simp
qed

text \<open>A registration with \<open>emi_term = -2\<close> when the store fails the insert of the remote lock
  row: the answer is the success with no terms, the device row is there, and there is no remote
  lock row.\<close>

theorem registration_with_no_terms_counterexample:
  "EMITerm (demo_request\<lparr>EMITerm := - 2\<rparr>) \<le> 0
   \<and> response_of (registerDevice (failing_env InsertRemoteLock) MethodPost
        (Some (demo_request\<lparr>EMITerm := - 2\<rparr>)) empty_store) =
       RegisterResponse True ''Device registered successfully''
         ''d0000000-0000-4000-8000-000000000000'' []
   \<and> map dev_serial_number (devices (store_of (registerDevice (failing_env InsertRemoteLock)
        MethodPost (Some (demo_request\<lparr>EMITerm := - 2\<rparr>)) empty_store))) = [''TV1'']
   \<and> remote_locks (store_of (registerDevice (failing_env InsertRemoteLock) MethodPost
        (Some (demo_request\<lparr>EMITerm := - 2\<rparr>)) empty_store)) = []"
  by (simp add: register_simps response_of_def store_of_def)

section \<open>Activation by code\<close>

lemma wf_storeD:
  assumes "wf_store s"
  shows "distinct (map dev_id (devices s))"
    and "distinct (map dev_serial_number (devices s))"
    and "distinct (map ac_id (activation_codes s))"
    and "distinct (map ac_code (activation_codes s))"
    and "distinct (map (\<lambda>a. (ac_device_id a, ac_term_number a)) (activation_codes s))"
    and "distinct (map ld_id (lock_dates s))"
    and "distinct (map rl_id (remote_locks s))"
    and "distinct (map rl_device_id (remote_locks s))"
    and "\<And>a. a \<in> set (activation_codes s) \<Longrightarrow> \<exists>d \<in> set (devices s). dev_id d = ac_device_id a"
    and "\<And>l. l \<in> set (lock_dates s) \<Longrightarrow> \<exists>d \<in> set (devices s). dev_id d = ld_device_id l"
    and "\<And>r. r \<in> set (remote_locks s) \<Longrightarrow> \<exists>d \<in> set (devices s). dev_id d = rl_device_id r"
  using assms unfolding wf_store_def by blast+

lemma distinct_map_eq:
  "distinct (map f xs) \<Longrightarrow> x \<in> set xs \<Longrightarrow> y \<in> set xs \<Longrightarrow> f y = f x \<Longrightarrow> y = x"
  by (simp add: distinct_map inj_on_def)

lemma find_unique:
  assumes "distinct (map f xs)" and "x \<in> set xs" and "P x"
    and "\<And>y. y \<in> set xs \<Longrightarrow> P y \<Longrightarrow> f y = f x"
  shows "find P xs = Some x"
proof -
  from assms(2,3) obtain y where y: "find P xs = Some y"
    by (cases "find P xs") (auto simp: find_None_iff)
  then have "y \<in> set xs" and "P y"
    by (auto simp: find_Some_iff)
  with assms(4) have "f y = f x" by blast
  with assms(1,2) \<open>y \<in> set xs\<close> have "y = x" by (rule distinct_map_eq)
  with y show ?thesis by simp
qed

lemma filter_unique:
  assumes "distinct (map f xs)" and "x \<in> set xs"
  shows "filter (\<lambda>y. f y = f x) xs = [x]"
  using assms
proof (induction xs)
  case Nil
  then show ?case by simp
next
  case (Cons a xs)
  from Cons.prems(1) have da: "f a \<notin> f ` set xs" and dxs: "distinct (map f xs)"
    by simp_all
  show ?case
  proof (cases "a = x")
    case True
    with da have "\<forall>y \<in> set xs. f y \<noteq> f x" by (metis image_eqI)
    then have "filter (\<lambda>y. f y = f x) xs = []" by (simp add: filter_empty_conv)
    with True show ?thesis by simp
  next
    case False
    with Cons.prems(2) have in_xs: "x \<in> set xs" by simp
    with da have "f a \<noteq> f x" by (metis image_eqI)
    with Cons.IH [OF dxs in_xs] show ?thesis by simp
  qed
qed

lemma filter_map_upd:
  assumes "\<And>x. f (g x) = f x"
  shows "filter (\<lambda>y. f y = k) (map (\<lambda>y. if f y = k then g y else y) xs) =
         map g (filter (\<lambda>y. f y = k) xs)"
  by (induction xs) (simp_all add: assms)

lemma map_if_key:
  assumes "distinct (map f xs)" and "x \<in> set xs"
  shows "map (\<lambda>y. if f y = f x then g y else y) xs = map (\<lambda>y. if y = x then g y else y) xs"
  by (rule map_cong) (use assms in \<open>auto dest: distinct_map_eq\<close>)

lemma select_activation_code_unused:
  assumes "wf_store s" and "row \<in> set (activation_codes s)" and "\<not> ac_is_used row"
  shows "select_activation_code s (ac_code row) = Some row"
  unfolding select_activation_code_def
  by (rule find_unique [where f = ac_code]) (use assms wf_storeD(4) in simp_all)

text \<open>The store after the two updates of an activation.\<close>

lemma activated_codes:
  assumes "wf_store s" and "row \<in> set (activation_codes s)"
  shows "map (\<lambda>a. if ac_id a = ac_id row then a\<lparr>ac_is_used := True, ac_used_at := Some now\<rparr> else a)
           (activation_codes s) =
         map (\<lambda>a. if a = row then a\<lparr>ac_is_used := True, ac_used_at := Some now\<rparr> else a)
           (activation_codes s)"
  using assms wf_storeD(3) by (intro map_if_key) simp_all

lemma activated_device:
  assumes "wf_store s" and "row \<in> set (activation_codes s)"
  shows "map dev_is_active
           (filter (\<lambda>d. dev_id d = ac_device_id row)
              (map (\<lambda>d. if dev_id d = ac_device_id row then d\<lparr>dev_is_active := True\<rparr> else d)
                 (devices s))) = [True]"
proof -
  from wf_storeD(9) [OF assms] obtain d where
    d: "d \<in> set (devices s)" and id: "dev_id d = ac_device_id row"
    by blast
  have "filter (\<lambda>x. dev_id x = dev_id d) (devices s) = [d]"
    using wf_storeD(1) [OF assms(1)] d by (rule filter_unique)
  then have f: "filter (\<lambda>x. dev_id x = ac_device_id row) (devices s) = [d]"
    by (simp add: id)
  have "filter (\<lambda>d. dev_id d = ac_device_id row)
          (map (\<lambda>d. if dev_id d = ac_device_id row then d\<lparr>dev_is_active := True\<rparr> else d) (devices s))
        = map (\<lambda>d. d\<lparr>dev_is_active := True\<rparr>) (filter (\<lambda>x. dev_id x = ac_device_id row) (devices s))"
    by (rule filter_map_upd) simp
  then show ?thesis by (simp add: f)
qed

lemma select_activation_code_used:
  assumes "wf_store s" and "row \<in> set (activation_codes s)"
  shows "find (\<lambda>a. ac_code a = ac_code row \<and> \<not> ac_is_used a)
           (map (\<lambda>a. if ac_id a = ac_id row then a\<lparr>ac_is_used := True, ac_used_at := Some now\<rparr> else a)
              (activation_codes s)) = None"
proof -
  have "\<And>a. a \<in> set (activation_codes s) \<Longrightarrow> ac_code a = ac_code row \<Longrightarrow> a = row"
    using wf_storeD(4) [OF assms(1)] assms(2) by (rule distinct_map_eq)
  then show ?thesis
    unfolding find_None_iff by auto
qed

section \<open>Every handler moves the store by statements only\<close>

lemma db_Exec_Some: "db_Exec e c stmt s = Some s' \<Longrightarrow> stmt s = Some s' \<and> \<not> db_error e c"
  by (simp add: db_Exec_def split: if_splits)

lemma registerDevice_loop_steps:
  "registerDevice_loop e did n lds i acc s = res \<Longrightarrow>
   stmt_step\<^sup>*\<^sup>* s (case res of Inl r \<Rightarrow> store_of r | Inr (ts, s') \<Rightarrow> s')"
proof (induction e did n lds i acc s arbitrary: res rule: registerDevice_loop.induct)
  case (1 e did n lds i acc s)
  let ?a = "\<lparr>ac_id = uuid_New e (CodeRowID i), ac_device_id = did,
             ac_code = generateActivationCode e (CodeValue i),
             ac_term_number = i, ac_is_used = False, ac_used_at = None,
             ac_created_at = time_Now e\<rparr>"
  let ?l = "\<lparr>ld_id = uuid_New e (LockDateRowID i), ld_device_id = did,
             ld_lock_date = lds ! nat (i - 1), ld_is_locked = False,
             ld_created_at = time_Now e\<rparr>"
  show ?case
  proof (cases "i \<le> n")
    case False
    with "1.prems" show ?thesis
      by (auto simp: registerDevice_loop.simps)
  next
    case True
    show ?thesis
    proof (cases "db_Exec e (InsertActivationCode i) (insert_activation_code ?a) s")
      case None
      with True "1.prems" show ?thesis
        by (auto simp: registerDevice_loop.simps [of e did n lds i acc s] Let_def store_of_def)
    next
      case (Some s1)
      then have st1: "stmt_step s s1"
        by (auto dest: db_Exec_Some intro: step_insert_activation_code)
      show ?thesis
      proof (cases "i - 1 < 0 \<or> int (length lds) \<le> i - 1")
        case rng: True
        with True Some "1.prems" st1 show ?thesis
          by (auto simp: registerDevice_loop.simps [of e did n lds i acc s] Let_def store_of_def)
      next
        case rng: False
        show ?thesis
        proof (cases "db_Exec e (InsertLockDate i) (insert_lock_date ?l) s1")
          case None
          with True Some rng "1.prems" st1 show ?thesis
            by (auto simp: registerDevice_loop.simps [of e did n lds i acc s] Let_def store_of_def)
        next
          case s2: (Some s2)
          then have st2: "stmt_step s1 s2"
            by (auto dest: db_Exec_Some intro: step_insert_lock_date)
          have rec: "registerDevice_loop e did n lds (i + 1)
                       (acc @ [\<lparr>Term = i, LockDate = Format (lds ! nat (i - 1)),
                                ActivationCode = generateActivationCode e (CodeValue i)\<rparr>]) s2 = res"
            using True Some rng s2 "1.prems"
            by (simp add: registerDevice_loop.simps [of e did n lds i acc s] Let_def)
          from "1.IH" [OF True refl Some rng refl s2 rec] st1 st2 show ?thesis
            by (meson converse_rtranclp_into_rtranclp)
        qed
      qed
    qed
  qed
qed

lemma registerDevice_steps: "stmt_step\<^sup>*\<^sup>* s (store_of (registerDevice e m body s))"
proof (cases "\<exists>req start s1. m = MethodPost \<and> body = Some req
        \<and> \<not> (TermDuration req \<noteq> 7 \<and> TermDuration req \<noteq> 15 \<and> TermDuration req \<noteq> 30)
        \<and> Parse (EMIStartDate req) = Some start
        \<and> db_QueryRow e SelectDevice (select_device s (SerialNumber req)) = None
        \<and> db_Exec e InsertDevice (insert_device (device_row e req start)) s = Some s1")
  case False
  then have "store_of (registerDevice e m body s) = s"
    unfolding registerDevice_def store_of_def device_row_def Let_def
    by (auto split: option.splits)
  then show ?thesis by simp
next
  case True
  then obtain req start s1 where m: "m = MethodPost" and body: "body = Some req"
    and ndur: "\<not> (TermDuration req \<noteq> 7 \<and> TermDuration req \<noteq> 15 \<and> TermDuration req \<noteq> 30)"
    and start: "Parse (EMIStartDate req) = Some start"
    and sel: "db_QueryRow e SelectDevice (select_device s (SerialNumber req)) = None"
    and s1: "db_Exec e InsertDevice (insert_device (device_row e req start)) s = Some s1"
    by blast
  let ?lds = "calculateLockDates start (TermDuration req) (EMITerm req)"
  let ?did = "uuid_New e DeviceID"
  let ?loop = "registerDevice_loop e ?did (EMITerm req) ?lds 1 [] s1"
  from s1 have st1: "stmt_step s s1"
    by (auto dest: db_Exec_Some intro: step_insert_device)
  have unfold: "registerDevice e m body s =
      (case ?loop of
         Inl failed \<Rightarrow> failed
       | Inr (ts, s2) \<Rightarrow>
         (case db_Exec e InsertRemoteLock (insert_remote_lock (remote_lock_row e)) s2 of
            None \<Rightarrow> (RegisterResponse True ''Device registered successfully'' ?did ts,
                     [LogError ''Error inserting remote lock''], s2)
          | Some s3 \<Rightarrow> (RegisterResponse True ''Device registered successfully'' ?did ts,
                     [], s3)))"
    using m body start sel s1 unfolding registerDevice_def device_row_def remote_lock_row_def Let_def
    by (simp add: if_not_P [OF ndur])
  have loop: "stmt_step\<^sup>*\<^sup>* s1 (case ?loop of Inl r \<Rightarrow> store_of r | Inr (ts, s') \<Rightarrow> s')"
    by (rule registerDevice_loop_steps [OF refl])
  show ?thesis
  proof (cases ?loop)
    case (Inl r)
    with loop unfold st1 show ?thesis by simp
  next
    case (Inr p)
    obtain ts s2 where p: "p = (ts, s2)" by (cases p)
    with loop Inr have st2: "stmt_step\<^sup>*\<^sup>* s1 s2" by simp
    show ?thesis
    proof (cases "db_Exec e InsertRemoteLock (insert_remote_lock (remote_lock_row e)) s2")
      case None
      with unfold Inr p st1 st2 show ?thesis by (simp add: store_of_def)
    next
      case (Some s3)
      then have "stmt_step s2 s3"
        by (auto dest: db_Exec_Some intro: step_insert_remote_lock)
      with unfold Inr p st1 st2 Some show ?thesis by (simp add: store_of_def)
    qed
  qed
qed

lemma two_steps: "stmt_step a b \<Longrightarrow> stmt_step b c \<Longrightarrow> stmt_step\<^sup>*\<^sup>* a c"
  by simp

lemma activateDevice_main_steps: "stmt_step\<^sup>*\<^sup>* s (store_of (activateDevice_main e m body s))"
  unfolding activateDevice_main_def store_of_def Let_def
  by (auto split: option.splits dest!: db_Exec_Some
        intro: two_steps step_update_activation_code_used step_update_device_active)

lemma activateDevice_steps: "stmt_step\<^sup>*\<^sup>* s (store_of (activateDevice e m body s))"
  unfolding activateDevice_def store_of_def Let_def
  by (auto split: option.splits dest!: db_Exec_Some
        intro: two_steps step_update_activation_code_used step_update_device_active)

lemma checkActivation_main_steps: "store_of (checkActivation_main e m sn s) = s"
  unfolding checkActivation_main_def store_of_def Let_def
  by (auto split: option.splits)

lemma checkActivation_steps: "stmt_step\<^sup>*\<^sup>* s (store_of (checkActivation e m sn s))"
  unfolding checkActivation_def store_of_def Let_def
  by (auto split: option.splits dest!: db_Exec_Some intro: step_update_device_active)

lemma setRemoteLock_steps: "stmt_step\<^sup>*\<^sup>* s (store_of (setRemoteLock e m body s))"
  unfolding setRemoteLock_def store_of_def Let_def
  by (auto split: option.splits dest!: db_Exec_Some
        intro: two_steps step_update_remote_lock step_update_device_locked)

lemma checkRemoteLock_steps: "store_of (checkRemoteLock e m sn s) = s"
  unfolding checkRemoteLock_def store_of_def
  by (auto split: option.splits)

lemma unlockDevice_steps: "stmt_step\<^sup>*\<^sup>* s (store_of (unlockDevice e m body s))"
  unfolding unlockDevice_def store_of_def Let_def
  by (auto split: option.splits dest!: db_Exec_Some
        intro: two_steps step_update_remote_lock step_update_device_unlock)

lemma serve_steps: "stmt_step\<^sup>*\<^sup>* s (store_of (serve v e r s))"
proof (cases r)
  case (Activate body)
  then show ?thesis
    by (cases v) (simp_all add: activateDevice_main_steps activateDevice_steps)
next
  case (Check sn)
  then show ?thesis
    by (cases v) (simp_all add: checkActivation_main_steps checkActivation_steps)
next
  case Health
  then show ?thesis by (simp add: healthCheck_def store_of_def)
qed (simp_all add: registerDevice_steps setRemoteLock_steps checkRemoteLock_steps
       unlockDevice_steps)

lemma steps_invariant:
  assumes "stmt_step\<^sup>*\<^sup>* s s'" and "P s" and "\<And>a b. stmt_step a b \<Longrightarrow> P a \<Longrightarrow> P b"
  shows "P s'"
  using assms(1,2) by (induction rule: rtranclp_induct) (auto intro: assms(3))

section \<open>The statements keep the keys of the schema\<close>

lemma map_key_update:
  assumes "\<And>x. f (g x) = f x"
  shows "map f (map (\<lambda>x. if c x then g x else x) xs) = map f xs"
  by (induction xs) (simp_all add: assms)

lemma ex_key_update:
  assumes "\<And>x. f (g x) = f x"
  shows "(\<exists>y \<in> set (map (\<lambda>x. if c x then g x else x) xs). f y = k) = (\<exists>x \<in> set xs. f x = k)"
  by (induction xs) (simp_all add: assms)

lemma all_key_update:
  assumes "\<And>x. f (g x) = f x"
  shows "(\<forall>y \<in> set (map (\<lambda>x. if c x then g x else x) xs). P (f y)) = (\<forall>x \<in> set xs. P (f x))"
  by (induction xs) (simp_all add: assms)

lemma distinct_snoc_key:
  "distinct (map f xs) \<Longrightarrow> \<forall>x \<in> set xs. f x \<noteq> f y \<Longrightarrow> distinct (map f (xs @ [y]))"
  by (induction xs) auto

lemma wf_insert_device:
  assumes "insert_device d s = Some s'" and "wf_store s"
  shows "wf_store s'"
proof -
  from assms(1) have s': "s' = s\<lparr>devices := devices s @ [d]\<rparr>"
    and id: "\<forall>x \<in> set (devices s). dev_id x \<noteq> dev_id d"
    and sn: "\<forall>x \<in> set (devices s). dev_serial_number x \<noteq> dev_serial_number d"
    by (auto simp: insert_device_def split: if_splits)
  have "distinct (map dev_id (devices s @ [d]))"
    using wf_storeD(1) [OF assms(2)] id by (rule distinct_snoc_key)
  moreover have "distinct (map dev_serial_number (devices s @ [d]))"
    using wf_storeD(2) [OF assms(2)] sn by (rule distinct_snoc_key)
  ultimately show ?thesis
    using assms(2) unfolding wf_store_def s' by auto
qed

lemma wf_insert_activation_code:
  assumes "insert_activation_code a s = Some s'" and "wf_store s"
  shows "wf_store s'"
proof -
  from assms(1) have s': "s' = s\<lparr>activation_codes := activation_codes s @ [a]\<rparr>"
    and id: "\<forall>x \<in> set (activation_codes s). ac_id x \<noteq> ac_id a"
    and code: "\<forall>x \<in> set (activation_codes s). ac_code x \<noteq> ac_code a"
    and tn: "\<forall>x \<in> set (activation_codes s).
               (ac_device_id x, ac_term_number x) \<noteq> (ac_device_id a, ac_term_number a)"
    and fk: "\<exists>d \<in> set (devices s). dev_id d = ac_device_id a"
    by (auto simp: insert_activation_code_def split: if_splits)
  have "distinct (map ac_id (activation_codes s @ [a]))"
    using wf_storeD(3) [OF assms(2)] id by (rule distinct_snoc_key)
  moreover have "distinct (map ac_code (activation_codes s @ [a]))"
    using wf_storeD(4) [OF assms(2)] code by (rule distinct_snoc_key)
  moreover have "distinct (map (\<lambda>a. (ac_device_id a, ac_term_number a)) (activation_codes s @ [a]))"
    using wf_storeD(5) [OF assms(2)] tn by (rule distinct_snoc_key)
  ultimately show ?thesis
    using assms(2) fk unfolding wf_store_def s' by auto
qed

lemma wf_insert_lock_date:
  assumes "insert_lock_date l s = Some s'" and "wf_store s"
  shows "wf_store s'"
proof -
  from assms(1) have s': "s' = s\<lparr>lock_dates := lock_dates s @ [l]\<rparr>"
    and id: "\<forall>x \<in> set (lock_dates s). ld_id x \<noteq> ld_id l"
    and fk: "\<exists>d \<in> set (devices s). dev_id d = ld_device_id l"
    by (auto simp: insert_lock_date_def split: if_splits)
  have "distinct (map ld_id (lock_dates s @ [l]))"
    using wf_storeD(6) [OF assms(2)] id by (rule distinct_snoc_key)
  then show ?thesis
    using assms(2) fk unfolding wf_store_def s' by auto
qed

lemma wf_insert_remote_lock:
  assumes "insert_remote_lock r s = Some s'" and "wf_store s"
  shows "wf_store s'"
proof -
  from assms(1) have s': "s' = s\<lparr>remote_locks := remote_locks s @ [r]\<rparr>"
    and id: "\<forall>x \<in> set (remote_locks s). rl_id x \<noteq> rl_id r"
    and dev: "\<forall>x \<in> set (remote_locks s). rl_device_id x \<noteq> rl_device_id r"
    and fk: "\<exists>d \<in> set (devices s). dev_id d = rl_device_id r"
    by (auto simp: insert_remote_lock_def split: if_splits)
  have "distinct (map rl_id (remote_locks s @ [r]))"
    using wf_storeD(7) [OF assms(2)] id by (rule distinct_snoc_key)
  moreover have "distinct (map rl_device_id (remote_locks s @ [r]))"
    using wf_storeD(8) [OF assms(2)] dev by (rule distinct_snoc_key)
  ultimately show ?thesis
    using assms(2) fk unfolding wf_store_def s' by auto
qed

lemma wf_update_devices:
  assumes "wf_store s" and "\<And>d. dev_id (g d) = dev_id d"
    and "\<And>d. dev_serial_number (g d) = dev_serial_number d"
  shows "wf_store (s\<lparr>devices := map (\<lambda>d. if c d then g d else d) (devices s)\<rparr>)"
proof -
  let ?s' = "s\<lparr>devices := map (\<lambda>d. if c d then g d else d) (devices s)\<rparr>"
  have sel: "devices ?s' = map (\<lambda>d. if c d then g d else d) (devices s)"
    "activation_codes ?s' = activation_codes s" "lock_dates ?s' = lock_dates s"
    "remote_locks ?s' = remote_locks s"
    by simp_all
  show ?thesis
    using assms(1) unfolding wf_store_def sel
    by (simp only: map_key_update [where f = dev_id, OF assms(2)]
          map_key_update [where f = dev_serial_number, OF assms(3)]
          ex_key_update [where f = dev_id, OF assms(2)]) blast
qed

lemma wf_update_activation_codes:
  assumes "wf_store s" and "\<And>a. ac_id (g a) = ac_id a" and "\<And>a. ac_code (g a) = ac_code a"
    and "\<And>a. ac_device_id (g a) = ac_device_id a" and "\<And>a. ac_term_number (g a) = ac_term_number a"
  shows "wf_store (s\<lparr>activation_codes := map (\<lambda>a. if c a then g a else a) (activation_codes s)\<rparr>)"
proof -
  let ?s' = "s\<lparr>activation_codes := map (\<lambda>a. if c a then g a else a) (activation_codes s)\<rparr>"
  have sel: "activation_codes ?s' = map (\<lambda>a. if c a then g a else a) (activation_codes s)"
    "devices ?s' = devices s" "lock_dates ?s' = lock_dates s" "remote_locks ?s' = remote_locks s"
    by simp_all
  have pair: "\<And>a. (\<lambda>a. (ac_device_id a, ac_term_number a)) (g a)
                    = (\<lambda>a. (ac_device_id a, ac_term_number a)) a"
    by (simp add: assms(4,5))
  have fk: "(\<forall>a \<in> set (map (\<lambda>a. if c a then g a else a) (activation_codes s)).
              \<exists>d \<in> set (devices s). dev_id d = ac_device_id a)
          = (\<forall>a \<in> set (activation_codes s). \<exists>d \<in> set (devices s). dev_id d = ac_device_id a)"
    by (rule all_key_update [where f = ac_device_id
          and P = "\<lambda>k. \<exists>d \<in> set (devices s). dev_id d = k", OF assms(4)])
  show ?thesis
    using assms(1) unfolding wf_store_def sel fk
    by (simp only: map_key_update [where f = ac_id, OF assms(2)]
          map_key_update [where f = ac_code, OF assms(3)]
          map_key_update [where f = "\<lambda>a. (ac_device_id a, ac_term_number a)", OF pair]) blast
qed

lemma wf_update_remote_locks:
  assumes "wf_store s" and "\<And>r. rl_id (g r) = rl_id r" and "\<And>r. rl_device_id (g r) = rl_device_id r"
  shows "wf_store (s\<lparr>remote_locks := map (\<lambda>r. if c r then g r else r) (remote_locks s)\<rparr>)"
proof -
  let ?s' = "s\<lparr>remote_locks := map (\<lambda>r. if c r then g r else r) (remote_locks s)\<rparr>"
  have sel: "remote_locks ?s' = map (\<lambda>r. if c r then g r else r) (remote_locks s)"
    "devices ?s' = devices s" "lock_dates ?s' = lock_dates s"
    "activation_codes ?s' = activation_codes s"
    by simp_all
  have fk: "(\<forall>r \<in> set (map (\<lambda>r. if c r then g r else r) (remote_locks s)).
              \<exists>d \<in> set (devices s). dev_id d = rl_device_id r)
          = (\<forall>r \<in> set (remote_locks s). \<exists>d \<in> set (devices s). dev_id d = rl_device_id r)"
    by (rule all_key_update [where f = rl_device_id
          and P = "\<lambda>k. \<exists>d \<in> set (devices s). dev_id d = k", OF assms(3)])
  show ?thesis
    using assms(1) unfolding wf_store_def sel fk
    by (simp only: map_key_update [where f = rl_id, OF assms(2)]
          map_key_update [where f = rl_device_id, OF assms(3)]) blast
qed

lemma wf_stmt_step: "stmt_step s s' \<Longrightarrow> wf_store s \<Longrightarrow> wf_store s'"
proof (induction rule: stmt_step.induct)
  case (step_insert_device d s s')
  then show ?case by (rule wf_insert_device)
next
  case (step_insert_activation_code a s s')
  then show ?case by (rule wf_insert_activation_code)
next
  case (step_insert_lock_date l s s')
  then show ?case by (rule wf_insert_lock_date)
next
  case (step_insert_remote_lock r s s')
  then show ?case by (rule wf_insert_remote_lock)
next
  case (step_update_activation_code_used now activationCodeID s s')
  then show ?case
    by (auto simp: update_activation_code_used_def intro!: wf_update_activation_codes)
next
  case (step_update_device_active deviceID s s')
  then show ?case
    by (auto simp: update_device_active_def intro!: wf_update_devices)
next
  case (step_update_remote_lock isLocked now deviceID s s')
  then show ?case
    by (auto simp: update_remote_lock_def intro!: wf_update_remote_locks)
next
  case (step_update_device_locked isLocked deviceID s s')
  then show ?case
    by (auto simp: update_device_locked_def intro!: wf_update_devices)
next
  case (step_update_device_unlock deviceID s s')
  then show ?case
    by (auto simp: update_device_unlock_def intro!: wf_update_devices)
qed

lemma wf_steps: "stmt_step\<^sup>*\<^sup>* s s' \<Longrightarrow> wf_store s \<Longrightarrow> wf_store s'"
  by (rule steps_invariant [where P = wf_store]) (auto intro: wf_stmt_step)

lemma wf_serve: "wf_store s \<Longrightarrow> wf_store (store_of (serve v e r s))"
  using serve_steps by (rule wf_steps)

lemma wf_empty_store: "wf_store empty_store"
  by (simp add: wf_store_def empty_store_def)

section \<open>A used code stays used\<close>

lemma ex_ac_id_update:
  "(\<exists>y \<in> set (map (\<lambda>a. if c a then a\<lparr>ac_is_used := True, ac_used_at := Some now\<rparr> else a) xs).
      ac_id y = k) = (\<exists>x \<in> set xs. ac_id x = k)"
  by (rule ex_key_update) simp

lemma code_used_stmt_step: "stmt_step s s' \<Longrightarrow> code_used s i \<Longrightarrow> code_used s' i"
proof (induction rule: stmt_step.induct)
  case (step_insert_device d s s')
  then show ?case by (auto simp: code_used_def insert_device_def split: if_splits)
next
  case (step_insert_activation_code a s s')
  then have s': "activation_codes s' = activation_codes s @ [a]"
    and id: "\<forall>x \<in> set (activation_codes s). ac_id x \<noteq> ac_id a"
    by (auto simp: insert_activation_code_def split: if_splits)
  from step_insert_activation_code(2) obtain b where
    b: "b \<in> set (activation_codes s)" "ac_id b = i" and
    u: "\<forall>a \<in> set (activation_codes s). ac_id a = i \<longrightarrow> ac_is_used a"
    by (auto simp: code_used_def)
  from id b have "ac_id a \<noteq> i" by metis
  with b u show ?case unfolding code_used_def s' by auto
next
  case (step_insert_lock_date l s s')
  then show ?case by (auto simp: code_used_def insert_lock_date_def split: if_splits)
next
  case (step_insert_remote_lock r s s')
  then show ?case by (auto simp: code_used_def insert_remote_lock_def split: if_splits)
next
  case (step_update_activation_code_used now activationCodeID s s')
  then have s': "activation_codes s' =
      map (\<lambda>a. if ac_id a = activationCodeID then a\<lparr>ac_is_used := True, ac_used_at := Some now\<rparr> else a)
        (activation_codes s)"
    by (auto simp: update_activation_code_used_def)
  from step_update_activation_code_used(2) obtain a where
    a: "a \<in> set (activation_codes s)" "ac_id a = i" and
    u: "\<forall>a \<in> set (activation_codes s). ac_id a = i \<longrightarrow> ac_is_used a"
    by (auto simp: code_used_def)
  have "\<exists>b \<in> set (activation_codes s'). ac_id b = i"
    unfolding s' ex_ac_id_update using a by blast
  moreover have "\<forall>b \<in> set (activation_codes s'). ac_id b = i \<longrightarrow> ac_is_used b"
    unfolding s' using u by auto
  ultimately show ?case by (simp add: code_used_def)
next
  case (step_update_device_active deviceID s s')
  then show ?case by (auto simp: code_used_def update_device_active_def)
next
  case (step_update_remote_lock isLocked now deviceID s s')
  then show ?case by (auto simp: code_used_def update_remote_lock_def)
next
  case (step_update_device_locked isLocked deviceID s s')
  then show ?case by (auto simp: code_used_def update_device_locked_def)
next
  case (step_update_device_unlock deviceID s s')
  then show ?case by (auto simp: code_used_def update_device_unlock_def)
qed

lemma code_used_serve: "code_used s i \<Longrightarrow> code_used (store_of (serve v e r s)) i"
  using serve_steps
  by (rule steps_invariant [where P = "\<lambda>s. code_used s i"]) (auto intro: code_used_stmt_step)

section \<open>Activation by code, once and twice\<close>

lemma after_activation_codes:
  "activation_codes (after_activation e row s) =
     map (\<lambda>a. if ac_id a = ac_id row
              then a\<lparr>ac_is_used := True, ac_used_at := Some (time_Now e)\<rparr> else a)
       (activation_codes s)"
  by (simp add: after_activation_def code_marked_store_def activated_store_def)

lemma after_activation_devices:
  "devices (after_activation e row s) =
     (if db_error e UpdateDeviceActive then devices s
      else map (\<lambda>d. if dev_id d = ac_device_id row then d\<lparr>dev_is_active := True\<rparr> else d)
             (devices s))"
  by (simp add: after_activation_def code_marked_store_def activated_store_def)

lemma activateDevice_marks:
  assumes "wf_store s" and "row \<in> set (activation_codes s)" and "\<not> ac_is_used row"
    and "\<not> db_error e SelectActivationCode" and "\<not> db_error e UpdateActivationCode"
  shows "activateDevice e MethodPost (Some \<lparr>ar_ActivationCode = ac_code row\<rparr>) s =
           (ActivationResponse True ''Device activated successfully''
              (deviceTerms e (after_activation e row s) (ac_device_id row)),
            if db_error e UpdateDeviceActive then [LogError ''Error activating device''] else [],
            after_activation e row s)"
    and "activateDevice_main e MethodPost (Some \<lparr>ar_ActivationCode = ac_code row\<rparr>) s =
           (ActivationResponse_main True ''Device activated successfully''
              (deviceTerms_main e (after_activation e row s) (ac_device_id row)),
            if db_error e UpdateDeviceActive then [LogError ''Error activating device''] else [],
            after_activation e row s)"
  using select_activation_code_unused [OF assms(1,2,3)] assms(4,5)
  by (simp_all add: activateDevice_def activateDevice_main_def db_QueryRow_def db_Exec_def
        update_activation_code_used_def update_device_active_def activated_store_def
        code_marked_store_def after_activation_def Let_def)

lemma activateDevice_again:
  assumes "wf_store s" and "row \<in> set (activation_codes s)"
  shows "activateDevice e2 MethodPost (Some \<lparr>ar_ActivationCode = ac_code row\<rparr>)
           (after_activation e row s) =
           (HttpError StatusBadRequest ''Invalid or already used activation code'', [],
            after_activation e row s)"
    and "activateDevice_main e2 MethodPost (Some \<lparr>ar_ActivationCode = ac_code row\<rparr>)
           (after_activation e row s) =
           (HttpError StatusBadRequest ''Invalid or already used activation code'', [],
            after_activation e row s)"
proof -
  have "select_activation_code (after_activation e row s) (ac_code row) = None"
    using select_activation_code_used [OF assms, of "time_Now e"]
    by (simp add: select_activation_code_def after_activation_codes)
  then show "activateDevice e2 MethodPost (Some \<lparr>ar_ActivationCode = ac_code row\<rparr>)
           (after_activation e row s) =
           (HttpError StatusBadRequest ''Invalid or already used activation code'', [],
            after_activation e row s)"
    and "activateDevice_main e2 MethodPost (Some \<lparr>ar_ActivationCode = ac_code row\<rparr>)
           (after_activation e row s) =
           (HttpError StatusBadRequest ''Invalid or already used activation code'', [],
            after_activation e row s)"
    by (simp_all add: activateDevice_def activateDevice_main_def db_QueryRow_def)
qed

lemma code_used_after_activation:
  assumes "row \<in> set (activation_codes s)"
  shows "code_used (after_activation e row s) (ac_id row)"
proof -
  have "\<exists>b \<in> set (activation_codes (after_activation e row s)). ac_id b = ac_id row"
    unfolding after_activation_codes using assms by (simp only: ex_ac_id_update) blast
  moreover have "\<forall>b \<in> set (activation_codes (after_activation e row s)).
                   ac_id b = ac_id row \<longrightarrow> ac_is_used b"
    by (auto simp: after_activation_codes)
  ultimately show ?thesis by (simp add: code_used_def)
qed

text \<open>
  C4, as the code has it. On a store that respects the keys of the schema, the activation of an
  existing unused code whose lookup and mark-used update the store takes reports success, in
  \<^verbatim>\<open>main.go\<close> and in package \<^verbatim>\<open>handler\<close> alike, and marks that row as used and no other row.
  The owning device is active afterwards when the store takes the update of the device row; when
  the store fails that update the handler logs "Error activating device" and answers the same
  success, with the code used and the device row as it was. A second activation with the same
  code, whatever the store does, fails with status 400 "Invalid or already used activation code"
  and leaves the store as it is, so the device stays as the first attempt left it. The row stays
  used through any later request to either server.
\<close>

theorem activation_first_and_second:
  assumes "wf_store s" and "row \<in> set (activation_codes s)" and "\<not> ac_is_used row"
    and "\<not> db_error e SelectActivationCode" and "\<not> db_error e UpdateActivationCode"
  shows "succeeded (response_of
           (activateDevice e MethodPost (Some \<lparr>ar_ActivationCode = ac_code row\<rparr>) s))
       \<and> store_of (activateDevice e MethodPost (Some \<lparr>ar_ActivationCode = ac_code row\<rparr>) s)
           = after_activation e row s
       \<and> log_of (activateDevice e MethodPost (Some \<lparr>ar_ActivationCode = ac_code row\<rparr>) s)
           = (if db_error e UpdateDeviceActive then [LogError ''Error activating device''] else [])
       \<and> succeeded (response_of
           (activateDevice_main e MethodPost (Some \<lparr>ar_ActivationCode = ac_code row\<rparr>) s))
       \<and> store_of (activateDevice_main e MethodPost (Some \<lparr>ar_ActivationCode = ac_code row\<rparr>) s)
           = after_activation e row s
       \<and> log_of (activateDevice_main e MethodPost (Some \<lparr>ar_ActivationCode = ac_code row\<rparr>) s)
           = (if db_error e UpdateDeviceActive then [LogError ''Error activating device''] else [])
       \<and> activation_codes (after_activation e row s)
           = map (\<lambda>a. if a = row then a\<lparr>ac_is_used := True, ac_used_at := Some (time_Now e)\<rparr> else a)
               (activation_codes s)
       \<and> map dev_is_active (devices_with_id (after_activation e row s) (ac_device_id row))
           = (if db_error e UpdateDeviceActive
              then map dev_is_active (devices_with_id s (ac_device_id row)) else [True])
       \<and> activateDevice e2 MethodPost (Some \<lparr>ar_ActivationCode = ac_code row\<rparr>)
             (after_activation e row s)
           = (HttpError StatusBadRequest ''Invalid or already used activation code'', [],
              after_activation e row s)
       \<and> activateDevice_main e2 MethodPost (Some \<lparr>ar_ActivationCode = ac_code row\<rparr>)
             (after_activation e row s)
           = (HttpError StatusBadRequest ''Invalid or already used activation code'', [],
              after_activation e row s)
       \<and> code_used (store_of (serve v e3 rq (after_activation e row s))) (ac_id row)"
proof -
  note first = activateDevice_marks [OF assms]
  note second = activateDevice_again [OF assms(1,2), of e2 e]
  have codes: "activation_codes (after_activation e row s)
           = map (\<lambda>a. if a = row then a\<lparr>ac_is_used := True, ac_used_at := Some (time_Now e)\<rparr> else a)
               (activation_codes s)"
    using activated_codes [OF assms(1,2), of "time_Now e"] by (simp add: after_activation_codes)
  have dev: "map dev_is_active (devices_with_id (after_activation e row s) (ac_device_id row))
           = (if db_error e UpdateDeviceActive
              then map dev_is_active (devices_with_id s (ac_device_id row)) else [True])"
    using activated_device [OF assms(1,2)]
    by (simp add: after_activation_devices devices_with_id_def)
  have used: "code_used (store_of (serve v e3 rq (after_activation e row s))) (ac_id row)"
    by (rule code_used_serve [OF code_used_after_activation [OF assms(2)]])
  show ?thesis
    using codes dev used second
    by (simp add: first response_of_def store_of_def log_of_def)
qed

theorem activation_first_and_second_witness:
  "wf_store demo_store \<and> demo_code \<in> set (activation_codes demo_store) \<and> \<not> ac_is_used demo_code
   \<and> \<not> db_error demo_env SelectActivationCode \<and> \<not> db_error demo_env UpdateActivationCode
   \<and> succeeded (response_of
         (activateDevice demo_env MethodPost (Some \<lparr>ar_ActivationCode = ac_code demo_code\<rparr>) demo_store))
   \<and> map dev_is_active
         (devices_with_id (after_activation demo_env demo_code demo_store)
            (ac_device_id demo_code)) = [True]
   \<and> activateDevice_main demo_env MethodPost (Some \<lparr>ar_ActivationCode = ac_code demo_code\<rparr>)
         (after_activation demo_env demo_code demo_store)
       = (HttpError StatusBadRequest ''Invalid or already used activation code'', [],
          after_activation demo_env demo_code demo_store)"
proof -
  have h1: "wf_store demo_store" by (rule wf_demo_store)
  have h2: "demo_code \<in> set (activation_codes demo_store)"
    by (simp add: demo_store_eq demo_code_eq)
  have h3: "\<not> ac_is_used demo_code" by (simp add: demo_code_eq)
  have h4: "\<not> db_error demo_env SelectActivationCode" by (simp add: demo_env_def)
  have h5: "\<not> db_error demo_env UpdateActivationCode" by (simp add: demo_env_def)
  have h6: "\<not> db_error demo_env UpdateDeviceActive" by (simp add: demo_env_def)
  from activation_first_and_second [OF h1 h2 h3 h4 h5, of demo_env MainServer demo_env Health]
       h1 h2 h3 h4 h5 h6
  show ?thesis by simp
qed

text \<open>The first code of the concrete run, activated while the store fails the update of the
  device row: the answer is the success, the code is used, and the device is not active.\<close>

theorem activation_first_and_second_counterexample:
  "succeeded (response_of (activateDevice_main (failing_env UpdateDeviceActive) MethodPost
      (Some \<lparr>ar_ActivationCode = ''c0000001''\<rparr>) demo_store))
   \<and> succeeded (response_of (activateDevice (failing_env UpdateDeviceActive) MethodPost
      (Some \<lparr>ar_ActivationCode = ''c0000001''\<rparr>) demo_store))
   \<and> map ac_is_used (activation_codes (store_of (activateDevice_main (failing_env UpdateDeviceActive)
      MethodPost (Some \<lparr>ar_ActivationCode = ''c0000001''\<rparr>) demo_store))) = [True, False, False]
   \<and> map dev_is_active (devices (store_of (activateDevice_main (failing_env UpdateDeviceActive)
      MethodPost (Some \<lparr>ar_ActivationCode = ''c0000001''\<rparr>) demo_store))) = [False]
   \<and> map dev_is_active (devices (store_of (activateDevice (failing_env UpdateDeviceActive)
      MethodPost (Some \<lparr>ar_ActivationCode = ''c0000001''\<rparr>) demo_store))) = [False]"
  by (simp add: activateDevice_main_def activateDevice_def demo_store_eq failing_env_def
        demo_env_def db_QueryRow_def db_Exec_def select_activation_code_def
        update_activation_code_used_def update_device_active_def MethodPost_def Let_def
        response_of_def store_of_def)

section \<open>Remote lock, check-lock and unlock\<close>

lemma find_map_key:
  assumes "\<And>x. P (g x) = P x"
  shows "find P (map g xs) = map_option g (find P xs)"
  by (induction xs) (simp_all add: assms)

lemma select_device_registered:
  assumes "wf_store s" and "d \<in> set (devices s)"
  shows "select_device s (dev_serial_number d) = Some d"
  unfolding select_device_def
  by (rule find_unique [where f = dev_serial_number]) (use assms wf_storeD(2) in simp_all)

lemma select_device_update:
  assumes "select_device s sn = Some d" and "\<And>x. dev_serial_number (g x) = dev_serial_number x"
  shows "find (\<lambda>x. dev_serial_number x = sn) (map (\<lambda>x. if c x then g x else x) (devices s))
         = Some (if c d then g d else d)"
proof -
  have "find (\<lambda>x. dev_serial_number x = sn) (map (\<lambda>x. if c x then g x else x) (devices s))
        = map_option (\<lambda>x. if c x then g x else x) (find (\<lambda>x. dev_serial_number x = sn) (devices s))"
    by (rule find_map_key) (simp add: assms(2))
  with assms(1) show ?thesis by (simp add: select_device_def)
qed

lemma remote_lock_row_unique:
  assumes "wf_store s" and "r \<in> set (remote_locks s)"
  shows "remote_locks_of s (rl_device_id r) = [r]"
  unfolding remote_locks_of_def
  using wf_storeD(8) [OF assms(1)] assms(2) by (rule filter_unique)

lemma device_row_unique:
  assumes "wf_store s" and "d \<in> set (devices s)"
  shows "devices_with_id s (dev_id d) = [d]"
  unfolding devices_with_id_def
  using wf_storeD(1) [OF assms(1)] assms(2) by (rule filter_unique)

lemma find_of_filter: "filter P xs = x # ys \<Longrightarrow> find P xs = Some x"
  by (induction xs) (auto split: if_splits)

lemma select_remote_lock_of:
  "remote_locks_of s deviceID = [r] \<Longrightarrow> select_remote_lock s deviceID = Some (rl_is_locked r)"
  unfolding remote_locks_of_def select_remote_lock_def
  by (simp add: find_of_filter)

lemma checkRemoteLock_done:
  assumes "select_device s sn = Some d" and "sn \<noteq> []"
    and "select_remote_lock s (dev_id d) = Some b"
    and "\<not> db_error e SelectDevice" and "\<not> db_error e SelectRemoteLock"
  shows "checkRemoteLock e MethodGet sn s = (CheckLockResponse b, [], s)"
  using assms
  by (simp add: checkRemoteLock_def db_QueryRow_def)

lemma locked_store_rows:
  "remote_locks_of (locked_store b now did s) did
     = map (\<lambda>r. r\<lparr>rl_is_locked := b, rl_updated_at := now\<rparr>) (remote_locks_of s did)"
  "devices_with_id (locked_store b now did s) did
     = map (\<lambda>d. d\<lparr>dev_is_locked := b\<rparr>) (devices_with_id s did)"
  unfolding remote_locks_of_def devices_with_id_def locked_store_def
  by (simp_all add: filter_map_upd)

lemma unlocked_store_rows:
  "remote_locks_of (unlocked_store now did s) did
     = map (\<lambda>r. r\<lparr>rl_is_locked := False, rl_updated_at := now\<rparr>) (remote_locks_of s did)"
  "devices_with_id (unlocked_store now did s) did
     = map (\<lambda>d. d\<lparr>dev_is_locked := False, dev_is_active := False\<rparr>) (devices_with_id s did)"
  unfolding remote_locks_of_def devices_with_id_def unlocked_store_def
  by (simp_all add: filter_map_upd)

lemma select_device_locked_store:
  assumes "select_device s sn = Some d"
  shows "select_device (locked_store b now did s) sn
         = Some (if dev_id d = did then d\<lparr>dev_is_locked := b\<rparr> else d)"
  unfolding select_device_def locked_store_def
  using select_device_update [OF assms, where g = "\<lambda>d. d\<lparr>dev_is_locked := b\<rparr>"
          and c = "\<lambda>d. dev_id d = did"]
  by simp

lemma select_device_unlocked_store:
  assumes "select_device s sn = Some d"
  shows "select_device (unlocked_store now did s) sn
         = Some (if dev_id d = did then d\<lparr>dev_is_locked := False, dev_is_active := False\<rparr> else d)"
  unfolding select_device_def unlocked_store_def
  using select_device_update [OF assms,
          where g = "\<lambda>d. d\<lparr>dev_is_locked := False, dev_is_active := False\<rparr>"
          and c = "\<lambda>d. dev_id d = did"]
  by simp

subsection \<open>When the second update fails\<close>

lemma setRemoteLock_result:
  assumes "select_device s (rlr_SerialNumber req) = Some d"
    and "\<not> db_error e SelectDevice" and "\<not> db_error e UpdateRemoteLock"
  shows "setRemoteLock e MethodPost (Some req) s =
           (RemoteLockResponse True
              (''Remote lock set to '' @ (if rlr_IsLocked req then ''true'' else ''false''))
              (rlr_IsLocked req),
            if db_error e UpdateDeviceLocked then [LogError ''Error updating device lock''] else [],
            after_set_lock e (rlr_IsLocked req) (dev_id d) s)"
  using assms
  by (simp add: setRemoteLock_def db_QueryRow_def db_Exec_def update_remote_lock_def
        update_device_locked_def locked_store_def remote_locked_store_def after_set_lock_def Let_def)

lemma unlockDevice_result:
  assumes "select_device s (ur_SerialNumber req) = Some d"
    and "\<not> db_error e SelectDevice" and "\<not> db_error e UpdateDeviceUnlock"
  shows "unlockDevice e MethodPost (Some req) s =
           (UnlockResponse True ''Device unlocked successfully'',
            if db_error e UpdateRemoteLock then [LogError ''Error updating remote lock''] else [],
            after_unlock e (dev_id d) s)"
  using assms
  by (simp add: unlockDevice_def db_QueryRow_def db_Exec_def update_remote_lock_def
        update_device_unlock_def unlocked_store_def device_unlocked_store_def after_unlock_def Let_def)

lemma after_set_lock_rows:
  "remote_locks_of (after_set_lock e b did s) did
     = map (\<lambda>r. r\<lparr>rl_is_locked := b, rl_updated_at := time_Now e\<rparr>) (remote_locks_of s did)"
  "devices_with_id (after_set_lock e b did s) did
     = (if db_error e UpdateDeviceLocked then devices_with_id s did
        else map (\<lambda>d. d\<lparr>dev_is_locked := b\<rparr>) (devices_with_id s did))"
  unfolding remote_locks_of_def devices_with_id_def after_set_lock_def locked_store_def
    remote_locked_store_def
  by (simp_all add: filter_map_upd)

lemma after_unlock_rows:
  "remote_locks_of (after_unlock e did s) did
     = (if db_error e UpdateRemoteLock then remote_locks_of s did
        else map (\<lambda>r. r\<lparr>rl_is_locked := False, rl_updated_at := time_Now e\<rparr>)
               (remote_locks_of s did))"
  "devices_with_id (after_unlock e did s) did
     = map (\<lambda>d. d\<lparr>dev_is_locked := False, dev_is_active := False\<rparr>) (devices_with_id s did)"
  unfolding remote_locks_of_def devices_with_id_def after_unlock_def unlocked_store_def
    device_unlocked_store_def
  by (simp_all add: filter_map_upd)

lemma select_device_after_set_lock:
  assumes "select_device s sn = Some d"
  shows "\<exists>d'. select_device (after_set_lock e b did s) sn = Some d' \<and> dev_id d' = dev_id d"
proof (cases "db_error e UpdateDeviceLocked")
  case True
  with assms show ?thesis
    by (simp add: after_set_lock_def remote_locked_store_def select_device_def)
next
  case False
  with select_device_locked_store [OF assms, of b "time_Now e" did] show ?thesis
    by (simp add: after_set_lock_def)
qed

lemma select_device_after_unlock:
  assumes "select_device s sn = Some d"
  shows "\<exists>d'. select_device (after_unlock e did s) sn = Some d' \<and> dev_id d' = dev_id d"
proof (cases "db_error e UpdateRemoteLock")
  case True
  have "select_device (device_unlocked_store did s) sn
         = Some (if dev_id d = did then d\<lparr>dev_is_locked := False, dev_is_active := False\<rparr> else d)"
    unfolding select_device_def device_unlocked_store_def
    using select_device_update [OF assms,
          where g = "\<lambda>d. d\<lparr>dev_is_locked := False, dev_is_active := False\<rparr>"
          and c = "\<lambda>d. dev_id d = did"]
    by simp
  with True show ?thesis
    by (simp add: after_unlock_def)
next
  case False
  with select_device_unlocked_store [OF assms, of "time_Now e" did] show ?thesis
    by (simp add: after_unlock_def)
qed

text \<open>
  C7, as the code has it. A registered device with a serial number that a query can carry (not
  empty) and with its remote lock row, on a store that respects the keys of the schema, and
  requests whose lookups and first update the store takes: after remote lock is set to true,
  check-lock answers true, also when the store fails the update of the device row in between;
  after the unlock that follows, the device is neither active nor locked. Its remote lock row is
  not locked and check-lock answers false when the store takes the update of the remote lock row
  in the unlock; when the store fails that update the unlock logs it and answers the same
  success, the remote lock row stays locked and check-lock answers true.
\<close>

theorem lock_then_unlock_flags:
  assumes "wf_store s" and "d \<in> set (devices s)" and "dev_serial_number d \<noteq> []"
    and "r \<in> set (remote_locks s)" and "rl_device_id r = dev_id d"
    and "\<not> db_error e1 SelectDevice" and "\<not> db_error e1 UpdateRemoteLock"
    and "\<not> db_error e2 SelectDevice" and "\<not> db_error e2 SelectRemoteLock"
    and "\<not> db_error e3 SelectDevice" and "\<not> db_error e3 UpdateDeviceUnlock"
    and "\<not> db_error e4 SelectDevice" and "\<not> db_error e4 SelectRemoteLock"
    and "s1 = store_of (setRemoteLock e1 MethodPost
                 (Some \<lparr>rlr_SerialNumber = dev_serial_number d, rlr_IsLocked = True\<rparr>) s)"
    and "s2 = store_of (unlockDevice e3 MethodPost
                 (Some \<lparr>ur_SerialNumber = dev_serial_number d\<rparr>) s1)"
  shows "succeeded (response_of (setRemoteLock e1 MethodPost
                 (Some \<lparr>rlr_SerialNumber = dev_serial_number d, rlr_IsLocked = True\<rparr>) s))
       \<and> response_of (checkRemoteLock e2 MethodGet (dev_serial_number d) s1) = CheckLockResponse True
       \<and> succeeded (response_of (unlockDevice e3 MethodPost
                 (Some \<lparr>ur_SerialNumber = dev_serial_number d\<rparr>) s1))
       \<and> log_of (unlockDevice e3 MethodPost (Some \<lparr>ur_SerialNumber = dev_serial_number d\<rparr>) s1)
           = (if db_error e3 UpdateRemoteLock then [LogError ''Error updating remote lock''] else [])
       \<and> map (\<lambda>x. (dev_is_active x, dev_is_locked x)) (devices_with_id s2 (dev_id d))
           = [(False, False)]
       \<and> map rl_is_locked (remote_locks_of s2 (dev_id d)) = [db_error e3 UpdateRemoteLock]
       \<and> response_of (checkRemoteLock e4 MethodGet (dev_serial_number d) s2)
           = CheckLockResponse (db_error e3 UpdateRemoteLock)"
proof -
  let ?sn = "dev_serial_number d" and ?did = "dev_id d"
  have sel: "select_device s ?sn = Some d"
    by (rule select_device_registered [OF assms(1,2)])
  have rows: "remote_locks_of s ?did = [r]" "devices_with_id s ?did = [d]"
    using remote_lock_row_unique [OF assms(1,4)] device_row_unique [OF assms(1,2)] assms(5)
    by simp_all
  \<comment> \<open>remote lock set to true\<close>
  have set_lock: "setRemoteLock e1 MethodPost (Some \<lparr>rlr_SerialNumber = ?sn, rlr_IsLocked = True\<rparr>) s
        = (RemoteLockResponse True ''Remote lock set to true'' True,
           if db_error e1 UpdateDeviceLocked then [LogError ''Error updating device lock''] else [],
           after_set_lock e1 True ?did s)"
    using setRemoteLock_result [of s "\<lparr>rlr_SerialNumber = ?sn, rlr_IsLocked = True\<rparr>" d e1]
      sel assms(6,7)
    by simp
  then have s1: "s1 = after_set_lock e1 True ?did s"
    using assms(14) by (simp add: store_of_def)
  from select_device_after_set_lock [OF sel, of e1 True ?did] obtain d1 where
    sel1: "select_device s1 ?sn = Some d1" and id1: "dev_id d1 = ?did"
    unfolding s1 by blast
  have rl1: "remote_locks_of s1 ?did = [r\<lparr>rl_is_locked := True, rl_updated_at := time_Now e1\<rparr>]"
    unfolding s1 by (simp add: after_set_lock_rows rows)
  have dv1: "length (devices_with_id s1 ?did) = 1"
    unfolding s1 by (simp add: after_set_lock_rows rows)
  have "select_remote_lock s1 (dev_id d1) = Some True"
    using select_remote_lock_of [OF rl1] by (simp add: id1)
  then have check1: "checkRemoteLock e2 MethodGet ?sn s1 = (CheckLockResponse True, [], s1)"
    by (rule checkRemoteLock_done [OF sel1 assms(3) _ assms(8,9)])
  \<comment> \<open>unlock\<close>
  have unlock: "unlockDevice e3 MethodPost (Some \<lparr>ur_SerialNumber = ?sn\<rparr>) s1
        = (UnlockResponse True ''Device unlocked successfully'',
           if db_error e3 UpdateRemoteLock then [LogError ''Error updating remote lock''] else [],
           after_unlock e3 ?did s1)"
    using unlockDevice_result [of s1 "\<lparr>ur_SerialNumber = ?sn\<rparr>" d1 e3] sel1 assms(10,11) id1
    by simp
  then have s2: "s2 = after_unlock e3 ?did s1"
    using assms(15) by (simp add: store_of_def)
  from select_device_after_unlock [OF sel1, of e3 ?did] obtain d2 where
    sel2: "select_device s2 ?sn = Some d2" and id2: "dev_id d2 = ?did"
    unfolding s2 using id1 by auto
  have rl2: "remote_locks_of s2 ?did
      = [(if db_error e3 UpdateRemoteLock then r\<lparr>rl_is_locked := True, rl_updated_at := time_Now e1\<rparr>
          else r\<lparr>rl_is_locked := False, rl_updated_at := time_Now e3\<rparr>)]"
    unfolding s2 by (simp add: after_unlock_rows rl1)
  from dv1 obtain x where x: "devices_with_id s1 ?did = [x]"
    by (cases "devices_with_id s1 ?did") auto
  have dv2: "map (\<lambda>x. (dev_is_active x, dev_is_locked x)) (devices_with_id s2 ?did)
      = [(False, False)]"
    unfolding s2 by (simp add: after_unlock_rows x)
  have "select_remote_lock s2 (dev_id d2) = Some (db_error e3 UpdateRemoteLock)"
    using select_remote_lock_of [OF rl2] by (simp add: id2)
  then have check2: "checkRemoteLock e4 MethodGet ?sn s2
      = (CheckLockResponse (db_error e3 UpdateRemoteLock), [], s2)"
    by (rule checkRemoteLock_done [OF sel2 assms(3) _ assms(12,13)])
  show ?thesis
    by (simp add: set_lock check1 unlock check2 rl2 dv2 response_of_def log_of_def)
qed

theorem lock_then_unlock_flags_witness:
  "wf_store demo_store \<and> demo_device \<in> set (devices demo_store)
   \<and> dev_serial_number demo_device \<noteq> []
   \<and> remote_lock_row demo_env \<in> set (remote_locks demo_store)
   \<and> rl_device_id (remote_lock_row demo_env) = dev_id demo_device
   \<and> \<not> db_error demo_env SelectDevice \<and> \<not> db_error demo_env UpdateRemoteLock
   \<and> \<not> db_error demo_env SelectRemoteLock \<and> \<not> db_error demo_env UpdateDeviceUnlock
   \<and> response_of (checkRemoteLock demo_env MethodGet (dev_serial_number demo_device)
        (store_of (setRemoteLock demo_env MethodPost
           (Some \<lparr>rlr_SerialNumber = dev_serial_number demo_device, rlr_IsLocked = True\<rparr>)
           demo_store)))
       = CheckLockResponse True
   \<and> response_of (checkRemoteLock demo_env MethodGet (dev_serial_number demo_device)
        (store_of (unlockDevice demo_env MethodPost
           (Some \<lparr>ur_SerialNumber = dev_serial_number demo_device\<rparr>)
           (store_of (setRemoteLock demo_env MethodPost
              (Some \<lparr>rlr_SerialNumber = dev_serial_number demo_device, rlr_IsLocked = True\<rparr>)
              demo_store)))))
       = CheckLockResponse False"
proof -
  have h1: "wf_store demo_store" by (rule wf_demo_store)
  have h2: "demo_device \<in> set (devices demo_store)" by (simp add: demo_store_eq demo_device_eq)
  have h3: "dev_serial_number demo_device \<noteq> []" by (simp add: demo_device_eq)
  have h4: "remote_lock_row demo_env \<in> set (remote_locks demo_store)"
    by (simp add: demo_store_eq demo_remote_lock_eq)
  have h5: "rl_device_id (remote_lock_row demo_env) = dev_id demo_device"
    by (simp add: demo_remote_lock_eq demo_device_eq)
  have h6: "\<not> db_error demo_env SelectDevice" "\<not> db_error demo_env UpdateRemoteLock"
    "\<not> db_error demo_env SelectRemoteLock" "\<not> db_error demo_env UpdateDeviceUnlock"
    by (simp_all add: demo_env_def)
  from lock_then_unlock_flags [OF h1 h2 h3 h4 h5 h6(1,2) h6(1,3) h6(1,4) h6(1,3) refl refl]
    h1 h2 h3 h4 h5 h6
  show ?thesis by simp
qed

text \<open>Three runs. A device registered with an empty serial number: remote lock is set, and
  check-lock answers 400. The device of the concrete run, locked, then unlocked while the store
  fails the update of the remote lock row: the unlock answers the success and check-lock still
  answers true. The device of the concrete run registered while the store failed the insert of
  the remote lock row: remote lock is set with success, and check-lock answers 404.\<close>

theorem lock_then_unlock_flags_counterexample:
  "succeeded (response_of (registerDevice demo_env MethodPost (Some unnamed_request) empty_store))
   \<and> succeeded (response_of (setRemoteLock demo_env MethodPost
        (Some \<lparr>rlr_SerialNumber = [], rlr_IsLocked = True\<rparr>) unnamed_store))
   \<and> response_of (checkRemoteLock demo_env MethodGet []
        (store_of (setRemoteLock demo_env MethodPost
           (Some \<lparr>rlr_SerialNumber = [], rlr_IsLocked = True\<rparr>) unnamed_store)))
       = HttpError 400 ''serial_number parameter is required''
   \<and> succeeded (response_of (unlockDevice (failing_env UpdateRemoteLock) MethodPost
        (Some \<lparr>ur_SerialNumber = ''TV1''\<rparr>)
        (store_of (setRemoteLock demo_env MethodPost
           (Some \<lparr>rlr_SerialNumber = ''TV1'', rlr_IsLocked = True\<rparr>) demo_store))))
   \<and> response_of (checkRemoteLock demo_env MethodGet ''TV1''
        (store_of (unlockDevice (failing_env UpdateRemoteLock) MethodPost
           (Some \<lparr>ur_SerialNumber = ''TV1''\<rparr>)
           (store_of (setRemoteLock demo_env MethodPost
              (Some \<lparr>rlr_SerialNumber = ''TV1'', rlr_IsLocked = True\<rparr>) demo_store)))))
       = CheckLockResponse True
   \<and> succeeded (response_of (setRemoteLock demo_env MethodPost
        (Some \<lparr>rlr_SerialNumber = ''TV1'', rlr_IsLocked = True\<rparr>)
        (store_of (registerDevice (failing_env InsertRemoteLock) MethodPost (Some demo_request)
           empty_store))))
   \<and> response_of (checkRemoteLock demo_env MethodGet ''TV1''
        (store_of (setRemoteLock demo_env MethodPost
           (Some \<lparr>rlr_SerialNumber = ''TV1'', rlr_IsLocked = True\<rparr>)
           (store_of (registerDevice (failing_env InsertRemoteLock) MethodPost (Some demo_request)
              empty_store)))))
       = HttpError 404 ''Remote lock not found''"
proof -
  have a: "registerDevice demo_env MethodPost (Some unnamed_request) empty_store =
      (RegisterResponse True ''Device registered successfully''
       ''d0000000-0000-4000-8000-000000000000''
       [\<lparr>Term = 1, LockDate = ''2024-01-16'', ActivationCode = ''c0000001''\<rparr>,
        \<lparr>Term = 2, LockDate = ''2024-01-31'', ActivationCode = ''c0000002''\<rparr>,
        \<lparr>Term = 3, LockDate = ''2024-02-15'', ActivationCode = ''c0000003''\<rparr>],
       [], demo_store\<lparr>devices := [demo_device\<lparr>dev_serial_number := []\<rparr>]\<rparr>)"
    unfolding demo_store_eq demo_device_eq unnamed_request_def
    by (simp add: register_simps)
  have s: "unnamed_store = demo_store\<lparr>devices := [demo_device\<lparr>dev_serial_number := []\<rparr>]\<rparr>"
    by (simp add: unnamed_store_def a store_of_def)
  have 1: "succeeded (response_of
      (registerDevice demo_env MethodPost (Some unnamed_request) empty_store))"
    by (simp add: a response_of_def)
  have 2: "succeeded (response_of (setRemoteLock demo_env MethodPost
        (Some \<lparr>rlr_SerialNumber = [], rlr_IsLocked = True\<rparr>) unnamed_store))"
    by (simp add: s demo_store_eq demo_device_eq lock_simps)
  have 3: "response_of (checkRemoteLock demo_env MethodGet []
        (store_of (setRemoteLock demo_env MethodPost
           (Some \<lparr>rlr_SerialNumber = [], rlr_IsLocked = True\<rparr>) unnamed_store)))
       = HttpError 400 ''serial_number parameter is required''"
    by (simp add: checkRemoteLock_def MethodGet_def response_of_def StatusBadRequest_def)
  have 4: "succeeded (response_of (unlockDevice (failing_env UpdateRemoteLock) MethodPost
        (Some \<lparr>ur_SerialNumber = ''TV1''\<rparr>)
        (store_of (setRemoteLock demo_env MethodPost
           (Some \<lparr>rlr_SerialNumber = ''TV1'', rlr_IsLocked = True\<rparr>) demo_store))))"
    by (simp add: demo_store_eq lock_simps)
  have 5: "response_of (checkRemoteLock demo_env MethodGet ''TV1''
        (store_of (unlockDevice (failing_env UpdateRemoteLock) MethodPost
           (Some \<lparr>ur_SerialNumber = ''TV1''\<rparr>)
           (store_of (setRemoteLock demo_env MethodPost
              (Some \<lparr>rlr_SerialNumber = ''TV1'', rlr_IsLocked = True\<rparr>) demo_store)))))
       = CheckLockResponse True"
    by (simp add: demo_store_eq lock_simps)
  have 6: "succeeded (response_of (setRemoteLock demo_env MethodPost
        (Some \<lparr>rlr_SerialNumber = ''TV1'', rlr_IsLocked = True\<rparr>)
        (store_of (registerDevice (failing_env InsertRemoteLock) MethodPost (Some demo_request)
           empty_store))))"
    unfolding demo_registration_remote_lock_fails
    by (simp add: demo_store_eq lock_simps)
  have 7: "response_of (checkRemoteLock demo_env MethodGet ''TV1''
        (store_of (setRemoteLock demo_env MethodPost
           (Some \<lparr>rlr_SerialNumber = ''TV1'', rlr_IsLocked = True\<rparr>)
           (store_of (registerDevice (failing_env InsertRemoteLock) MethodPost (Some demo_request)
              empty_store)))))
       = HttpError 404 ''Remote lock not found''"
    unfolding demo_registration_remote_lock_fails
    by (simp add: demo_store_eq lock_simps StatusNotFound_def)
  from 1 2 3 4 5 6 7 show ?thesis by blast
qed

section \<open>The two copies of the lock flag\<close>

lemma filter_map_other:
  assumes "k \<noteq> k'" and "\<And>x. f (g x) = f x"
  shows "filter (\<lambda>y. f y = k) (map (\<lambda>y. if f y = k' then g y else y) xs) = filter (\<lambda>y. f y = k) xs"
  by (induction xs) (simp_all add: assms)

lemma in_sync_devices_update:
  assumes "in_sync s" and "\<And>d. dev_id (g d) = dev_id d" and "\<And>d. dev_is_locked (g d) = dev_is_locked d"
    and "remote_locks s' = remote_locks s"
    and "devices s' = map (\<lambda>d. if c d then g d else d) (devices s)"
  shows "in_sync s'"
  using assms(1) unfolding in_sync_def remote_locks_of_def assms(4,5)
  by (auto simp: assms(2,3))

lemma in_sync_locked_store:
  assumes "in_sync s"
  shows "in_sync (locked_store b now did s)"
  unfolding in_sync_def
proof
  fix d' assume "d' \<in> set (devices (locked_store b now did s))"
  then obtain d where d: "d \<in> set (devices s)"
    and d': "d' = (if dev_id d = did then d\<lparr>dev_is_locked := b\<rparr> else d)"
    by (auto simp: locked_store_def)
  from assms d have sync: "map rl_is_locked (remote_locks_of s (dev_id d)) = [dev_is_locked d]"
    by (simp add: in_sync_def)
  show "map rl_is_locked (remote_locks_of (locked_store b now did s) (dev_id d')) = [dev_is_locked d']"
  proof (cases "dev_id d = did")
    case True
    from sync obtain r where "remote_locks_of s (dev_id d) = [r]"
      by (cases "remote_locks_of s (dev_id d)") auto
    with True d' show ?thesis
      by (simp add: locked_store_rows)
  next
    case False
    then have "remote_locks_of (locked_store b now did s) (dev_id d) = remote_locks_of s (dev_id d)"
      unfolding remote_locks_of_def locked_store_def
      by (simp add: filter_map_other)
    with False d' sync show ?thesis by simp
  qed
qed

lemma in_sync_unlocked_store:
  assumes "in_sync s"
  shows "in_sync (unlocked_store now did s)"
  unfolding in_sync_def
proof
  fix d' assume "d' \<in> set (devices (unlocked_store now did s))"
  then obtain d where d: "d \<in> set (devices s)"
    and d': "d' = (if dev_id d = did then d\<lparr>dev_is_locked := False, dev_is_active := False\<rparr> else d)"
    by (auto simp: unlocked_store_def)
  from assms d have sync: "map rl_is_locked (remote_locks_of s (dev_id d)) = [dev_is_locked d]"
    by (simp add: in_sync_def)
  show "map rl_is_locked (remote_locks_of (unlocked_store now did s) (dev_id d')) = [dev_is_locked d']"
  proof (cases "dev_id d = did")
    case True
    from sync obtain r where "remote_locks_of s (dev_id d) = [r]"
      by (cases "remote_locks_of s (dev_id d)") auto
    with True d' show ?thesis
      by (simp add: unlocked_store_rows)
  next
    case False
    then have "remote_locks_of (unlocked_store now did s) (dev_id d) = remote_locks_of s (dev_id d)"
      unfolding remote_locks_of_def unlocked_store_def
      by (simp add: filter_map_other)
    with False d' sync show ?thesis by simp
  qed
qed

lemma in_sync_activateDevice_main:
  "in_sync s \<Longrightarrow> in_sync (store_of (activateDevice_main e m body s))"
  unfolding activateDevice_main_def store_of_def Let_def db_Exec_def
    update_activation_code_used_def update_device_active_def
  by (auto split: option.splits if_splits
        intro: in_sync_devices_update [where g = "\<lambda>d. d\<lparr>dev_is_active := True\<rparr>"]
        simp: in_sync_def remote_locks_of_def)

lemma in_sync_activateDevice:
  "in_sync s \<Longrightarrow> in_sync (store_of (activateDevice e m body s))"
  unfolding activateDevice_def store_of_def Let_def db_Exec_def
    update_activation_code_used_def update_device_active_def
  by (auto split: option.splits if_splits
        intro: in_sync_devices_update [where g = "\<lambda>d. d\<lparr>dev_is_active := True\<rparr>"]
        simp: in_sync_def remote_locks_of_def)

lemma in_sync_checkActivation:
  "in_sync s \<Longrightarrow> in_sync (store_of (checkActivation e m sn s))"
  unfolding checkActivation_def store_of_def Let_def db_Exec_def update_device_active_def
  by (auto split: option.splits if_splits
        intro: in_sync_devices_update [where g = "\<lambda>d. d\<lparr>dev_is_active := True\<rparr>"]
        simp: in_sync_def remote_locks_of_def)

lemma in_sync_registered:
  assumes "wf_store s" and "in_sync s" and "lock_clean (registerDevice e m body s)"
  shows "in_sync (store_of (registerDevice e m body s))"
proof -
  let ?r = "registerDevice e m body s"
  let ?did = "uuid_New e DeviceID"
  from assms(3) have ok: "succeeded (response_of ?r)"
    and quiet: "\<not> list_ex lock_error_line (log_of ?r)"
    by (auto simp: lock_clean_def)
  from registerDevice_result [OF assms(1) ok] obtain req start where
    fresh: "?did \<notin> set (map dev_id (devices s))"
    and res: "?r = (RegisterResponse True ''Device registered successfully'' ?did
                (map (term_entry e (calculateLockDates start (TermDuration req) (EMITerm req)))
                   [1..EMITerm req]),
              if remote_lock_taken e s then [] else [LogError ''Error inserting remote lock''],
              if remote_lock_taken e s
              then (registered_store e req start s)
                     \<lparr>remote_locks := remote_locks s @ [remote_lock_row e]\<rparr>
              else registered_store e req start s)"
    by blast
  from quiet have taken: "remote_lock_taken e s"
    by (subst (asm) res) (simp add: log_of_def split: if_splits)
  from fresh have other: "\<forall>d \<in> set (devices s). dev_id d \<noteq> ?did"
    by (rule notin_map)
  have dev: "devices (store_of ?r) = devices s @ [device_row e req start]"
    and rl: "remote_locks (store_of ?r) = remote_locks s @ [remote_lock_row e]"
    by (subst res, simp add: taken store_of_def registered_store_def)+
  show ?thesis
    unfolding in_sync_def dev
  proof
    fix d assume "d \<in> set (devices s @ [device_row e req start])"
    then consider (old) "d \<in> set (devices s)" | (new) "d = device_row e req start"
      by auto
    then show "map rl_is_locked (remote_locks_of (store_of ?r) (dev_id d)) = [dev_is_locked d]"
    proof cases
      case old
      with other have "dev_id d \<noteq> ?did" by blast
      then have "remote_locks_of (store_of ?r) (dev_id d) = remote_locks_of s (dev_id d)"
        by (simp add: remote_locks_of_def rl remote_lock_row_def)
      with assms(2) old show ?thesis by (simp add: in_sync_def)
    next
      case new
      have "remote_locks_of (store_of ?r) ?did = [remote_lock_row e]"
        using fresh_device_no_rows(3) [OF assms(1) fresh]
        by (simp add: remote_locks_of_def rl remote_lock_row_def)
      with new show ?thesis by (simp add: device_row_def remote_lock_row_def)
    qed
  qed
qed

lemma setRemoteLock_lock_clean:
  assumes "lock_clean (setRemoteLock e m body s)"
  shows "\<exists>b did. store_of (setRemoteLock e m body s) = locked_store b (time_Now e) did s"
proof -
  from assms have ok: "succeeded (response_of (setRemoteLock e m body s))"
    and quiet: "\<not> list_ex lock_error_line (log_of (setRemoteLock e m body s))"
    by (simp_all add: lock_clean_def)
  from ok have m: "m = MethodPost"
    by (auto simp: setRemoteLock_def response_of_def split: if_splits)
  from ok m obtain req where body: "body = Some req"
    by (cases body) (auto simp: setRemoteLock_def response_of_def)
  from ok m body obtain row where
    row: "db_QueryRow e SelectDevice (select_device s (rlr_SerialNumber req)) = Some row"
    by (cases "db_QueryRow e SelectDevice (select_device s (rlr_SerialNumber req))")
       (auto simp: setRemoteLock_def response_of_def)
  from ok m body row have e1: "\<not> db_error e UpdateRemoteLock"
    by (auto simp: setRemoteLock_def response_of_def db_Exec_def Let_def split: if_splits)
  from quiet m body row e1 have e2: "\<not> db_error e UpdateDeviceLocked"
    by (auto simp: setRemoteLock_def log_of_def db_Exec_def Let_def update_remote_lock_def
          split: if_splits)
  have "store_of (setRemoteLock e m body s) = locked_store (rlr_IsLocked req) (time_Now e) (dev_id row) s"
    using m body row e1 e2
    by (simp add: setRemoteLock_def store_of_def db_Exec_def Let_def update_remote_lock_def
          update_device_locked_def locked_store_def)
  then show ?thesis by blast
qed

lemma unlockDevice_lock_clean:
  assumes "lock_clean (unlockDevice e m body s)"
  shows "\<exists>did. store_of (unlockDevice e m body s) = unlocked_store (time_Now e) did s"
proof -
  from assms have ok: "succeeded (response_of (unlockDevice e m body s))"
    and quiet: "\<not> list_ex lock_error_line (log_of (unlockDevice e m body s))"
    by (simp_all add: lock_clean_def)
  from ok have m: "m = MethodPost"
    by (auto simp: unlockDevice_def response_of_def split: if_splits)
  from ok m obtain req where body: "body = Some req"
    by (cases body) (auto simp: unlockDevice_def response_of_def)
  from ok m body obtain row where
    row: "db_QueryRow e SelectDevice (select_device s (ur_SerialNumber req)) = Some row"
    by (cases "db_QueryRow e SelectDevice (select_device s (ur_SerialNumber req))")
       (auto simp: unlockDevice_def response_of_def)
  from ok m body row have e1: "\<not> db_error e UpdateDeviceUnlock"
    by (auto simp: unlockDevice_def response_of_def db_Exec_def Let_def split: if_splits)
  from quiet m body row e1 have e2: "\<not> db_error e UpdateRemoteLock"
    by (auto simp: unlockDevice_def log_of_def db_Exec_def Let_def update_device_unlock_def
          split: if_splits)
  have "store_of (unlockDevice e m body s) = unlocked_store (time_Now e) (dev_id row) s"
    using m body row e1 e2
    by (simp add: unlockDevice_def store_of_def db_Exec_def Let_def update_remote_lock_def
          update_device_unlock_def unlocked_store_def)
  then show ?thesis by blast
qed

lemma in_sync_serve:
  assumes "wf_store s" and "in_sync s" and "lock_clean (serve v e r s)"
  shows "in_sync (store_of (serve v e r s))"
proof (cases r)
  case (Register body)
  with assms show ?thesis by (simp add: in_sync_registered)
next
  case (Activate body)
  with assms(2) show ?thesis
    by (cases v) (simp_all add: in_sync_activateDevice_main in_sync_activateDevice)
next
  case (Check sn)
  with assms(2) show ?thesis
    by (cases v) (simp_all add: checkActivation_main_steps in_sync_checkActivation)
next
  case (SetLock body)
  with assms(3) obtain b did where
    "store_of (serve v e r s) = locked_store b (time_Now e) did s"
    using setRemoteLock_lock_clean [of e MethodPost body s] by auto
  with assms(2) show ?thesis by (simp add: in_sync_locked_store)
next
  case (CheckLock sn)
  with assms(2) show ?thesis by (simp add: checkRemoteLock_steps)
next
  case (Unlock body)
  with assms(3) obtain did where
    "store_of (serve v e r s) = unlocked_store (time_Now e) did s"
    using unlockDevice_lock_clean [of e MethodPost body s] by auto
  with assms(2) show ?thesis by (simp add: in_sync_unlocked_store)
next
  case Health
  with assms(2) show ?thesis by (simp add: healthCheck_def store_of_def)
qed

lemma in_sync_run:
  "wf_store s \<Longrightarrow> in_sync s \<Longrightarrow> all_lock_clean v trace s \<Longrightarrow>
   wf_store (run v trace s) \<and> in_sync (run v trace s)"
proof (induction trace arbitrary: s)
  case Nil
  then show ?case by simp
next
  case (Cons step trace)
  obtain e r where step: "step = (e, r)" by (cases step)
  from Cons.prems(3) step have c: "lock_clean (serve v e r s)"
    and rest: "all_lock_clean v trace (store_of (serve v e r s))"
    by simp_all
  have "wf_store (store_of (serve v e r s))"
    by (rule wf_serve [OF Cons.prems(1)])
  moreover have "in_sync (store_of (serve v e r s))"
    by (rule in_sync_serve [OF Cons.prems(1,2) c])
  ultimately show ?case
    using Cons.IH [OF _ _ rest] step by (simp add: store_of_def)
qed

text \<open>
  C8, as the code has it. From the empty store, after every sequence of requests to either
  server each of which reports success and logs no failed write of a lock flag (the insert of the
  remote lock row in a registration, the update of the device row in remote-lock-set, the update
  of the remote lock row in unlock), every device has exactly one remote lock row and the
  \<^verbatim>\<open>is_locked\<close> flag of the device row equals the one of that row (and the store respects the keys
  of the schema).
\<close>

theorem lock_flags_stay_in_sync:
  assumes "all_lock_clean v trace empty_store"
  shows "in_sync (run v trace empty_store) \<and> wf_store (run v trace empty_store)"
proof -
  have "in_sync empty_store"
    by (simp add: in_sync_def empty_store_def)
  with in_sync_run [OF wf_empty_store _ assms] show ?thesis by simp
qed

lemma demo_run:
  "run v demo_trace empty_store =
     demo_store\<lparr>devices := [demo_device\<lparr>dev_is_locked := True\<rparr>],
                remote_locks := [(remote_lock_row demo_env)\<lparr>rl_is_locked := True\<rparr>]\<rparr>"
  "all_lock_clean v demo_trace empty_store"
  unfolding demo_trace_def demo_device_eq demo_remote_lock_eq
  by (simp_all add: demo_registration lock_clean_def)
     (simp_all add: demo_store_eq lock_simps)

theorem lock_flags_stay_in_sync_witness:
  "all_lock_clean HandlerServer demo_trace empty_store
   \<and> in_sync (run HandlerServer demo_trace empty_store)
   \<and> map (\<lambda>d. (dev_serial_number d, dev_is_active d, dev_is_locked d))
        (devices (run HandlerServer demo_trace empty_store)) = [(''TV1'', False, True)]
   \<and> map rl_is_locked (remote_locks (run HandlerServer demo_trace empty_store)) = [True]"
proof -
  have h: "all_lock_clean HandlerServer demo_trace empty_store" by (rule demo_run(2))
  have d: "map (\<lambda>d. (dev_serial_number d, dev_is_active d, dev_is_locked d))
        (devices (run HandlerServer demo_trace empty_store)) = [(''TV1'', False, True)]"
    by (simp add: demo_run(1) demo_device_eq)
  have r: "map rl_is_locked (remote_locks (run HandlerServer demo_trace empty_store)) = [True]"
    by (simp add: demo_run(1))
  from lock_flags_stay_in_sync [OF h] h d r show ?thesis by blast
qed

text \<open>Three runs from the empty store in which every request reports success. The device of
  the concrete run is registered and locked while the store fails the update of the device row:
  the remote lock row is locked and the device row is not. It is registered, locked, and unlocked
  while the store fails the update of the remote lock row: the remote lock row is locked and the
  device row is not. It is registered while the store fails the insert of the remote lock row:
  it has no remote lock row.\<close>

theorem lock_flags_stay_in_sync_counterexample:
  "succeeded (response_of (serve MainServer demo_env (Register (Some demo_request)) empty_store))
   \<and> succeeded (response_of (serve MainServer (failing_env UpdateDeviceLocked)
        (SetLock (Some \<lparr>rlr_SerialNumber = ''TV1'', rlr_IsLocked = True\<rparr>)) demo_store))
   \<and> map dev_is_locked (devices (run MainServer
        [(demo_env, Register (Some demo_request)),
         (failing_env UpdateDeviceLocked,
          SetLock (Some \<lparr>rlr_SerialNumber = ''TV1'', rlr_IsLocked = True\<rparr>))] empty_store)) = [False]
   \<and> map rl_is_locked (remote_locks (run MainServer
        [(demo_env, Register (Some demo_request)),
         (failing_env UpdateDeviceLocked,
          SetLock (Some \<lparr>rlr_SerialNumber = ''TV1'', rlr_IsLocked = True\<rparr>))] empty_store)) = [True]
   \<and> \<not> in_sync (run MainServer
        [(demo_env, Register (Some demo_request)),
         (failing_env UpdateDeviceLocked,
          SetLock (Some \<lparr>rlr_SerialNumber = ''TV1'', rlr_IsLocked = True\<rparr>))] empty_store)
   \<and> succeeded (response_of (serve MainServer (failing_env UpdateRemoteLock)
        (Unlock (Some \<lparr>ur_SerialNumber = ''TV1''\<rparr>))
        (store_of (serve MainServer demo_env
           (SetLock (Some \<lparr>rlr_SerialNumber = ''TV1'', rlr_IsLocked = True\<rparr>)) demo_store))))
   \<and> \<not> in_sync (run MainServer
        [(demo_env, Register (Some demo_request)),
         (demo_env, SetLock (Some \<lparr>rlr_SerialNumber = ''TV1'', rlr_IsLocked = True\<rparr>)),
         (failing_env UpdateRemoteLock, Unlock (Some \<lparr>ur_SerialNumber = ''TV1''\<rparr>))] empty_store)
   \<and> succeeded (response_of (serve MainServer (failing_env InsertRemoteLock)
        (Register (Some demo_request)) empty_store))
   \<and> \<not> in_sync (run MainServer
        [(failing_env InsertRemoteLock, Register (Some demo_request))] empty_store)"
proof -
  have reg: "snd (snd (registerDevice demo_env MethodPost (Some demo_request) empty_store))
      = demo_store"
    by (simp add: demo_store_def store_of_def)
  have 1: "succeeded (response_of
      (serve MainServer demo_env (Register (Some demo_request)) empty_store))"
    by (simp add: demo_registration response_of_def)
  have 2: "succeeded (response_of (serve MainServer (failing_env UpdateDeviceLocked)
        (SetLock (Some \<lparr>rlr_SerialNumber = ''TV1'', rlr_IsLocked = True\<rparr>)) demo_store))"
    by (simp add: demo_store_eq lock_simps)
  have run1: "run MainServer
        [(demo_env, Register (Some demo_request)),
         (failing_env UpdateDeviceLocked,
          SetLock (Some \<lparr>rlr_SerialNumber = ''TV1'', rlr_IsLocked = True\<rparr>))] empty_store
      = demo_store\<lparr>remote_locks := [(remote_lock_row demo_env)\<lparr>rl_is_locked := True\<rparr>]\<rparr>"
    unfolding demo_remote_lock_eq
    by (simp add: reg) (simp add: demo_store_eq lock_simps)
  have 3: "succeeded (response_of (serve MainServer (failing_env UpdateRemoteLock)
        (Unlock (Some \<lparr>ur_SerialNumber = ''TV1''\<rparr>))
        (store_of (serve MainServer demo_env
           (SetLock (Some \<lparr>rlr_SerialNumber = ''TV1'', rlr_IsLocked = True\<rparr>)) demo_store))))"
    by (simp add: demo_store_eq lock_simps)
  have run2: "run MainServer
        [(demo_env, Register (Some demo_request)),
         (demo_env, SetLock (Some \<lparr>rlr_SerialNumber = ''TV1'', rlr_IsLocked = True\<rparr>)),
         (failing_env UpdateRemoteLock, Unlock (Some \<lparr>ur_SerialNumber = ''TV1''\<rparr>))] empty_store
      = demo_store\<lparr>remote_locks := [(remote_lock_row demo_env)\<lparr>rl_is_locked := True\<rparr>]\<rparr>"
    unfolding demo_remote_lock_eq
    by (simp add: reg) (simp add: demo_store_eq lock_simps)
  have 4: "succeeded (response_of (serve MainServer (failing_env InsertRemoteLock)
        (Register (Some demo_request)) empty_store))"
    by (simp add: demo_registration_remote_lock_fails response_of_def)
  have run3: "run MainServer
        [(failing_env InsertRemoteLock, Register (Some demo_request))] empty_store
      = demo_store\<lparr>remote_locks := []\<rparr>"
    by (simp add: demo_registration_remote_lock_fails)
  have 5: "\<not> in_sync (demo_store\<lparr>remote_locks := [(remote_lock_row demo_env)\<lparr>rl_is_locked := True\<rparr>]\<rparr>)"
    "\<not> in_sync (demo_store\<lparr>remote_locks := []\<rparr>)"
    by (simp_all add: in_sync_def remote_locks_of_def demo_store_eq demo_remote_lock_eq)
  have 6: "map dev_is_locked (devices
       (demo_store\<lparr>remote_locks := [(remote_lock_row demo_env)\<lparr>rl_is_locked := True\<rparr>]\<rparr>)) = [False]"
    "map rl_is_locked (remote_locks
       (demo_store\<lparr>remote_locks := [(remote_lock_row demo_env)\<lparr>rl_is_locked := True\<rparr>]\<rparr>)) = [True]"
    by (simp_all add: demo_store_eq)
  from 1 2 3 4 5 6 show ?thesis
    unfolding run1 run2 run3 by blast
qed

section \<open>Errors of the store\<close>

lemma registerDevice_must_succeed:
  assumes "c \<in> set (must_succeed (Register body))" and "db_error e c"
  shows "\<not> succeeded (response_of (registerDevice e m body s))"
proof
  assume ok: "succeeded (response_of (registerDevice e m body s))"
  from registerDevice_succeeded [OF ok] obtain req where
    body: "body = Some req" and dev: "\<not> db_error e InsertDevice"
    and rounds: "\<forall>k \<in> set [1..EMITerm req].
                   \<not> db_error e (InsertActivationCode k) \<and> \<not> db_error e (InsertLockDate k)"
    by blast
  from assms(1) body consider "c = InsertDevice"
    | k where "k \<in> set [1..EMITerm req]" "c = InsertActivationCode k \<or> c = InsertLockDate k"
    by auto
  then show False
  proof cases
    case 1
    with dev assms(2) show False by simp
  next
    case 2
    with rounds assms(2) show False by blast
  qed
qed

lemma activateDevice_must_succeed:
  assumes "db_error e SelectActivationCode \<or> db_error e UpdateActivationCode"
  shows "\<not> succeeded (response_of (activateDevice e m body s))"
    and "\<not> succeeded (response_of (activateDevice_main e m body s))"
  using assms
  by (auto simp: activateDevice_def activateDevice_main_def response_of_def db_QueryRow_def
        db_Exec_def Let_def split: option.splits)

lemma checkActivation_must_succeed:
  assumes "db_error e SelectDevice"
  shows "\<not> succeeded (response_of (checkActivation e m sn s))"
    and "\<not> succeeded (response_of (checkActivation_main e m sn s))"
  using assms
  by (auto simp: checkActivation_def checkActivation_main_def response_of_def db_QueryRow_def)

lemma setRemoteLock_must_succeed:
  assumes "db_error e SelectDevice \<or> db_error e UpdateRemoteLock"
  shows "\<not> succeeded (response_of (setRemoteLock e m body s))"
  using assms
  by (auto simp: setRemoteLock_def response_of_def db_QueryRow_def db_Exec_def Let_def
        split: option.splits)

lemma checkRemoteLock_must_succeed:
  assumes "db_error e SelectDevice \<or> db_error e SelectRemoteLock"
  shows "\<not> succeeded (response_of (checkRemoteLock e m sn s))"
  using assms
  by (auto simp: checkRemoteLock_def response_of_def db_QueryRow_def split: option.splits)

lemma unlockDevice_must_succeed:
  assumes "db_error e SelectDevice \<or> db_error e UpdateDeviceUnlock"
  shows "\<not> succeeded (response_of (unlockDevice e m body s))"
  using assms
  by (auto simp: unlockDevice_def response_of_def db_QueryRow_def db_Exec_def Let_def
        split: option.splits)

subsection \<open>Errors that are logged or ignored\<close>

lemma without_error_simps:
  "db_error (without_error e c) x = (x \<noteq> c \<and> db_error e x)"
  "uuid_New (without_error e c) = uuid_New e"
  "time_Now (without_error e c) = time_Now e"
  "map_order (without_error e c) = map_order e"
  by (simp_all add: without_error_def)

text \<open>The loop of the registration takes from outside the identifiers, the time and the errors
  of its own inserts.\<close>

lemma registerDevice_loop_cong:
  assumes "uuid_New e' = uuid_New e" and "time_Now e' = time_Now e"
    and "\<And>k. db_error e' (InsertActivationCode k) = db_error e (InsertActivationCode k)"
    and "\<And>k. db_error e' (InsertLockDate k) = db_error e (InsertLockDate k)"
  shows "registerDevice_loop e' did n lds i acc s = registerDevice_loop e did n lds i acc s"
proof (induction "nat (n + 1 - i)" arbitrary: i acc s)
  case 0
  then have "\<not> i \<le> n" by simp
  then show ?case by (simp add: registerDevice_loop.simps)
next
  case (Suc k)
  then have le: "i \<le> n" and k: "k = nat (n + 1 - (i + 1))" by simp_all
  note ih = Suc.hyps(1) [OF k]
  show ?case
    unfolding registerDevice_loop.simps [of e' did n lds i acc s]
      registerDevice_loop.simps [of e did n lds i acc s]
    by (simp add: le ih assms db_Exec_def generateActivationCode_def Let_def
          split: option.splits)
qed

lemma registerDevice_remote_lock_error:
  "response_of (registerDevice e m body s) =
   response_of (registerDevice (without_error e InsertRemoteLock) m body s)"
proof -
  have loop: "\<And>did n lds i acc s. registerDevice_loop (without_error e InsertRemoteLock) did n lds i acc s
      = registerDevice_loop e did n lds i acc s"
    by (rule registerDevice_loop_cong) (simp_all add: without_error_simps)
  show ?thesis
    unfolding registerDevice_def response_of_def Let_def loop
    by (simp add: db_QueryRow_def db_Exec_def without_error_simps
          split: option.splits sum.splits)
qed

lemma registerDevice_existence_check:
  assumes "list_all (\<lambda>d. dev_serial_number d \<noteq> SerialNumber req) (devices s)"
  shows "registerDevice e m (Some req) s = registerDevice (without_error e SelectDevice) m (Some req) s"
proof -
  have loop: "\<And>did n lds i acc s. registerDevice_loop (without_error e SelectDevice) did n lds i acc s
      = registerDevice_loop e did n lds i acc s"
    by (rule registerDevice_loop_cong) (simp_all add: without_error_simps)
  from assms have sel: "select_device s (SerialNumber req) = None"
    by (auto simp: select_device_def find_None_iff list_all_iff)
  have q: "db_QueryRow (without_error e SelectDevice) SelectDevice (select_device s (SerialNumber req))
      = db_QueryRow e SelectDevice (select_device s (SerialNumber req))"
    by (simp add: db_QueryRow_def sel)
  have x: "\<And>stmt t. db_Exec (without_error e SelectDevice) InsertDevice stmt t
      = db_Exec e InsertDevice stmt t"
    "\<And>stmt t. db_Exec (without_error e SelectDevice) InsertRemoteLock stmt t
      = db_Exec e InsertRemoteLock stmt t"
    by (simp_all add: db_Exec_def without_error_simps)
  show ?thesis
    unfolding registerDevice_def Let_def option.case loop q x without_error_simps
    by (rule refl)
qed

lemma registerDevice_existing:
  assumes "list_ex (\<lambda>d. dev_serial_number d = SerialNumber req) (devices s)"
  shows "\<not> succeeded (response_of (registerDevice e m (Some req) s))"
proof -
  from assms have "select_device s (SerialNumber req) \<noteq> None"
    by (auto simp: select_device_def find_None_iff list_ex_iff)
  moreover from assms have "insert_device d s = None" if "dev_serial_number d = SerialNumber req" for d
    using that by (auto simp: insert_device_def list_ex_iff)
  ultimately show ?thesis
    unfolding registerDevice_def response_of_def Let_def
    by (auto simp: db_QueryRow_def db_Exec_def split: option.splits)
qed

lemma deviceTerms_cong:
  assumes "activation_codes s' = activation_codes s" and "lock_dates s' = lock_dates s"
    and "map_order e' = map_order e"
    and "db_error e' QueryActivationCodes = db_error e QueryActivationCodes"
    and "db_error e' QueryLockDates = db_error e QueryLockDates"
  shows "deviceTerms e' s' did = deviceTerms e s did"
    and "deviceTerms_main e' s' did = deviceTerms_main e s did"
  by (simp_all add: deviceTerms_def deviceTerms_main_def db_Query_def query_codes_def
        query_term_numbers_def query_lock_dates_def assms)

lemma activateDevice_active_error:
  "response_of (activateDevice e m body s) =
   response_of (activateDevice (without_error e UpdateDeviceActive) m body s)"
  "response_of (activateDevice_main e m body s) =
   response_of (activateDevice_main (without_error e UpdateDeviceActive) m body s)"
  unfolding activateDevice_def activateDevice_main_def response_of_def Let_def
  by (auto simp: db_QueryRow_def db_Exec_def without_error_simps update_device_active_def
        update_activation_code_used_def
        intro!: deviceTerms_cong split: option.splits)

lemma setRemoteLock_locked_error:
  "response_of (setRemoteLock e m body s) =
   response_of (setRemoteLock (without_error e UpdateDeviceLocked) m body s)"
  unfolding setRemoteLock_def response_of_def Let_def
  by (auto simp: db_QueryRow_def db_Exec_def without_error_simps update_device_locked_def
        update_remote_lock_def split: option.splits)

lemma unlockDevice_remote_lock_error:
  "response_of (unlockDevice e m body s) =
   response_of (unlockDevice (without_error e UpdateRemoteLock) m body s)"
  unfolding unlockDevice_def response_of_def Let_def
  by (auto simp: db_QueryRow_def db_Exec_def without_error_simps update_device_unlock_def
        update_remote_lock_def split: option.splits)

lemma swallowed_errors_logged:
  "succeeded (response_of (registerDevice e m body s)) \<Longrightarrow> db_error e InsertRemoteLock \<Longrightarrow>
     log_of (registerDevice e m body s) = [LogError ''Error inserting remote lock'']"
  "succeeded (response_of (activateDevice e m a s)) \<Longrightarrow> db_error e UpdateDeviceActive \<Longrightarrow>
     log_of (activateDevice e m a s) = [LogError ''Error activating device'']"
  "succeeded (response_of (activateDevice_main e m a s)) \<Longrightarrow> db_error e UpdateDeviceActive \<Longrightarrow>
     log_of (activateDevice_main e m a s) = [LogError ''Error activating device'']"
  "succeeded (response_of (setRemoteLock e m l s)) \<Longrightarrow> db_error e UpdateDeviceLocked \<Longrightarrow>
     log_of (setRemoteLock e m l s) = [LogError ''Error updating device lock'']"
  "succeeded (response_of (unlockDevice e m u s)) \<Longrightarrow> db_error e UpdateRemoteLock \<Longrightarrow>
     log_of (unlockDevice e m u s) = [LogError ''Error updating remote lock'']"
proof -
  assume ok: "succeeded (response_of (registerDevice e m body s))" and err: "db_error e InsertRemoteLock"
  from registerDevice_success_form [OF ok] err
  show "log_of (registerDevice e m body s) = [LogError ''Error inserting remote lock'']"
    by (auto simp: db_Exec_def log_of_def)
next
  assume "succeeded (response_of (activateDevice e m a s))" and "db_error e UpdateDeviceActive"
  then show "log_of (activateDevice e m a s) = [LogError ''Error activating device'']"
    unfolding activateDevice_def response_of_def log_of_def Let_def
    by (auto simp: db_Exec_def split: option.splits if_splits)
next
  assume "succeeded (response_of (activateDevice_main e m a s))" and "db_error e UpdateDeviceActive"
  then show "log_of (activateDevice_main e m a s) = [LogError ''Error activating device'']"
    unfolding activateDevice_main_def response_of_def log_of_def Let_def
    by (auto simp: db_Exec_def split: option.splits if_splits)
next
  assume "succeeded (response_of (setRemoteLock e m l s))" and "db_error e UpdateDeviceLocked"
  then show "log_of (setRemoteLock e m l s) = [LogError ''Error updating device lock'']"
    unfolding setRemoteLock_def response_of_def log_of_def Let_def
    by (auto simp: db_Exec_def update_remote_lock_def split: option.splits if_splits)
next
  assume "succeeded (response_of (unlockDevice e m u s))" and "db_error e UpdateRemoteLock"
  then show "log_of (unlockDevice e m u s) = [LogError ''Error updating remote lock'']"
    unfolding unlockDevice_def response_of_def log_of_def Let_def
    by (auto simp: db_Exec_def split: option.splits if_splits)
qed

lemma listing_errors:
  assumes "db_error e QueryActivationCodes \<or> db_error e QueryLockDates"
  shows "deviceTerms e s did = []" and "deviceTerms_main e s did = []"
  using assms by (auto simp: deviceTerms_def deviceTerms_main_def db_Query_def)

lemma listing_errors_ignored:
  "succeeded (response_of (activateDevice e m a s)) =
   succeeded (response_of (activateDevice
      (without_error (without_error e QueryActivationCodes) QueryLockDates) m a s))"
  "succeeded (response_of (activateDevice_main e m a s)) =
   succeeded (response_of (activateDevice_main
      (without_error (without_error e QueryActivationCodes) QueryLockDates) m a s))"
  "succeeded (response_of (checkActivation e m sn s)) =
   succeeded (response_of (checkActivation
      (without_error (without_error e QueryActivationCodes) QueryLockDates) m sn s))"
  "succeeded (response_of (checkActivation_main e m sn s)) =
   succeeded (response_of (checkActivation_main
      (without_error (without_error e QueryActivationCodes) QueryLockDates) m sn s))"
  unfolding activateDevice_def activateDevice_main_def checkActivation_def checkActivation_main_def
    response_of_def Let_def
  by (auto simp: db_QueryRow_def db_Exec_def without_error_simps split: option.splits)

text \<open>
  C6, as the code has it. On both servers a request cannot report success when the store fails
  one of the statements of \<open>must_succeed\<close>: a lookup (the existence check of a registration
  apart), the device insert or an insert of a round of the registration, the mark-used update of
  an activation, the update of the remote lock row in remote-lock-set, the update of the device in
  unlock; and the check of package \<^verbatim>\<open>handler\<close> cannot report success when the activating update
  of an inactive device fails. The response does not depend on a failure of the insert of the
  remote lock row in a registration, of the update of the device row in an activation by code or
  in remote-lock-set, or of the update of the remote lock row in unlock: it is the response of
  the same request without that failure, and when it is a success the failure is in the log and
  nowhere else. A failing existence check of a registration is ignored: with a serial number no
  device has, the registration runs as if the check had not failed; with a serial number a device
  has, it cannot report success, whether the check fails or not. A failing listing of the codes
  or of the lock dates leaves the terms of the response empty and does not change whether an
  activation or a check reports success.
\<close>

theorem store_errors_surface_or_are_logged:
  "(c \<in> set (must_succeed rq) \<and> db_error e c \<longrightarrow> \<not> succeeded (response_of (serve v e rq s)))
   \<and> (select_device s sn = Some d \<and> \<not> dev_is_active d \<and> db_error e UpdateDeviceActive \<longrightarrow>
        \<not> succeeded (response_of (checkActivation e m sn s)))
   \<and> response_of (registerDevice e m body s) =
       response_of (registerDevice (without_error e InsertRemoteLock) m body s)
   \<and> response_of (activateDevice e m a s) =
       response_of (activateDevice (without_error e UpdateDeviceActive) m a s)
   \<and> response_of (activateDevice_main e m a s) =
       response_of (activateDevice_main (without_error e UpdateDeviceActive) m a s)
   \<and> response_of (setRemoteLock e m l s) =
       response_of (setRemoteLock (without_error e UpdateDeviceLocked) m l s)
   \<and> response_of (unlockDevice e m u s) =
       response_of (unlockDevice (without_error e UpdateRemoteLock) m u s)
   \<and> (succeeded (response_of (registerDevice e m body s)) \<and> db_error e InsertRemoteLock \<longrightarrow>
        log_of (registerDevice e m body s) = [LogError ''Error inserting remote lock''])
   \<and> (succeeded (response_of (activateDevice e m a s)) \<and> db_error e UpdateDeviceActive \<longrightarrow>
        log_of (activateDevice e m a s) = [LogError ''Error activating device''])
   \<and> (succeeded (response_of (activateDevice_main e m a s)) \<and> db_error e UpdateDeviceActive \<longrightarrow>
        log_of (activateDevice_main e m a s) = [LogError ''Error activating device''])
   \<and> (succeeded (response_of (setRemoteLock e m l s)) \<and> db_error e UpdateDeviceLocked \<longrightarrow>
        log_of (setRemoteLock e m l s) = [LogError ''Error updating device lock''])
   \<and> (succeeded (response_of (unlockDevice e m u s)) \<and> db_error e UpdateRemoteLock \<longrightarrow>
        log_of (unlockDevice e m u s) = [LogError ''Error updating remote lock''])
   \<and> (list_all (\<lambda>x. dev_serial_number x \<noteq> SerialNumber req) (devices s) \<longrightarrow>
        registerDevice e m (Some req) s =
        registerDevice (without_error e SelectDevice) m (Some req) s)
   \<and> (list_ex (\<lambda>x. dev_serial_number x = SerialNumber req) (devices s) \<longrightarrow>
        \<not> succeeded (response_of (registerDevice e m (Some req) s)))
   \<and> (db_error e QueryActivationCodes \<or> db_error e QueryLockDates \<longrightarrow>
        deviceTerms e s did = [] \<and> deviceTerms_main e s did = [])
   \<and> succeeded (response_of (activateDevice e m a s)) =
       succeeded (response_of (activateDevice
          (without_error (without_error e QueryActivationCodes) QueryLockDates) m a s))
   \<and> succeeded (response_of (activateDevice_main e m a s)) =
       succeeded (response_of (activateDevice_main
          (without_error (without_error e QueryActivationCodes) QueryLockDates) m a s))
   \<and> succeeded (response_of (checkActivation e m sn s)) =
       succeeded (response_of (checkActivation
          (without_error (without_error e QueryActivationCodes) QueryLockDates) m sn s))
   \<and> succeeded (response_of (checkActivation_main e m sn s)) =
       succeeded (response_of (checkActivation_main
          (without_error (without_error e QueryActivationCodes) QueryLockDates) m sn s))"
proof -
  have surface: "\<not> succeeded (response_of (serve v e rq s))"
    if a: "c \<in> set (must_succeed rq) \<and> db_error e c"
  proof (cases rq)
    case (Register body)
    with a registerDevice_must_succeed [of c body e MethodPost s] show ?thesis by simp
  next
    case (Activate body)
    with a show ?thesis by (cases v) (auto simp: activateDevice_must_succeed)
  next
    case (Check x)
    with a show ?thesis by (cases v) (auto simp: checkActivation_must_succeed)
  next
    case (SetLock body)
    with a show ?thesis by (auto simp: setRemoteLock_must_succeed)
  next
    case (CheckLock x)
    with a show ?thesis by (auto simp: checkRemoteLock_must_succeed)
  next
    case (Unlock body)
    with a show ?thesis by (auto simp: unlockDevice_must_succeed)
  next
    case Health
    with a show ?thesis by simp
  qed
  have check: "\<not> succeeded (response_of (checkActivation e m sn s))"
    if "select_device s sn = Some d \<and> \<not> dev_is_active d \<and> db_error e UpdateDeviceActive"
    using that
    by (auto simp: checkActivation_def response_of_def db_QueryRow_def db_Exec_def Let_def)
  show ?thesis
    by (intro conjI impI surface check registerDevice_remote_lock_error
          activateDevice_active_error setRemoteLock_locked_error unlockDevice_remote_lock_error
          listing_errors_ignored)
       (simp_all add: swallowed_errors_logged registerDevice_existing listing_errors,
        erule registerDevice_existence_check)
qed

theorem store_errors_surface_or_are_logged_witness:
  "UpdateRemoteLock \<in> set (must_succeed (SetLock (Some \<lparr>rlr_SerialNumber = ''TV1'', rlr_IsLocked = True\<rparr>)))
   \<and> db_error (failing_env UpdateRemoteLock) UpdateRemoteLock
   \<and> \<not> succeeded (response_of (serve MainServer (failing_env UpdateRemoteLock)
          (SetLock (Some \<lparr>rlr_SerialNumber = ''TV1'', rlr_IsLocked = True\<rparr>)) demo_store))
   \<and> select_device demo_store ''TV1'' = Some demo_device \<and> \<not> dev_is_active demo_device
   \<and> db_error (failing_env UpdateDeviceActive) UpdateDeviceActive
   \<and> \<not> succeeded (response_of
          (checkActivation (failing_env UpdateDeviceActive) MethodGet ''TV1'' demo_store))
   \<and> succeeded (response_of (setRemoteLock (failing_env UpdateDeviceLocked) MethodPost
          (Some \<lparr>rlr_SerialNumber = ''TV1'', rlr_IsLocked = True\<rparr>) demo_store))
   \<and> db_error (failing_env UpdateDeviceLocked) UpdateDeviceLocked
   \<and> log_of (setRemoteLock (failing_env UpdateDeviceLocked) MethodPost
          (Some \<lparr>rlr_SerialNumber = ''TV1'', rlr_IsLocked = True\<rparr>) demo_store)
        = [LogError ''Error updating device lock'']
   \<and> succeeded (response_of (unlockDevice (failing_env UpdateRemoteLock) MethodPost
          (Some \<lparr>ur_SerialNumber = ''TV1''\<rparr>) demo_store))
   \<and> log_of (unlockDevice (failing_env UpdateRemoteLock) MethodPost
          (Some \<lparr>ur_SerialNumber = ''TV1''\<rparr>) demo_store)
        = [LogError ''Error updating remote lock'']
   \<and> succeeded (response_of (activateDevice (failing_env UpdateDeviceActive) MethodPost
          (Some \<lparr>ar_ActivationCode = ''c0000001''\<rparr>) demo_store))
   \<and> log_of (activateDevice (failing_env UpdateDeviceActive) MethodPost
          (Some \<lparr>ar_ActivationCode = ''c0000001''\<rparr>) demo_store)
        = [LogError ''Error activating device'']
   \<and> succeeded (response_of (activateDevice_main (failing_env UpdateDeviceActive) MethodPost
          (Some \<lparr>ar_ActivationCode = ''c0000001''\<rparr>) demo_store))
   \<and> log_of (activateDevice_main (failing_env UpdateDeviceActive) MethodPost
          (Some \<lparr>ar_ActivationCode = ''c0000001''\<rparr>) demo_store)
        = [LogError ''Error activating device'']
   \<and> succeeded (response_of (registerDevice (failing_env InsertRemoteLock) MethodPost
          (Some demo_request) empty_store))
   \<and> db_error (failing_env InsertRemoteLock) InsertRemoteLock
   \<and> log_of (registerDevice (failing_env InsertRemoteLock) MethodPost (Some demo_request) empty_store)
        = [LogError ''Error inserting remote lock'']
   \<and> list_all (\<lambda>x. dev_serial_number x \<noteq> SerialNumber demo_request) (devices empty_store)
   \<and> registerDevice (failing_env SelectDevice) MethodPost (Some demo_request) empty_store =
       registerDevice (without_error (failing_env SelectDevice) SelectDevice) MethodPost
         (Some demo_request) empty_store
   \<and> list_ex (\<lambda>x. dev_serial_number x = SerialNumber demo_request) (devices demo_store)
   \<and> \<not> succeeded (response_of
          (registerDevice (failing_env SelectDevice) MethodPost (Some demo_request) demo_store))
   \<and> db_error (failing_env QueryLockDates) QueryLockDates
   \<and> deviceTerms (failing_env QueryLockDates) demo_store ''d0000000-0000-4000-8000-000000000000'' = []
   \<and> deviceTerms_main (failing_env QueryLockDates) demo_store
        ''d0000000-0000-4000-8000-000000000000'' = []"
proof -
  have h1: "UpdateRemoteLock
      \<in> set (must_succeed (SetLock (Some \<lparr>rlr_SerialNumber = ''TV1'', rlr_IsLocked = True\<rparr>)))"
    by simp
  have err: "\<And>c. db_error (failing_env c) c"
    by (simp add: failing_env_def)
  have h3: "select_device demo_store ''TV1'' = Some demo_device"
    by (simp add: demo_store_eq demo_device_eq select_device_def)
  have h4: "\<not> dev_is_active demo_device" by (simp add: demo_device_eq)
  have ok1: "succeeded (response_of (setRemoteLock (failing_env UpdateDeviceLocked) MethodPost
          (Some \<lparr>rlr_SerialNumber = ''TV1'', rlr_IsLocked = True\<rparr>) demo_store))"
    by (simp add: demo_store_eq lock_simps)
  have ok2: "succeeded (response_of (unlockDevice (failing_env UpdateRemoteLock) MethodPost
          (Some \<lparr>ur_SerialNumber = ''TV1''\<rparr>) demo_store))"
    by (simp add: demo_store_eq lock_simps)
  have ok3: "succeeded (response_of (activateDevice (failing_env UpdateDeviceActive) MethodPost
          (Some \<lparr>ar_ActivationCode = ''c0000001''\<rparr>) demo_store))"
    by (simp add: demo_store_eq activate_simps)
  have ok4: "succeeded (response_of (activateDevice_main (failing_env UpdateDeviceActive) MethodPost
          (Some \<lparr>ar_ActivationCode = ''c0000001''\<rparr>) demo_store))"
    by (simp add: demo_store_eq activate_simps)
  have ok5: "succeeded (response_of (registerDevice (failing_env InsertRemoteLock) MethodPost
          (Some demo_request) empty_store))"
    by (simp add: demo_registration_remote_lock_fails response_of_def)
  have h5: "list_all (\<lambda>x. dev_serial_number x \<noteq> SerialNumber demo_request) (devices empty_store)"
    by (simp add: empty_store_def)
  have h6: "list_ex (\<lambda>x. dev_serial_number x = SerialNumber demo_request) (devices demo_store)"
    by (simp add: demo_store_eq demo_request_def)
  note t = store_errors_surface_or_are_logged
  from t [where c = UpdateRemoteLock and e = "failing_env UpdateRemoteLock"
         and rq = "SetLock (Some \<lparr>rlr_SerialNumber = ''TV1'', rlr_IsLocked = True\<rparr>)"
         and v = MainServer and s = demo_store,
         THEN conjunct1] h1 err
  have 1: "\<not> succeeded (response_of (serve MainServer (failing_env UpdateRemoteLock)
          (SetLock (Some \<lparr>rlr_SerialNumber = ''TV1'', rlr_IsLocked = True\<rparr>)) demo_store))"
    by blast
  from t [where e = "failing_env UpdateDeviceActive" and s = demo_store
         and sn = "''TV1''" and d = demo_device and m = MethodGet,
         THEN conjunct2, THEN conjunct1] h3 h4 err
  have 2: "\<not> succeeded (response_of
          (checkActivation (failing_env UpdateDeviceActive) MethodGet ''TV1'' demo_store))"
    by blast
  from t [where e = "failing_env UpdateDeviceLocked" and s = demo_store and m = MethodPost
         and l = "Some \<lparr>rlr_SerialNumber = ''TV1'', rlr_IsLocked = True\<rparr>",
         THEN conjunct2, THEN conjunct2, THEN conjunct2, THEN conjunct2,
         THEN conjunct2, THEN conjunct2, THEN conjunct2, THEN conjunct2,
         THEN conjunct2, THEN conjunct2, THEN conjunct1] ok1 err
  have 3: "log_of (setRemoteLock (failing_env UpdateDeviceLocked) MethodPost
          (Some \<lparr>rlr_SerialNumber = ''TV1'', rlr_IsLocked = True\<rparr>) demo_store)
        = [LogError ''Error updating device lock'']"
    by blast
  from t [where e = "failing_env UpdateRemoteLock" and s = demo_store and m = MethodPost
         and u = "Some \<lparr>ur_SerialNumber = ''TV1''\<rparr>",
         THEN conjunct2, THEN conjunct2, THEN conjunct2, THEN conjunct2,
         THEN conjunct2, THEN conjunct2, THEN conjunct2, THEN conjunct2,
         THEN conjunct2, THEN conjunct2, THEN conjunct2, THEN conjunct1] ok2 err
  have 4: "log_of (unlockDevice (failing_env UpdateRemoteLock) MethodPost
          (Some \<lparr>ur_SerialNumber = ''TV1''\<rparr>) demo_store)
        = [LogError ''Error updating remote lock'']"
    by blast
  from t [where e = "failing_env UpdateDeviceActive" and s = demo_store and m = MethodPost
         and a = "Some \<lparr>ar_ActivationCode = ''c0000001''\<rparr>",
         THEN conjunct2, THEN conjunct2, THEN conjunct2, THEN conjunct2,
         THEN conjunct2, THEN conjunct2, THEN conjunct2, THEN conjunct2,
         THEN conjunct1] ok3 err
  have 5: "log_of (activateDevice (failing_env UpdateDeviceActive) MethodPost
          (Some \<lparr>ar_ActivationCode = ''c0000001''\<rparr>) demo_store)
        = [LogError ''Error activating device'']"
    by blast
  from t [where e = "failing_env UpdateDeviceActive" and s = demo_store and m = MethodPost
         and a = "Some \<lparr>ar_ActivationCode = ''c0000001''\<rparr>",
         THEN conjunct2, THEN conjunct2, THEN conjunct2, THEN conjunct2,
         THEN conjunct2, THEN conjunct2, THEN conjunct2, THEN conjunct2,
         THEN conjunct2, THEN conjunct1] ok4 err
  have 10: "log_of (activateDevice_main (failing_env UpdateDeviceActive) MethodPost
          (Some \<lparr>ar_ActivationCode = ''c0000001''\<rparr>) demo_store)
        = [LogError ''Error activating device'']"
    by blast
  from t [where e = "failing_env InsertRemoteLock" and s = empty_store and m = MethodPost
         and body = "Some demo_request",
         THEN conjunct2, THEN conjunct2, THEN conjunct2, THEN conjunct2,
         THEN conjunct2, THEN conjunct2, THEN conjunct2, THEN conjunct1] ok5 err
  have 6: "log_of (registerDevice (failing_env InsertRemoteLock) MethodPost (Some demo_request)
          empty_store) = [LogError ''Error inserting remote lock'']"
    by blast
  from t [where e = "failing_env SelectDevice" and s = empty_store and m = MethodPost
         and req = demo_request,
         THEN conjunct2, THEN conjunct2, THEN conjunct2, THEN conjunct2,
         THEN conjunct2, THEN conjunct2, THEN conjunct2, THEN conjunct2,
         THEN conjunct2, THEN conjunct2, THEN conjunct2, THEN conjunct2,
         THEN conjunct1] h5
  have 7: "registerDevice (failing_env SelectDevice) MethodPost (Some demo_request) empty_store =
       registerDevice (without_error (failing_env SelectDevice) SelectDevice) MethodPost
         (Some demo_request) empty_store"
    by blast
  from t [where e = "failing_env SelectDevice" and s = demo_store and m = MethodPost
         and req = demo_request,
         THEN conjunct2, THEN conjunct2, THEN conjunct2, THEN conjunct2,
         THEN conjunct2, THEN conjunct2, THEN conjunct2, THEN conjunct2,
         THEN conjunct2, THEN conjunct2, THEN conjunct2, THEN conjunct2,
         THEN conjunct2, THEN conjunct1] h6
  have 8: "\<not> succeeded (response_of
          (registerDevice (failing_env SelectDevice) MethodPost (Some demo_request) demo_store))"
    by blast
  from t [where e = "failing_env QueryLockDates" and s = demo_store
         and did = "''d0000000-0000-4000-8000-000000000000''",
         THEN conjunct2, THEN conjunct2, THEN conjunct2, THEN conjunct2,
         THEN conjunct2, THEN conjunct2, THEN conjunct2, THEN conjunct2,
         THEN conjunct2, THEN conjunct2, THEN conjunct2, THEN conjunct2,
         THEN conjunct2, THEN conjunct2, THEN conjunct1] err
  have 9: "deviceTerms (failing_env QueryLockDates) demo_store
        ''d0000000-0000-4000-8000-000000000000'' = []"
    "deviceTerms_main (failing_env QueryLockDates) demo_store
        ''d0000000-0000-4000-8000-000000000000'' = []"
    by blast+
  show ?thesis
    by (intro conjI h1 err h3 h4 ok1 ok2 ok3 ok4 ok5 h5 h6 1 2 3 4 5 10 6 7 8 9)
qed

text \<open>The registration of the concrete run when the store fails the insert of the remote lock
  row: a store write error, and the request reports success.\<close>

theorem swallowed_store_error_counterexample:
  "db_error (failing_env InsertRemoteLock) InsertRemoteLock
   \<and> succeeded (response_of
        (registerDevice (failing_env InsertRemoteLock) MethodPost (Some demo_request) empty_store))
   \<and> log_of (registerDevice (failing_env InsertRemoteLock) MethodPost (Some demo_request) empty_store)
       = [LogError ''Error inserting remote lock'']
   \<and> remote_locks (store_of
        (registerDevice (failing_env InsertRemoteLock) MethodPost (Some demo_request) empty_store)) = []"
proof -
  have "db_error (failing_env InsertRemoteLock) InsertRemoteLock"
    by (simp add: failing_env_def)
  then show ?thesis
    by (simp add: demo_registration_remote_lock_fails response_of_def log_of_def store_of_def)
qed

section \<open>The terms of a device: the sort and the pairing\<close>

declare sort_inner.simps [simp del] sort_outer.simps [simp del]

























section \<open>The terms in the response of an activation\<close>








section \<open>Check\<close>








end
